(* ===== verification/Go_Prelude.thy ===== *)
theory Go_Prelude
  imports Complex_Main "HOL-Library.State_Monad" "HOL-Library.Word"
begin

text \<open>
  What every component shares: the parts of Go and of its standard library the program uses
  (64-bit integers and durations, nil-able slices and maps, decimal printing and parsing, the two
  time layouts), the error values of the Kubernetes client, and the state monad in which the
  handlers are written, with a small calculus for reasoning about it.

  Times are nanoseconds since the Unix epoch and durations are nanoseconds, both of type
  \<open>int\<close>; where Go's \<open>int64\<close> can overflow the wrap-around is written out with \<open>wrap64\<close>.
  Strings are byte strings, as Go's are.
\<close>

named_theorems monad_simps "evaluation of the monad and of its primitive actions"
named_theorems emits_intros "rules for the set of requests a program can send"

section \<open>Integers\<close>

text \<open>Conversion to \<open>int64\<close> keeps the low 64 bits.\<close>

definition wrap64 :: "int \<Rightarrow> int" where
  "wrap64 x = (x + 2 ^ 63) mod 2 ^ 64 - 2 ^ 63"

definition in_int64 :: "int \<Rightarrow> bool" where
  "in_int64 x \<longleftrightarrow> - (2 ^ 63) \<le> x \<and> x < 2 ^ 63"

definition in_int32 :: "int \<Rightarrow> bool" where
  "in_int32 x \<longleftrightarrow> - (2 ^ 31) \<le> x \<and> x < 2 ^ 31"

lemma wrap64_in_int64 [simp]: "in_int64 (wrap64 x)"
proof -
  have "0 \<le> (x + 2 ^ 63) mod 2 ^ 64" and "(x + 2 ^ 63) mod 2 ^ 64 < 2 ^ 64"
    by simp_all
  then show ?thesis by (simp add: in_int64_def wrap64_def)
qed

lemma wrap64_id [simp]: "in_int64 x \<Longrightarrow> wrap64 x = x"
  by (simp add: in_int64_def wrap64_def)

lemma wrap64_signed_word: "wrap64 x = sint (word_of_int x :: 64 word)"
  by (simp add: wrap64_def signed_of_int signed_take_bit_eq_take_bit_shift take_bit_eq_mod)

text \<open>\<open>Time.Sub\<close> saturates at the ends of \<open>Duration\<close>.\<close>

definition sat64 :: "int \<Rightarrow> int" where
  "sat64 x = max (- (2 ^ 63)) (min (2 ^ 63 - 1) x)"

lemma sat64_id [simp]: "in_int64 x \<Longrightarrow> sat64 x = x"
  by (simp add: in_int64_def sat64_def)

lemma sat64_less_iff: "in_int64 t \<Longrightarrow> - (2 ^ 63) < t \<Longrightarrow> sat64 x < t \<longleftrightarrow> x < t"
  by (auto simp: in_int64_def sat64_def)

abbreviation Millisecond :: int where "Millisecond \<equiv> 1000000"
abbreviation Second :: int where "Second \<equiv> 1000000000"
abbreviation Hour :: int where "Hour \<equiv> 3600000000000"

section \<open>Slices and maps\<close>

text \<open>A slice or a map can be nil, which is not the same value as an empty one.\<close>

type_synonym 'a slice = "'a list option"
type_synonym gomap = "(string \<rightharpoonup> string) option"

definition elems :: "'a slice \<Rightarrow> 'a list" where
  "elems s = (case s of None \<Rightarrow> [] | Some xs \<Rightarrow> xs)"

definition entries :: "gomap \<Rightarrow> string \<rightharpoonup> string" where
  "entries m = (case m of None \<Rightarrow> Map.empty | Some f \<Rightarrow> f)"

text \<open>Indexing a map, nil or not, yields the zero value for a missing key.\<close>

definition index :: "gomap \<Rightarrow> string \<Rightarrow> string" where
  "index m k = (case entries m k of None \<Rightarrow> '''' | Some v \<Rightarrow> v)"

lemma elems_simps [simp]: "elems None = []" "elems (Some xs) = xs"
  by (simp_all add: elems_def)

lemma entries_simps [simp]: "entries None = Map.empty" "entries (Some f) = f"
  by (simp_all add: entries_def)

section \<open>Separators\<close>

text \<open>A text is cut in one way at the first occurrence of a separator.\<close>

lemma cut_at_separator:
  "c \<notin> set xs \<Longrightarrow> c \<notin> set ys \<Longrightarrow> xs @ c # as = ys @ c # bs \<longleftrightarrow> xs = ys \<and> as = bs"
proof (induction xs arbitrary: ys)
  case Nil
  then show ?case by (cases ys) auto
next
  case (Cons x xs)
  then show ?case by (cases ys) auto
qed

section \<open>Decimal numbers\<close>

definition digit :: "nat \<Rightarrow> char" where
  "digit n = char_of (48 + n)"

fun nat_str :: "nat \<Rightarrow> string" where
  "nat_str n = (if n < 10 then [digit n] else nat_str (n div 10) @ [digit (n mod 10)])"

declare nat_str.simps [simp del]

text \<open>\<open>fmt.Sprintf("%d", i)\<close>.\<close>

definition int_str :: "int \<Rightarrow> string" where
  "int_str i = (if i < 0 then CHR ''-'' # nat_str (nat (- i)) else nat_str (nat i))"

definition digit_val :: "char \<Rightarrow> int option" where
  "digit_val c = (if 48 \<le> (of_char c :: int) \<and> (of_char c :: int) \<le> 57
                  then Some (of_char c - 48) else None)"

fun parse_digits :: "int \<Rightarrow> string \<Rightarrow> int option" where
  "parse_digits acc [] = Some acc"
| "parse_digits acc (c # cs) =
     (case digit_val c of None \<Rightarrow> None | Some d \<Rightarrow> parse_digits (10 * acc + d) cs)"

text \<open>
  \<open>strconv.Atoi(s)\<close> and \<open>strconv.ParseInt(s, 10, 64)\<close>: an optional sign and at least one digit;
  out of range is an error.
\<close>

definition parse_int :: "string \<Rightarrow> int option" where
  "parse_int s =
     (let (neg, ds) = (case s of [] \<Rightarrow> (False, [])
                       | c # cs \<Rightarrow> if c = CHR ''-'' then (True, cs)
                                   else if c = CHR ''+'' then (False, cs) else (False, s))
      in if ds = [] then None
         else case parse_digits 0 ds of None \<Rightarrow> None
              | Some n \<Rightarrow> let i = (if neg then - n else n)
                          in if in_int64 i then Some i else None)"

lemma of_char_digit: "n < 10 \<Longrightarrow> (of_char (digit n) :: int) = 48 + int n"
proof -
  assume "n < 10"
  then have "(of_char (digit n) :: nat) = 48 + n" by (simp add: digit_def)
  then show ?thesis by (metis of_nat_add of_nat_numeral of_nat_of_char)
qed

lemma digit_val_digit [simp]: "n < 10 \<Longrightarrow> digit_val (digit n) = Some (int n)"
  by (simp add: digit_val_def of_char_digit)

lemma parse_digits_append:
  "parse_digits acc (xs @ ys) =
     (case parse_digits acc xs of None \<Rightarrow> None | Some n \<Rightarrow> parse_digits n ys)"
  by (induction xs arbitrary: acc) (auto split: option.splits)

lemma parse_digits_nat_str: "parse_digits 0 (nat_str n) = Some (int n)"
proof (induction n rule: nat_str.induct)
  case (1 n)
  show ?case
  proof (cases "n < 10")
    case True
    then show ?thesis by (simp add: nat_str.simps [of n])
  next
    case False
    have "10 * (int n div 10) + int n mod 10 = int n" by simp
    with 1 False show ?thesis
      by (simp add: nat_str.simps [of n] parse_digits_append zdiv_int zmod_int)
  qed
qed

lemma nat_str_inject [simp]: "nat_str m = nat_str n \<longleftrightarrow> m = n"
  using parse_digits_nat_str by (metis option.inject of_nat_eq_iff)

lemma nat_str_not_Nil [simp]: "nat_str n \<noteq> []"
  by (simp add: nat_str.simps [of n])

lemma set_nat_str: "c \<in> set (nat_str n) \<Longrightarrow> \<exists>d < 10. c = digit d"
proof (induction n rule: nat_str.induct)
  case (1 n)
  show ?case
  proof (cases "n < 10")
    case True
    with "1.prems" show ?thesis by (auto simp: nat_str.simps [of n])
  next
    case False
    with "1.prems" consider "c \<in> set (nat_str (n div 10))" | "c = digit (n mod 10)"
      by (auto simp: nat_str.simps [of n])
    then show ?thesis
    proof cases
      case 1
      then show ?thesis using "1.IH" False by blast
    next
      case 2
      then show ?thesis by (intro exI [of _ "n mod 10"]) simp
    qed
  qed
qed

lemma digit_not_sign: "d < 10 \<Longrightarrow> digit d \<noteq> CHR ''-'' \<and> digit d \<noteq> CHR ''+''"
  using of_char_digit [of d] by auto

lemma hd_nat_str_not_sign: "nat_str n = c # cs \<Longrightarrow> c \<noteq> CHR ''-'' \<and> c \<noteq> CHR ''+''"
  using set_nat_str [of c n] digit_not_sign by auto

text \<open>Printing a 64-bit integer and parsing it again gives it back.\<close>

lemma parse_int_str: "parse_int (int_str i) = (if in_int64 i then Some i else None)"
proof (cases "i < 0")
  case True
  then show ?thesis
    by (simp add: parse_int_def int_str_def parse_digits_nat_str)
next
  case False
  obtain c cs where s: "nat_str (nat i) = c # cs"
    by (cases "nat_str (nat i)") auto
  have "parse_digits 0 (c # cs) = Some i"
    using parse_digits_nat_str [of "nat i"] s False by simp
  with False s hd_nat_str_not_sign [OF s] show ?thesis
    by (simp add: parse_int_def int_str_def del: parse_digits.simps)
qed

lemma parse_int_int_str: "in_int64 i \<Longrightarrow> parse_int (int_str i) = Some i"
  by (simp add: parse_int_str)

lemma int_str_inject [simp]: "int_str i = int_str j \<longleftrightarrow> i = j"
proof -
  have "nat_str n \<noteq> CHR ''-'' # cs" for n cs
    using hd_nat_str_not_sign by blast
  then show ?thesis
    by (auto simp: int_str_def split: if_splits) metis+
qed

section \<open>Times as text\<close>

text \<open>
  The proleptic Gregorian date of a day number (day 0 is 1970-01-01), and the two layouts the
  program prints times in, both after \<open>UTC()\<close>.
\<close>

definition civil_from_days :: "int \<Rightarrow> int \<times> int \<times> int" where
  "civil_from_days days =
     (let z = days + 719468; era = z div 146097; doe = z mod 146097;
          yoe = (doe - doe div 1460 + doe div 36524 - doe div 146096) div 365;
          doy = doe - (365 * yoe + yoe div 4 - yoe div 100);
          mp = (5 * doy + 2) div 153;
          d = doy - (153 * mp + 2) div 5 + 1;
          m = (if mp < 10 then mp + 3 else mp - 9)
      in (yoe + era * 400 + (if m \<le> 2 then 1 else 0), m, d))"

definition pad :: "nat \<Rightarrow> int \<Rightarrow> string" where
  "pad w i = (let s = nat_str (nat \<bar>i\<bar>)
              in (if i < 0 then ''-'' else '''') @ replicate (w - length s) (CHR ''0'') @ s)"

text \<open>The layout \<open>2006-01-02T15:04:05\<close>.\<close>

definition format_ts :: "int \<Rightarrow> string" where
  "format_ts t =
     (let secs = t div Second; (y, m, d) = civil_from_days (secs div 86400); s = secs mod 86400
      in pad 4 y @ ''-'' @ pad 2 m @ ''-'' @ pad 2 d @ ''T'' @
         pad 2 (s div 3600) @ '':'' @ pad 2 (s mod 3600 div 60) @ '':'' @ pad 2 (s mod 60))"

text \<open>\<open>time.RFC3339\<close> of a time in UTC.\<close>

definition format_rfc3339 :: "int \<Rightarrow> string" where
  "format_rfc3339 t = format_ts t @ ''Z''"

text \<open>The instant \<open>time.Time{}\<close>, and \<open>(*metav1.Time).IsZero\<close>, which holds of nil too.\<close>

definition zero_time :: int where
  "zero_time = - 62135596800 * Second"

definition IsZero :: "int option \<Rightarrow> bool" where
  "IsZero t = (case t of None \<Rightarrow> True | Some x \<Rightarrow> x = zero_time)"

lemma IsZero_None [simp]: "IsZero None"
  by (simp add: IsZero_def)

end
