(* ===== verification/Cache_Store.thy ===== *)
theory Cache_Store
  imports Go_Prelude
begin

text \<open>
  The interface \<open>CacheStore\<close> of \<open>internal/cache/cache.go\<close>: the operations as a record, and what
  its users rely on as two locales. \<open>cache_store\<close> is the contract of \<open>Set\<close>, \<open>Get\<close>, \<open>GetEntry\<close> and
  \<open>Delete\<close>, which both implementations keep; \<open>listing_cache_store\<close> adds \<open>List\<close> and \<open>ClearAgent\<close>,
  which only the in-memory one keeps for every history of calls.
\<close>

section \<open>Values and entries\<close>

text \<open>
  The dynamic types a cached \<open>interface{}\<close> can have: what \<open>encoding/json\<close> decodes a document
  into, and the \<open>int64\<close> that the idle watcher stores. A \<open>float64\<close> is the rational number it denotes.
\<close>

datatype gval =
    VNil
  | VBool bool
  | VInt64 int
  | VFloat64 rat
  | VString string
  | VSlice "gval list"
  | VMap "(string \<times> gval) list"

record Entry =
  entry_Value :: gval
  entry_CreatedAt :: int
  entry_ExpiresAt :: "int option"

text \<open>\<open>IsExpired\<close>, with the time that \<open>time.Now()\<close> returned as its first argument.\<close>

definition IsExpired :: "int \<Rightarrow> Entry \<Rightarrow> bool" where
  "IsExpired now e = (case entry_ExpiresAt e of None \<Rightarrow> False | Some x \<Rightarrow> x < now)"

lemma IsExpired_mono: "t \<le> t' \<Longrightarrow> IsExpired t e \<Longrightarrow> IsExpired t' e"
  by (auto simp: IsExpired_def split: option.splits)

section \<open>The interface\<close>

text \<open>
  Every operation gets the clock readings it makes: \<open>Set\<close> reads the clock up to twice, the others
  are given one reading. A found value \<open>(v, true)\<close> is \<open>Some v\<close>, \<open>(nil, false)\<close> is \<open>None\<close>.
\<close>

record 'c CacheStore =
  cs_Set :: "string \<Rightarrow> string \<Rightarrow> string \<Rightarrow> gval \<Rightarrow> int \<Rightarrow> int \<times> int \<Rightarrow> 'c \<Rightarrow> 'c"
  cs_Get :: "string \<Rightarrow> string \<Rightarrow> string \<Rightarrow> int \<Rightarrow> 'c \<Rightarrow> gval option \<times> 'c"
  cs_GetEntry :: "string \<Rightarrow> string \<Rightarrow> string \<Rightarrow> int \<Rightarrow> 'c \<Rightarrow> Entry option \<times> 'c"
  cs_Delete :: "string \<Rightarrow> string \<Rightarrow> string \<Rightarrow> int \<Rightarrow> 'c \<Rightarrow> 'c"
  cs_List :: "string \<Rightarrow> string \<Rightarrow> int \<Rightarrow> 'c \<Rightarrow> (string \<rightharpoonup> Entry) \<times> 'c"
  cs_ClearAgent :: "string \<Rightarrow> string \<Rightarrow> int \<Rightarrow> 'c \<Rightarrow> 'c"

section \<open>The contract\<close>

text \<open>
  \<open>seen t c ns n f\<close> is the entry a reader of field \<open>f\<close> of agent \<open>ns/n\<close> finds at time \<open>t\<close>;
  \<open>norm v\<close> is what a stored \<open>v\<close> comes back as; \<open>legal\<close> and \<open>ttl_ok\<close> delimit the names and the
  times to live the contract is about, and \<open>invar\<close> is the implementation's invariant. Of the instant of expiry itself nothing is said.
\<close>

locale cache_store =
  fixes S :: "'c CacheStore"
    and seen :: "int \<Rightarrow> 'c \<Rightarrow> string \<Rightarrow> string \<Rightarrow> string \<Rightarrow> Entry option"
    and norm :: "gval \<Rightarrow> gval"
    and legal :: "string \<Rightarrow> string \<Rightarrow> bool"
    and ttl_ok :: "int \<Rightarrow> bool"
    and invar :: "'c \<Rightarrow> bool"
  assumes get_entry: "invar c \<Longrightarrow> fst (cs_GetEntry S ns n f t c) = seen t c ns n f"
    and get: "invar c \<Longrightarrow> fst (cs_Get S ns n f t c) = map_option entry_Value (seen t c ns n f)"
    and get_keeps: "invar c \<Longrightarrow> t \<le> t' \<Longrightarrow> seen t' (snd (cs_Get S ns n f t c)) = seen t' c"
    and get_entry_keeps:
      "invar c \<Longrightarrow> t \<le> t' \<Longrightarrow> seen t' (snd (cs_GetEntry S ns n f t c)) = seen t' c"
    and set_same: "invar c \<Longrightarrow> ttl_ok ttl \<Longrightarrow> 0 < ttl \<longrightarrow> t < min t1 t2 + ttl \<Longrightarrow> t1 \<le> t \<Longrightarrow>
      map_option entry_Value (seen t (cs_Set S ns n f v ttl (t1, t2) c) ns n f) = Some (norm v)"
    and set_expired: "invar c \<Longrightarrow> ttl_ok ttl \<Longrightarrow> 0 < ttl \<Longrightarrow> max t1 t2 + ttl < t \<Longrightarrow>
      seen t (cs_Set S ns n f v ttl (t1, t2) c) ns n f = None"
    and set_other: "invar c \<Longrightarrow> legal ns n \<Longrightarrow> legal ns' n' \<Longrightarrow> (ns', n', f') \<noteq> (ns, n, f) \<Longrightarrow>
      t1 \<le> t \<Longrightarrow> seen t (cs_Set S ns n f v ttl (t1, t2) c) ns' n' f' = seen t c ns' n' f'"
    and delete_same: "invar c \<Longrightarrow> t1 \<le> t \<Longrightarrow> seen t (cs_Delete S ns n f t1 c) ns n f = None"
    and delete_other: "invar c \<Longrightarrow> legal ns n \<Longrightarrow> legal ns' n' \<Longrightarrow> (ns', n', f') \<noteq> (ns, n, f) \<Longrightarrow>
      t1 \<le> t \<Longrightarrow> seen t (cs_Delete S ns n f t1 c) ns' n' f' = seen t c ns' n' f'"
    and invar_set: "invar c \<Longrightarrow> invar (cs_Set S ns n f v ttl (t1, t2) c)"
    and invar_get: "invar c \<Longrightarrow> invar (snd (cs_Get S ns n f t c))"
    and invar_get_entry: "invar c \<Longrightarrow> invar (snd (cs_GetEntry S ns n f t c))"
    and invar_delete: "invar c \<Longrightarrow> invar (cs_Delete S ns n f t c)"
begin

lemma get_after_set:
  "invar c \<Longrightarrow> ttl_ok ttl \<Longrightarrow> 0 < ttl \<longrightarrow> t < min t1 t2 + ttl \<Longrightarrow> t1 \<le> t \<Longrightarrow>
   fst (cs_Get S ns n f t (cs_Set S ns n f v ttl (t1, t2) c)) = Some (norm v)"
  by (simp add: get invar_set set_same)

lemma get_after_expiry:
  "invar c \<Longrightarrow> ttl_ok ttl \<Longrightarrow> 0 < ttl \<Longrightarrow> max t1 t2 + ttl < t \<Longrightarrow>
   fst (cs_Get S ns n f t (cs_Set S ns n f v ttl (t1, t2) c)) = None"
  by (simp add: get invar_set set_expired)

lemma get_after_set_other:
  "invar c \<Longrightarrow> legal ns n \<Longrightarrow> legal ns' n' \<Longrightarrow> (ns', n', f') \<noteq> (ns, n, f) \<Longrightarrow> t1 \<le> t \<Longrightarrow>
   fst (cs_Get S ns' n' f' t (cs_Set S ns n f v ttl (t1, t2) c)) = fst (cs_Get S ns' n' f' t c)"
  by (simp add: get invar_set set_other)

lemma get_after_delete:
  "invar c \<Longrightarrow> t1 \<le> t \<Longrightarrow> fst (cs_Get S ns n f t (cs_Delete S ns n f t1 c)) = None"
  by (simp add: get invar_delete delete_same)

lemma get_agrees:
  "invar c \<Longrightarrow>
   fst (cs_Get S ns n f t c) = map_option entry_Value (fst (cs_GetEntry S ns n f t c))"
  by (simp add: get get_entry)

end

text \<open>\<open>List\<close> returns exactly what single reads find, and \<open>ClearAgent\<close> removes all of it.\<close>

locale listing_cache_store = cache_store +
  assumes list_exact: "invar c \<Longrightarrow> fst (cs_List S ns n t c) = seen t c ns n"
    and list_keeps: "invar c \<Longrightarrow> t \<le> t' \<Longrightarrow> seen t' (snd (cs_List S ns n t c)) = seen t' c"
    and clear_same: "invar c \<Longrightarrow> t1 \<le> t \<Longrightarrow> seen t (cs_ClearAgent S ns n t1 c) ns n f = None"
    and clear_other: "invar c \<Longrightarrow> legal ns n \<Longrightarrow> legal ns' n' \<Longrightarrow> (ns', n') \<noteq> (ns, n) \<Longrightarrow>
      t1 \<le> t \<Longrightarrow> seen t (cs_ClearAgent S ns n t1 c) ns' n' f = seen t c ns' n' f"
    and invar_clear: "invar c \<Longrightarrow> invar (cs_ClearAgent S ns n t c)"
begin

lemma list_after_clear:
  "invar c \<Longrightarrow> t1 \<le> t \<Longrightarrow> fst (cs_List S ns n t (cs_ClearAgent S ns n t1 c)) = Map.empty"
  by (rule ext) (simp add: list_exact invar_clear clear_same)

lemma list_agrees_with_get:
  "invar c \<Longrightarrow>
   map_option entry_Value (fst (cs_List S ns n t c) f) = fst (cs_Get S ns n f t c)"
  by (simp add: list_exact get)

end

end
