(* ===== verification/Mem_Cache.thy ===== *)
theory Mem_Cache
  imports Cache_Store
begin

text \<open>
  \<open>InMemoryCache\<close> of \<open>internal/cache/cache.go\<close>, operation by operation. The map \<open>m.agents\<close> holds
  pointers to \<open>agentCache\<close> objects, so the model has a small heap: an address per object, and the
  entries each object holds. One lemma group shows what every operation does to the view of a
  field, the interpretation at the end discharges the contract of \<open>Cache_Store\<close>, and the last
  group is about the garbage collector, which no reader can notice.
\<close>

section \<open>State and operations\<close>

record InMemoryCache =
  mc_agents :: "string \<rightharpoonup> nat"
  mc_heap :: "nat \<Rightarrow> (string \<rightharpoonup> Entry)"
  mc_next :: nat

definition NewInMemoryCache :: InMemoryCache where
  "NewInMemoryCache = \<lparr>mc_agents = Map.empty, mc_heap = (\<lambda>_. Map.empty), mc_next = 0\<rparr>"

definition agentKey :: "string \<Rightarrow> string \<Rightarrow> string" where
  "agentKey namespace name = namespace @ ''/'' @ name"

definition getOrCreate :: "string \<Rightarrow> string \<Rightarrow> InMemoryCache \<Rightarrow> nat \<times> InMemoryCache" where
  "getOrCreate namespace name m =
     (let key = agentKey namespace name in
      case mc_agents m key of
        Some ac \<Rightarrow> (ac, m)
      | None \<Rightarrow> (mc_next m,
          m\<lparr>mc_agents := (mc_agents m)(key \<mapsto> mc_next m),
            mc_heap := (mc_heap m)(mc_next m := Map.empty),
            mc_next := Suc (mc_next m)\<rparr>))"

definition mem_entry :: "gval \<Rightarrow> int \<Rightarrow> int \<times> int \<Rightarrow> Entry" where
  "mem_entry value ttl nows =
     \<lparr>entry_Value = value, entry_CreatedAt = fst nows,
      entry_ExpiresAt = (if 0 < ttl then Some (snd nows + ttl) else None)\<rparr>"

definition mem_Set ::
  "string \<Rightarrow> string \<Rightarrow> string \<Rightarrow> gval \<Rightarrow> int \<Rightarrow> int \<times> int \<Rightarrow> InMemoryCache \<Rightarrow> InMemoryCache" where
  "mem_Set namespace name field value ttl nows m =
     (let (ac, m) = getOrCreate namespace name m in
      m\<lparr>mc_heap := (mc_heap m)(ac := (mc_heap m ac)(field \<mapsto> mem_entry value ttl nows))\<rparr>)"

definition mem_GetEntry :: "string \<Rightarrow> string \<Rightarrow> string \<Rightarrow> int \<Rightarrow> InMemoryCache \<Rightarrow> Entry option" where
  "mem_GetEntry namespace name field now m =
     (case mc_agents m (agentKey namespace name) of
        None \<Rightarrow> None
      | Some ac \<Rightarrow>
          (case mc_heap m ac field of
             None \<Rightarrow> None
           | Some entry \<Rightarrow> if IsExpired now entry then None else Some entry))"

definition mem_Get :: "string \<Rightarrow> string \<Rightarrow> string \<Rightarrow> int \<Rightarrow> InMemoryCache \<Rightarrow> gval option" where
  "mem_Get namespace name field now m =
     (case mc_agents m (agentKey namespace name) of
        None \<Rightarrow> None
      | Some ac \<Rightarrow>
          (case mc_heap m ac field of
             None \<Rightarrow> None
           | Some entry \<Rightarrow> if IsExpired now entry then None else Some (entry_Value entry)))"

definition mem_Delete :: "string \<Rightarrow> string \<Rightarrow> string \<Rightarrow> InMemoryCache \<Rightarrow> InMemoryCache" where
  "mem_Delete namespace name field m =
     (case mc_agents m (agentKey namespace name) of
        None \<Rightarrow> m
      | Some ac \<Rightarrow> m\<lparr>mc_heap := (mc_heap m)(ac := (mc_heap m ac)(field := None))\<rparr>)"

definition mem_List :: "string \<Rightarrow> string \<Rightarrow> int \<Rightarrow> InMemoryCache \<Rightarrow> (string \<rightharpoonup> Entry)" where
  "mem_List namespace name now m =
     (case mc_agents m (agentKey namespace name) of
        None \<Rightarrow> Map.empty
      | Some ac \<Rightarrow> (\<lambda>k. case mc_heap m ac k of
                         None \<Rightarrow> None
                       | Some e \<Rightarrow> if \<not> IsExpired now e then Some e else None))"

definition mem_ClearAgent :: "string \<Rightarrow> string \<Rightarrow> InMemoryCache \<Rightarrow> InMemoryCache" where
  "mem_ClearAgent namespace name m =
     m\<lparr>mc_agents := (mc_agents m)(agentKey namespace name := None)\<rparr>"

text \<open>
  One tick of \<open>gcLoop\<close>: the keys are collected first, in the order the runtime ranges over the
  map, and then visited one by one; a key removed in between is skipped.
\<close>

definition drop_expired :: "int \<Rightarrow> (string \<rightharpoonup> Entry) \<Rightarrow> (string \<rightharpoonup> Entry)" where
  "drop_expired now es =
     (\<lambda>field. case es field of None \<Rightarrow> None | Some e \<Rightarrow> if IsExpired now e then None else Some e)"

fun gc_tick :: "int \<Rightarrow> string list \<Rightarrow> InMemoryCache \<Rightarrow> InMemoryCache" where
  "gc_tick now [] m = m"
| "gc_tick now (k # keys) m =
     (case mc_agents m k of
        None \<Rightarrow> gc_tick now keys m
      | Some ac \<Rightarrow>
          gc_tick now keys (m\<lparr>mc_heap := (mc_heap m)(ac := drop_expired now (mc_heap m ac))\<rparr>))"

definition mem_store :: "InMemoryCache CacheStore" where
  "mem_store =
     \<lparr>cs_Set = mem_Set,
      cs_Get = (\<lambda>ns n f now m. (mem_Get ns n f now m, m)),
      cs_GetEntry = (\<lambda>ns n f now m. (mem_GetEntry ns n f now m, m)),
      cs_Delete = (\<lambda>ns n f now m. mem_Delete ns n f m),
      cs_List = (\<lambda>ns n now m. (mem_List ns n now m, m)),
      cs_ClearAgent = (\<lambda>ns n now m. mem_ClearAgent ns n m)\<rparr>"

lemma mem_store_simps [simp]:
  "cs_Set mem_store = mem_Set"
  "cs_Get mem_store ns n f now m = (mem_Get ns n f now m, m)"
  "cs_GetEntry mem_store ns n f now m = (mem_GetEntry ns n f now m, m)"
  "cs_Delete mem_store ns n f now m = mem_Delete ns n f m"
  "cs_List mem_store ns n now m = (mem_List ns n now m, m)"
  "cs_ClearAgent mem_store ns n now m = mem_ClearAgent ns n m"
  by (simp_all add: mem_store_def)

section \<open>Invariant and view\<close>

text \<open>Every pointer is allocated, and no two agents share an \<open>agentCache\<close>.\<close>

definition mc_inv :: "InMemoryCache \<Rightarrow> bool" where
  "mc_inv m \<longleftrightarrow>
     (\<forall>k p. mc_agents m k = Some p \<longrightarrow> p < mc_next m) \<and>
     (\<forall>k k' p. mc_agents m k = Some p \<and> mc_agents m k' = Some p \<longrightarrow> k = k')"

text \<open>The entry stored for a field of the agent with a given key, expired or not.\<close>

definition mc_view :: "InMemoryCache \<Rightarrow> string \<Rightarrow> (string \<rightharpoonup> Entry)" where
  "mc_view m k = (case mc_agents m k of None \<Rightarrow> Map.empty | Some p \<Rightarrow> mc_heap m p)"

definition mc_seen :: "int \<Rightarrow> InMemoryCache \<Rightarrow> string \<Rightarrow> string \<Rightarrow> string \<Rightarrow> Entry option" where
  "mc_seen now m ns n f = drop_expired now (mc_view m (agentKey ns n)) f"

lemma mc_seen_eq: "mc_seen now m ns n = drop_expired now (mc_view m (agentKey ns n))"
  by (rule ext) (simp add: mc_seen_def)

lemma mc_inv_New: "mc_inv NewInMemoryCache"
  by (simp add: mc_inv_def NewInMemoryCache_def)

lemma mc_inv_getOrCreate: "mc_inv m \<Longrightarrow> mc_inv (snd (getOrCreate ns n m))"
  unfolding mc_inv_def getOrCreate_def
  by (auto simp: Let_def less_Suc_eq split: option.splits)

lemma mc_inv_heap [simp]: "mc_inv (m\<lparr>mc_heap := h\<rparr>) = mc_inv m"
  by (simp add: mc_inv_def)

lemma mc_inv_Set: "mc_inv m \<Longrightarrow> mc_inv (mem_Set ns n f v ttl ts m)"
  using mc_inv_getOrCreate [of m ns n] by (cases "getOrCreate ns n m") (simp add: mem_Set_def)

lemma mc_inv_Delete: "mc_inv m \<Longrightarrow> mc_inv (mem_Delete ns n f m)"
  by (simp add: mem_Delete_def split: option.splits)

lemma mc_inv_ClearAgent: "mc_inv m \<Longrightarrow> mc_inv (mem_ClearAgent ns n m)"
  by (simp add: mc_inv_def mem_ClearAgent_def)

lemma mc_inv_gc_tick: "mc_inv m \<Longrightarrow> mc_inv (gc_tick now ks m)"
  by (induction now ks m rule: gc_tick.induct) (simp_all split: option.splits)

lemma view_heap_upd:
  "mc_inv m \<Longrightarrow> mc_agents m k = Some p \<Longrightarrow>
   mc_view (m\<lparr>mc_heap := (mc_heap m)(p := es)\<rparr>) = (mc_view m)(k := es)"
  by (rule ext) (auto simp: mc_inv_def mc_view_def split: option.splits)

lemma getOrCreate_spec:
  "mc_inv m \<Longrightarrow> getOrCreate ns n m = (ac, m') \<Longrightarrow>
   mc_agents m' (agentKey ns n) = Some ac \<and> mc_view m' = mc_view m"
proof (cases "mc_agents m (agentKey ns n)")
  case None
  assume inv: "mc_inv m" and g: "getOrCreate ns n m = (ac, m')"
  then have "p \<noteq> mc_next m" if "mc_agents m k = Some p" for k p
    using that by (auto simp: mc_inv_def)
  with None g show ?thesis
    by (auto simp: getOrCreate_def mc_view_def fun_eq_iff split: option.split if_splits)
next
  case (Some p)
  assume "getOrCreate ns n m = (ac, m')"
  with Some show ?thesis by (simp add: getOrCreate_def)
qed

text \<open>What each operation does to the view.\<close>

lemma view_Set:
  assumes "mc_inv m"
  shows "mc_view (mem_Set ns n f v ttl ts m) =
    (mc_view m)(agentKey ns n := (mc_view m (agentKey ns n))(f \<mapsto> mem_entry v ttl ts))"
proof -
  obtain ac m' where g: "getOrCreate ns n m = (ac, m')" by fastforce
  note spec = getOrCreate_spec [OF assms g]
  have "mc_inv m'" using mc_inv_getOrCreate [OF assms, of ns n] g by simp
  moreover have "mc_heap m' ac = mc_view m (agentKey ns n)"
    using spec by (metis mc_view_def option.case(2))
  ultimately show ?thesis
    using spec view_heap_upd [of m' "agentKey ns n" ac] by (simp add: mem_Set_def g)
qed

lemma view_Delete:
  "mc_inv m \<Longrightarrow> mc_view (mem_Delete ns n f m) =
     (mc_view m)(agentKey ns n := (mc_view m (agentKey ns n))(f := None))"
  by (cases "mc_agents m (agentKey ns n)")
     (auto simp: mem_Delete_def view_heap_upd fun_eq_iff mc_view_def)

lemma view_drop_key:
  "mc_view (m\<lparr>mc_agents := (mc_agents m)(k := None)\<rparr>) = (mc_view m)(k := Map.empty)"
  by (rule ext) (simp add: mc_view_def split: option.splits)

lemma view_ClearAgent: "mc_view (mem_ClearAgent ns n m) = (mc_view m)(agentKey ns n := Map.empty)"
  by (simp add: mem_ClearAgent_def view_drop_key)

lemma GetEntry_seen: "mem_GetEntry ns n f now m = mc_seen now m ns n f"
  by (simp add: mem_GetEntry_def mc_seen_def mc_view_def drop_expired_def split: option.splits)

lemma Get_seen: "mem_Get ns n f now m = map_option entry_Value (mc_seen now m ns n f)"
  by (simp add: mem_Get_def mc_seen_def mc_view_def drop_expired_def split: option.splits)

lemma List_seen: "mem_List ns n now m = mc_seen now m ns n"
  by (rule ext) (simp add: mem_List_def mc_seen_def mc_view_def drop_expired_def split: option.splits)

section \<open>Keys\<close>

text \<open>Distinct agents have distinct keys as long as no namespace contains a slash.\<close>

lemma agentKey_inject:
  "CHR ''/'' \<notin> set ns \<Longrightarrow> CHR ''/'' \<notin> set ns' \<Longrightarrow> agentKey ns n = agentKey ns' n' \<longleftrightarrow> ns = ns' \<and> n = n'"
  by (simp add: agentKey_def cut_at_separator)

definition slash_free :: "string \<Rightarrow> string \<Rightarrow> bool" where
  "slash_free ns n \<longleftrightarrow> CHR ''/'' \<notin> set ns"

section \<open>The contract holds\<close>

interpretation mem: listing_cache_store mem_store mc_seen id slash_free "\<lambda>_. True" mc_inv
proof (unfold_locales, goal_cases)
  case (5 c ttl t t1 t2 ns n f v)
  then show ?case
    by (auto simp: mc_seen_def view_Set drop_expired_def mem_entry_def IsExpired_def)
next
  case (6 c ttl t1 t2 t ns n f v)
  then show ?case
    by (auto simp: mc_seen_def view_Set drop_expired_def mem_entry_def IsExpired_def)
next
  case (7 c ns n ns' n' f' f t1 t v ttl t2)
  then show ?case
    by (auto simp: mc_seen_def view_Set drop_expired_def slash_free_def agentKey_inject)
next
  case (8 c t1 t ns n f)
  then show ?case by (simp add: mc_seen_def view_Delete drop_expired_def)
next
  case (9 c ns n ns' n' f' f t1 t)
  then show ?case
    by (auto simp: mc_seen_def view_Delete drop_expired_def slash_free_def agentKey_inject)
next
  case (16 c t1 t ns n f)
  then show ?case by (simp add: mc_seen_def view_ClearAgent drop_expired_def)
next
  case (17 c ns n ns' n' t1 t f)
  then show ?case
    by (auto simp: mc_seen_def view_ClearAgent slash_free_def agentKey_inject)
qed (simp_all add: GetEntry_seen Get_seen List_seen mc_inv_Set mc_inv_Delete mc_inv_ClearAgent)

section \<open>The garbage collector\<close>

lemma drop_expired_twice: "t \<le> t' \<Longrightarrow> drop_expired t' (drop_expired t es) = drop_expired t' es"
  by (rule ext) (auto simp: drop_expired_def dest: IsExpired_mono split: option.splits)

lemma view_gc_tick:
  "mc_inv m \<Longrightarrow>
   mc_view (gc_tick now ks m) = (\<lambda>k. if k \<in> set ks then drop_expired now (mc_view m k) else mc_view m k)"
proof (induction now ks m rule: gc_tick.induct)
  case (1 now m)
  then show ?case by simp
next
  case (2 now k keys m)
  show ?case
  proof (cases "mc_agents m k")
    case None
    then have "drop_expired now (mc_view m k) = mc_view m k"
      by (auto simp: mc_view_def drop_expired_def)
    with None 2 show ?thesis by (auto simp: fun_eq_iff)
  next
    case (Some ac)
    let ?m = "m\<lparr>mc_heap := (mc_heap m)(ac := drop_expired now (mc_heap m ac))\<rparr>"
    have v: "mc_view ?m = (mc_view m)(k := drop_expired now (mc_view m k))"
      using Some "2.prems" view_heap_upd [of m k ac] by (simp add: mc_view_def)
    have "mc_view (gc_tick now (k # keys) m) =
        (\<lambda>k'. if k' \<in> set keys then drop_expired now (mc_view ?m k') else mc_view ?m k')"
      using "2.IH"(2) [OF Some] "2.prems" Some by simp
    then show ?thesis
      unfolding v by (rule trans) (auto simp: fun_eq_iff drop_expired_twice)
  qed
qed

section \<open>Histories of calls\<close>

text \<open>
  A history is a list of calls with the clock readings each of them made, ticks of the collector
  among them. The specification is a plain map from an agent and a field to the last entry set:
  no pointers, no keys, no collector.
\<close>

datatype mem_op =
    OpSet string string string gval int "int \<times> int"
  | OpDelete string string string
  | OpClear string string
  | OpTick int "string list"

fun mem_apply :: "mem_op \<Rightarrow> InMemoryCache \<Rightarrow> InMemoryCache" where
  "mem_apply (OpSet ns n f v ttl ts) m = mem_Set ns n f v ttl ts m"
| "mem_apply (OpDelete ns n f) m = mem_Delete ns n f m"
| "mem_apply (OpClear ns n) m = mem_ClearAgent ns n m"
| "mem_apply (OpTick now ks) m = gc_tick now ks m"

type_synonym cache_spec = "string \<times> string \<Rightarrow> (string \<rightharpoonup> Entry)"

fun spec_apply :: "mem_op \<Rightarrow> cache_spec \<Rightarrow> cache_spec" where
  "spec_apply (OpSet ns n f v ttl ts) A = A((ns, n) := (A (ns, n))(f \<mapsto> mem_entry v ttl ts))"
| "spec_apply (OpDelete ns n f) A = A((ns, n) := (A (ns, n))(f := None))"
| "spec_apply (OpClear ns n) A = A((ns, n) := Map.empty)"
| "spec_apply (OpTick now ks) A = A"

text \<open>Namespaces without a slash, and no tick after the time \<open>t\<close> of the read.\<close>

fun op_ok :: "int \<Rightarrow> mem_op \<Rightarrow> bool" where
  "op_ok t (OpSet ns n f v ttl ts) = slash_free ns n"
| "op_ok t (OpDelete ns n f) = slash_free ns n"
| "op_ok t (OpClear ns n) = slash_free ns n"
| "op_ok t (OpTick now ks) = (now \<le> t)"

definition refines :: "int \<Rightarrow> InMemoryCache \<Rightarrow> cache_spec \<Rightarrow> bool" where
  "refines t m A \<longleftrightarrow> mc_inv m \<and>
     (\<forall>ns n. slash_free ns n \<longrightarrow>
        drop_expired t (mc_view m (agentKey ns n)) = drop_expired t (A (ns, n)))"

lemma drop_expired_upd:
  "drop_expired t es = drop_expired t es' \<Longrightarrow>
   drop_expired t (es(f := x)) = drop_expired t (es'(f := x))"
  by (auto simp: drop_expired_def fun_eq_iff)

lemma refines_step:
  assumes "refines t m A" and "op_ok t x"
  shows "refines t (mem_apply x m) (spec_apply x A)"
proof (cases x)
  case (OpTick now ks)
  with assms show ?thesis
    by (auto simp: refines_def mc_inv_gc_tick view_gc_tick drop_expired_twice)
qed (use assms in \<open>auto simp: refines_def mc_inv_Set mc_inv_Delete mc_inv_ClearAgent view_Set
       view_Delete view_ClearAgent slash_free_def agentKey_inject intro: drop_expired_upd\<close>)

lemma refines_run:
  "refines t m A \<Longrightarrow> list_all (op_ok t) xs \<Longrightarrow> refines t (fold mem_apply xs m) (fold spec_apply xs A)"
  by (induction xs arbitrary: m A) (simp_all add: refines_step)

lemma refines_New: "refines t NewInMemoryCache (\<lambda>_. Map.empty)"
  by (simp add: refines_def mc_inv_New) (simp add: mc_view_def NewInMemoryCache_def)

section \<open>Properties\<close>

text \<open>
  C9. After any history of calls and collector ticks on a new in-memory cache, \<open>GetEntry\<close> and
  \<open>List\<close> return exactly what the plain map of the last entries set says, less the expired ones:
  each agent has a namespace of its own, and pointers, keys and the collector are invisible.
\<close>

theorem mem_cache_refines_map:
  assumes "list_all (op_ok t) xs" and "slash_free ns n"
  shows "mem_GetEntry ns n f t (fold mem_apply xs NewInMemoryCache) =
           drop_expired t (fold spec_apply xs (\<lambda>_. Map.empty) (ns, n)) f \<and>
         mem_List ns n t (fold mem_apply xs NewInMemoryCache) =
           drop_expired t (fold spec_apply xs (\<lambda>_. Map.empty) (ns, n))"
  using refines_run [OF refines_New assms(1)] assms(2)
  by (simp add: refines_def GetEntry_seen List_seen mc_seen_eq)

theorem mem_cache_refines_map_witness:
  "mem_GetEntry ''default'' ''a'' ''f'' 20
     (fold mem_apply
        [OpSet ''default'' ''a'' ''f'' (VInt64 7) 0 (1, 1), OpSet ''default'' ''b'' ''f'' VNil 5 (2, 2),
         OpTick 15 [''default/a'', ''default/b'']] NewInMemoryCache) =
     Some (mem_entry (VInt64 7) 0 (1, 1))"
proof -
  let ?xs = "[OpSet ''default'' ''a'' ''f'' (VInt64 7) 0 (1, 1),
     OpSet ''default'' ''b'' ''f'' VNil 5 (2, 2), OpTick 15 [''default/a'', ''default/b'']]"
  have "list_all (op_ok 20) ?xs" and "slash_free ''default'' ''a''"
    by (simp_all add: slash_free_def)
  from mem_cache_refines_map [OF this, of "''f''"] show ?thesis
    by (simp add: drop_expired_def mem_entry_def IsExpired_def)
qed

text \<open>
  \<open>Set\<close> followed by \<open>GetEntry\<close>, exactly: the entry just stored until its TTL has passed, nothing
  after that, no expiry without a positive TTL, and every other field of every agent unchanged.
\<close>

lemma mem_set_get:
  assumes "mc_inv m" and "slash_free ns n" and "slash_free ns' n'"
  shows "mem_GetEntry ns' n' f' t (mem_Set ns n f v ttl (t1, t2) m) =
    (if (ns', n', f') = (ns, n, f)
     then if 0 < ttl \<and> t2 + ttl < t then None else Some (mem_entry v ttl (t1, t2))
     else mem_GetEntry ns' n' f' t m)"
  using assms
  by (auto simp: GetEntry_seen mc_seen_def view_Set drop_expired_def mem_entry_def IsExpired_def
      slash_free_def agentKey_inject)

lemma mem_set_get_example:
  "mem_GetEntry ''ns'' ''a'' ''f'' 9 (mem_Set ''ns'' ''a'' ''f'' (VBool True) 5 (3, 3) NewInMemoryCache) = None \<and>
   mem_GetEntry ''ns'' ''a'' ''f'' 8 (mem_Set ''ns'' ''a'' ''f'' (VBool True) 5 (3, 3) NewInMemoryCache) =
     Some (mem_entry (VBool True) 5 (3, 3))"
proof -
  have "slash_free ''ns'' ''a''" by (simp add: slash_free_def)
  note mem_set_get [OF mc_inv_New this this, of "''f''" _ "''f''" "VBool True" 5 3 3]
  then show ?thesis by simp
qed

text \<open>
  One tick of the collector is invisible to every later read, and it leaves no expired entry
  stored under a key it visited.
\<close>

lemma mem_gc_invisible:
  assumes "mc_inv m" and "now \<le> t"
  shows "mem_GetEntry ns n f t (gc_tick now ks m) = mem_GetEntry ns n f t m \<and>
         mem_List ns n t (gc_tick now ks m) = mem_List ns n t m \<and>
         (k \<in> set ks \<longrightarrow> (\<forall>f e. mc_view (gc_tick now ks m) k f = Some e \<longrightarrow> \<not> IsExpired now e))"
  using assms
  by (auto simp: GetEntry_seen List_seen mc_seen_def view_gc_tick drop_expired_twice)
     (auto simp: drop_expired_def split: option.splits if_splits)

lemma mem_gc_invisible_example:
  "mem_GetEntry ''ns'' ''a'' ''f'' 9
     (gc_tick 9 [''ns/a''] (mem_Set ''ns'' ''a'' ''f'' VNil 5 (3, 3) NewInMemoryCache)) =
   mem_GetEntry ''ns'' ''a'' ''f'' 9 (mem_Set ''ns'' ''a'' ''f'' VNil 5 (3, 3) NewInMemoryCache)"
proof -
  have "mc_inv (mem_Set ''ns'' ''a'' ''f'' VNil 5 (3, 3) NewInMemoryCache)"
    by (rule mc_inv_Set) (rule mc_inv_New)
  from mem_gc_invisible [OF this, of 9 9] show ?thesis by blast
qed

end
