(* ===== verification/Cache_Concurrency.thy ===== *)
theory Cache_Concurrency
  imports Mem_Cache
begin

text \<open>
  The locking of \<open>InMemoryCache\<close>: goroutines that run \<open>Set\<close>, \<open>Delete\<close> and the collector's visits
  at the same time as \<open>ClearAgent\<close>. Each region between a \<open>Lock\<close> (or \<open>RLock\<close>) and its unlock is
  one atomic step, so a call is several steps with other goroutines in between: \<open>getOrCreate\<close>
  first looks the agent up under the read lock, then, on a miss, looks again under the write lock
  before it creates, and only then is the entry written under the object's own lock. A pointer can
  therefore be stale by the time it is written through.
\<close>

section \<open>Goroutines and steps\<close>

text \<open>What a goroutine does to the fields of the agent once it holds the object's lock.\<close>

datatype job = JSet string Entry | JDelete string | JCollect int

fun job_effect :: "job \<Rightarrow> (string \<rightharpoonup> Entry) \<Rightarrow> (string \<rightharpoonup> Entry)" where
  "job_effect (JSet f e) es = es(f \<mapsto> e)"
| "job_effect (JDelete f) es = es(f := None)"
| "job_effect (JCollect now) es = drop_expired now es"

fun creates :: "job \<Rightarrow> bool" where
  "creates (JSet f e) = True"
| "creates _ = False"

datatype pc =
    Idle
  | Lookup string job      \<comment> \<open>about to take the read lock of the cache\<close>
  | Create string job      \<comment> \<open>missed; about to take the write lock\<close>
  | Write string nat job   \<comment> \<open>holds a pointer; about to take the object's lock\<close>
  | Finished string job

text \<open>
  \<open>cc_raced i\<close> is a ghost: goroutine \<open>i\<close> held a pointer when its agent was cleared. A label says what
  a step did: nothing yet, the write of goroutine \<open>i\<close> (and whether it raced), or a clear.
\<close>

record conc =
  cc_mem :: InMemoryCache
  cc_pc :: "nat \<Rightarrow> pc"
  cc_raced :: "nat \<Rightarrow> bool"

datatype label = Tau | Commit string job bool | Cleared string

definition conc_init :: conc where
  "conc_init = \<lparr>cc_mem = NewInMemoryCache, cc_pc = (\<lambda>_. Idle), cc_raced = (\<lambda>_. False)\<rparr>"

text \<open>The creation in \<open>getOrCreate\<close>: a new object, empty, under the key.\<close>

definition new_object :: "string \<Rightarrow> InMemoryCache \<Rightarrow> InMemoryCache" where
  "new_object k m = m\<lparr>mc_agents := (mc_agents m)(k \<mapsto> mc_next m),
     mc_heap := (mc_heap m)(mc_next m := Map.empty), mc_next := Suc (mc_next m)\<rparr>"

definition goto :: "nat \<Rightarrow> pc \<Rightarrow> conc \<Rightarrow> conc" where
  "goto i p s = s\<lparr>cc_pc := (cc_pc s)(i := p)\<rparr>"

inductive cstep :: "conc \<Rightarrow> label \<Rightarrow> conc \<Rightarrow> bool" where
  start_step: "cc_pc s i = Idle \<Longrightarrow> cstep s Tau (goto i (Lookup k j) s)"
| lookup_hit_step: "cc_pc s i = Lookup k j \<Longrightarrow> mc_agents (cc_mem s) k = Some ac \<Longrightarrow>
    cstep s Tau (goto i (Write k ac j) s)"
| lookup_miss_step: "cc_pc s i = Lookup k j \<Longrightarrow> mc_agents (cc_mem s) k = None \<Longrightarrow>
    cstep s Tau (goto i (if creates j then Create k j else Finished k j) s)"
| create_hit_step: "cc_pc s i = Create k j \<Longrightarrow> mc_agents (cc_mem s) k = Some ac \<Longrightarrow>
    cstep s Tau (goto i (Write k ac j) s)"
| create_new_step: "cc_pc s i = Create k j \<Longrightarrow> mc_agents (cc_mem s) k = None \<Longrightarrow> m = cc_mem s \<Longrightarrow>
    cstep s Tau (goto i (Write k (mc_next m) j) (s\<lparr>cc_mem :=
      new_object k m\<rparr>))"
| write_step: "cc_pc s i = Write k ac j \<Longrightarrow> m = cc_mem s \<Longrightarrow>
    cstep s (Commit k j (cc_raced s i)) (goto i (Finished k j) (s\<lparr>cc_mem :=
      m\<lparr>mc_heap := (mc_heap m)(ac := job_effect j (mc_heap m ac))\<rparr>\<rparr>))"
| clear_step: "m = cc_mem s \<Longrightarrow>
    cstep s (Cleared k) (s\<lparr>cc_mem := m\<lparr>mc_agents := (mc_agents m)(k := None)\<rparr>,
      cc_raced := (\<lambda>i. cc_raced s i \<or> (\<exists>ac j. cc_pc s i = Write k ac j))\<rparr>)"

inductive crun :: "label list \<Rightarrow> conc \<Rightarrow> bool" where
  crun_init: "crun [] conc_init"
| crun_step: "crun ls s \<Longrightarrow> cstep s l s' \<Longrightarrow> crun (ls @ [l]) s'"

inductive_cases cstep_Cleared [elim!]: "cstep s (Cleared k) s'"

lemma goto_simps [simp]:
  "cc_mem (goto i p s) = cc_mem s"
  "cc_raced (goto i p s) = cc_raced s"
  "cc_pc (goto i p s) = (cc_pc s)(i := p)"
  by (simp_all add: goto_def)

section \<open>The invariant\<close>

text \<open>
  A held pointer is allocated, belongs to no other agent, and is the agent's current one unless
  the agent was cleared since; a goroutine that holds no pointer has not raced.
\<close>

fun tinv :: "InMemoryCache \<Rightarrow> bool \<Rightarrow> pc \<Rightarrow> bool" where
  "tinv m raced (Write k ac j) =
     (ac < mc_next m \<and> (\<forall>k'. mc_agents m k' = Some ac \<longrightarrow> k' = k) \<and>
      (raced \<longleftrightarrow> mc_agents m k \<noteq> Some ac))"
| "tinv m raced (Finished k j) = True"
| "tinv m raced _ = (\<not> raced)"

definition cinv :: "conc \<Rightarrow> bool" where
  "cinv s \<longleftrightarrow> mc_inv (cc_mem s) \<and> (\<forall>i. tinv (cc_mem s) (cc_raced s i) (cc_pc s i))"

lemma tinv_heap [simp]: "tinv (m\<lparr>mc_heap := h\<rparr>) raced p = tinv m raced p"
  by (cases p) simp_all

lemma tinv_new: "mc_agents m k = None \<Longrightarrow> tinv m raced p \<Longrightarrow> tinv (new_object k m) raced p"
  by (cases p) (auto simp: new_object_def)

lemma tinv_new_self: "mc_inv m \<Longrightarrow> tinv (new_object k m) False (Write k (mc_next m) j)"
  by (auto simp: mc_inv_def new_object_def)

lemma tinv_hit: "mc_inv m \<Longrightarrow> mc_agents m k = Some ac \<Longrightarrow> tinv m False (Write k ac j)"
  by (auto simp: mc_inv_def)

lemma tinv_clear:
  "tinv m raced p \<Longrightarrow>
   tinv (m\<lparr>mc_agents := (mc_agents m)(k := None)\<rparr>) (raced \<or> (\<exists>ac j. p = Write k ac j)) p"
proof (cases p)
  case (Write k' ac j)
  assume "tinv m raced p"
  with Write show ?thesis by (cases "k' = k") simp_all
qed simp_all

lemma mc_inv_new: "mc_inv m \<Longrightarrow> mc_agents m k = None \<Longrightarrow> mc_inv (new_object k m)"
  by (auto simp: mc_inv_def new_object_def less_Suc_eq)

lemma cinv_init: "cinv conc_init"
  by (simp add: cinv_def conc_init_def mc_inv_New)

lemma cinv_Write:
  "cinv s \<Longrightarrow> cc_pc s i = Write k ac j \<Longrightarrow> ac < mc_next (cc_mem s) \<and>
     (\<forall>k'. mc_agents (cc_mem s) k' = Some ac \<longrightarrow> k' = k) \<and>
     (cc_raced s i \<longleftrightarrow> mc_agents (cc_mem s) k \<noteq> Some ac)"
proof -
  assume inv: "cinv s" and pc: "cc_pc s i = Write k ac j"
  from inv have "tinv (cc_mem s) (cc_raced s i) (cc_pc s i)" by (simp add: cinv_def)
  with pc show ?thesis by simp
qed

lemma cinv_goto:
  "cinv s \<Longrightarrow> tinv (cc_mem s) (cc_raced s i) p \<Longrightarrow> cinv (goto i p s)"
  by (simp add: cinv_def)

lemma not_raced:
  "cinv s \<Longrightarrow> cc_pc s i = p \<Longrightarrow> (\<And>k ac j. p \<noteq> Write k ac j) \<Longrightarrow> (\<And>k j. p \<noteq> Finished k j) \<Longrightarrow>
   \<not> cc_raced s i"
  by (cases p) (auto simp: cinv_def dest: spec [of _ i])

lemma cinv_step: "cstep s l s' \<Longrightarrow> cinv s \<Longrightarrow> cinv s'"
proof (induction rule: cstep.induct)
  case (start_step s i k j)
  then show ?case using not_raced by (auto intro: cinv_goto)
next
  case (lookup_hit_step s i k j ac)
  then have "\<not> cc_raced s i" using not_raced by blast
  with lookup_hit_step tinv_hit show ?case by (auto simp: cinv_def)
next
  case (lookup_miss_step s i k j)
  then have "\<not> cc_raced s i" using not_raced by blast
  with lookup_miss_step show ?case by (auto simp: cinv_def)
next
  case (create_hit_step s i k j ac)
  then have "\<not> cc_raced s i" using not_raced by blast
  with create_hit_step tinv_hit show ?case by (auto simp: cinv_def)
next
  case (create_new_step s i k j m)
  then have "\<not> cc_raced s i" using not_raced by blast
  with create_new_step show ?case
    by (auto simp: cinv_def tinv_new tinv_new_self mc_inv_new simp del: tinv.simps)
next
  case (write_step s i k ac j m)
  then show ?case by (auto simp: cinv_def)
next
  case (clear_step m s k)
  then show ?case by (auto simp: cinv_def tinv_clear) (simp add: mc_inv_def)
qed

lemma cinv_run: "crun ls s \<Longrightarrow> cinv s"
  by (induction rule: crun.induct) (auto intro: cinv_init cinv_step)

section \<open>Linearization\<close>

text \<open>
  The sequential reading of a label: a write that did not race takes effect at once, a clear
  empties the agent, and a write that raced does nothing (it stands before the clear it raced with).
\<close>

fun lin :: "label \<Rightarrow> (string \<Rightarrow> (string \<rightharpoonup> Entry)) \<Rightarrow> (string \<Rightarrow> (string \<rightharpoonup> Entry))" where
  "lin Tau A = A"
| "lin (Commit k j raced) A = (if raced then A else A(k := job_effect j (A k)))"
| "lin (Cleared k) A = A(k := Map.empty)"

lemma view_new_object:
  "mc_inv m \<Longrightarrow> mc_agents m k = None \<Longrightarrow>
   mc_view (new_object k m) = mc_view m"
  by (rule ext) (auto simp: mc_view_def mc_inv_def new_object_def split: option.split)

lemma view_stale_write:
  "(\<forall>k. mc_agents m k \<noteq> Some ac) \<Longrightarrow> mc_view (m\<lparr>mc_heap := (mc_heap m)(ac := es)\<rparr>) = mc_view m"
  by (rule ext) (auto simp: mc_view_def split: option.split)

lemma cstep_lin: "cstep s l s' \<Longrightarrow> cinv s \<Longrightarrow> mc_view (cc_mem s') = lin l (mc_view (cc_mem s))"
proof (induction rule: cstep.induct)
  case (create_new_step s i k j m)
  then show ?case by (simp add: view_new_object cinv_def)
next
  case (write_step s i k ac j m)
  then have inv: "mc_inv m" "\<forall>k'. mc_agents m k' = Some ac \<longrightarrow> k' = k"
      "cc_raced s i \<longleftrightarrow> mc_agents m k \<noteq> Some ac"
    using cinv_Write [of s i k ac j] by (auto simp: cinv_def)
  show ?case
  proof (cases "cc_raced s i")
    case True
    with inv have "\<forall>k'. mc_agents m k' \<noteq> Some ac" by blast
    with True write_step show ?thesis by (simp add: view_stale_write)
  next
    case False
    with inv have ac: "mc_agents m k = Some ac" by blast
    then have "mc_view m k = mc_heap m ac" by (simp add: mc_view_def)
    with view_heap_upd [OF inv(1) ac] False write_step.hyps show ?thesis by simp
  qed
next
  case (clear_step m s k)
  then show ?case by (simp add: view_drop_key)
qed simp_all

lemma crun_lin: "crun ls s \<Longrightarrow> mc_view (cc_mem s) = fold lin ls (\<lambda>_. Map.empty)"
proof (induction rule: crun.induct)
  case crun_init
  show ?case by (simp add: conc_init_def mc_view_def NewInMemoryCache_def)
next
  case (crun_step ls s l s')
  then show ?case using cstep_lin [OF crun_step.hyps(2)] cinv_run by simp
qed

text \<open>Only a clear of the same agent makes a goroutine race.\<close>

lemma raced_step:
  "cstep s l s' \<Longrightarrow> cinv s \<Longrightarrow> cc_pc s' i = Write k ac j \<Longrightarrow> cc_raced s' i \<Longrightarrow>
   (cc_pc s i = Write k ac j \<and> cc_raced s i) \<or> l = Cleared k"
proof (induction rule: cstep.induct)
  case (start_step s i' k' j')
  then show ?case using not_raced [of s i'] by (auto split: if_splits)
next
  case (lookup_hit_step s i' k' j' ac')
  then show ?case using not_raced [of s i'] by (auto split: if_splits)
next
  case (lookup_miss_step s i' k' j')
  then show ?case using not_raced [of s i'] by (auto split: if_splits)
next
  case (create_hit_step s i' k' j' ac')
  then show ?case using not_raced [of s i'] by (auto split: if_splits)
next
  case (create_new_step s i' k' j' m)
  then show ?case using not_raced [of s i'] by (auto split: if_splits)
next
  case (write_step s i' k' ac' j' m)
  then show ?case by (auto split: if_splits)
next
  case (clear_step m s k')
  then show ?case by auto
qed

lemma raced_cleared:
  "crun ls s \<Longrightarrow> cc_pc s i = Write k ac j \<Longrightarrow> cc_raced s i \<Longrightarrow> Cleared k \<in> set ls"
proof (induction arbitrary: i k ac j rule: crun.induct)
  case crun_init
  then show ?case by (simp add: conc_init_def)
next
  case (crun_step ls s l s')
  then show ?case using raced_step [OF crun_step.hyps(2) cinv_run [OF crun_step.hyps(1)]] by fastforce
qed

lemma raced_commit:
  "crun ls s \<Longrightarrow> Commit k j True \<in> set ls \<Longrightarrow> Cleared k \<in> set ls"
proof (induction rule: crun.induct)
  case crun_init
  then show ?case by simp
next
  case (crun_step ls s l s')
  show ?case
  proof (cases "l = Commit k j True")
    case True
    with crun_step.hyps(2) obtain i ac where "cc_pc s i = Write k ac j" "cc_raced s i"
      by (auto elim: cstep.cases)
    from raced_cleared [OF crun_step.hyps(1) this] show ?thesis by simp
  next
    case False
    with crun_step show ?thesis by auto
  qed
qed

text \<open>A goroutine that runs alone does what the sequential \<open>Set\<close> does.\<close>

lemma solo_set:
  assumes pc: "cc_pc s i = Lookup (agentKey ns n) (JSet f (mem_entry v ttl ts))"
  shows "\<exists>s1 s2 l s3. cstep s Tau s1 \<and> (s2 = s1 \<or> cstep s1 Tau s2) \<and> cstep s2 l s3 \<and>
           cc_mem s3 = mem_Set ns n f v ttl ts (cc_mem s)"
proof (cases "mc_agents (cc_mem s) (agentKey ns n)")
  case (Some ac)
  let ?k = "agentKey ns n" and ?j = "JSet f (mem_entry v ttl ts)"
  let ?s1 = "goto i (Write ?k ac ?j) s"
  let ?s3 = "goto i (Finished ?k ?j) (?s1\<lparr>cc_mem := (cc_mem s)
    \<lparr>mc_heap := (mc_heap (cc_mem s))(ac := job_effect ?j (mc_heap (cc_mem s) ac))\<rparr>\<rparr>)"
  have "cstep s Tau ?s1" using pc Some by (rule cstep.lookup_hit_step)
  moreover have "cstep ?s1 (Commit ?k ?j (cc_raced ?s1 i)) ?s3"
    by (rule cstep.write_step) simp_all
  moreover have "cc_mem ?s3 = mem_Set ns n f v ttl ts (cc_mem s)"
    using Some by (simp add: mem_Set_def getOrCreate_def)
  ultimately show ?thesis by blast
next
  case None
  let ?k = "agentKey ns n" and ?j = "JSet f (mem_entry v ttl ts)" and ?m = "cc_mem s"
  let ?s1 = "goto i (Create ?k ?j) s"
  let ?s2 = "goto i (Write ?k (mc_next ?m) ?j) (?s1\<lparr>cc_mem := new_object ?k ?m\<rparr>)"
  let ?s3 = "goto i (Finished ?k ?j) (?s2\<lparr>cc_mem := (new_object ?k ?m)
    \<lparr>mc_heap := (mc_heap (new_object ?k ?m))
      (mc_next ?m := job_effect ?j (mc_heap (new_object ?k ?m) (mc_next ?m)))\<rparr>\<rparr>)"
  have "cstep s Tau ?s1" using cstep.lookup_miss_step [OF pc None] by simp
  moreover have "cstep ?s1 Tau ?s2"
    using None by (intro cstep.create_new_step) simp_all
  moreover have "cstep ?s2 (Commit ?k ?j (cc_raced ?s2 i)) ?s3"
    by (rule cstep.write_step) simp_all
  moreover have "cc_mem ?s3 = mem_Set ns n f v ttl ts ?m"
    using None by (simp add: mem_Set_def getOrCreate_def new_object_def)
  ultimately show ?thesis by blast
qed

section \<open>Properties\<close>

text \<open>The jobs committed for an agent, in order.\<close>

fun commits :: "string \<Rightarrow> label list \<Rightarrow> job list" where
  "commits k [] = []"
| "commits k (Commit k' j raced # ls) = (if k' = k then j # commits k ls else commits k ls)"
| "commits k (_ # ls) = commits k ls"

lemma fold_lin_commits:
  "(\<forall>j. Commit k j True \<notin> set ls) \<Longrightarrow> Cleared k \<notin> set ls \<Longrightarrow>
   fold lin ls A k = fold job_effect (commits k ls) (A k)"
  by (induction k ls arbitrary: A rule: commits.induct) auto

text \<open>
  C10. Every interleaving of concurrent \<open>Set\<close>, \<open>Delete\<close>, collector visits and \<open>ClearAgent\<close> is
  equivalent to running the calls one after the other, at the instants their labels stand: what
  readers see is the fold of the labels' effects. Only a write whose agent was cleared while the
  goroutine held its pointer is dropped, as if it had run just before that clear.
\<close>

theorem mem_cache_linearizable:
  assumes "crun ls s"
  shows "mc_view (cc_mem s) = fold lin ls (\<lambda>_. Map.empty) \<and>
         (\<forall>k j. Commit k j True \<in> set ls \<longrightarrow> Cleared k \<in> set ls)"
  using crun_lin [OF assms] raced_commit [OF assms] by blast

text \<open>
  No update is lost: as long as an agent is not cleared, its fields hold the effect of every
  committed call in order, even when several goroutines create the agent's cache at the same
  time. This is what the second look-up in \<open>getOrCreate\<close> is for.
\<close>

lemma mem_cache_no_lost_update:
  assumes "crun ls s" and "Cleared k \<notin> set ls"
  shows "mc_view (cc_mem s) k = fold job_effect (commits k ls) Map.empty"
  using crun_lin [OF assms(1)] raced_commit [OF assms(1)] assms(2) fold_lin_commits [of k ls]
  by metis

text \<open>Two goroutines miss the same agent, both go on to create it, and both entries survive.\<close>

definition race_labels :: "label list" where
  "race_labels = [Tau, Tau, Tau, Tau, Tau, Tau,
     Commit ''d/a'' (JSet ''x'' (mem_entry (VInt64 1) 0 (0, 0))) False,
     Commit ''d/a'' (JSet ''y'' (mem_entry (VInt64 2) 0 (0, 0))) False]"

lemma race_run: "\<exists>s. crun race_labels s"
proof -
  let ?k = "''d/a''" and ?x = "JSet ''x'' (mem_entry (VInt64 1) 0 (0, 0))"
    and ?y = "JSet ''y'' (mem_entry (VInt64 2) 0 (0, 0))" and ?m = "NewInMemoryCache"
  let ?s1 = "goto 0 (Lookup ?k ?x) conc_init"
  let ?s2 = "goto 1 (Lookup ?k ?y) ?s1"
  let ?s3 = "goto 0 (Create ?k ?x) ?s2"
  let ?s4 = "goto 1 (Create ?k ?y) ?s3"
  let ?s5 = "goto 0 (Write ?k 0 ?x) (?s4\<lparr>cc_mem := new_object ?k ?m\<rparr>)"
  let ?s6 = "goto 1 (Write ?k 0 ?y) ?s5"
  have i: "cc_mem conc_init = ?m" "cc_pc conc_init i = Idle" "\<not> cc_raced conc_init i" for i
    by (simp_all add: conc_init_def)
  have m: "mc_agents ?m ?k = None" "mc_next ?m = 0" by (simp_all add: NewInMemoryCache_def)
  have "crun [] conc_init" by (rule crun_init)
  from crun_step [OF this cstep.start_step [of _ 0 ?k ?x]] have "crun [Tau] ?s1" by (simp add: i)
  from crun_step [OF this cstep.start_step [of _ 1 ?k ?y]] have "crun [Tau, Tau] ?s2" by (simp add: i)
  from crun_step [OF this cstep.lookup_miss_step [of _ 0 ?k ?x]]
  have "crun [Tau, Tau, Tau] ?s3" by (simp add: i m)
  from crun_step [OF this cstep.lookup_miss_step [of _ 1 ?k ?y]]
  have "crun [Tau, Tau, Tau, Tau] ?s4" by (simp add: i m)
  from crun_step [OF this cstep.create_new_step [of _ 0 ?k ?x ?m]]
  have "crun [Tau, Tau, Tau, Tau, Tau] ?s5" by (simp add: i m)
  from crun_step [OF this cstep.create_hit_step [of _ 1 ?k ?y 0]]
  have 6: "crun [Tau, Tau, Tau, Tau, Tau, Tau] ?s6" by (simp add: m new_object_def)
  have "cc_pc ?s6 0 = Write ?k 0 ?x" "\<not> cc_raced ?s6 0" by (simp_all add: i)
  from crun_step [OF 6 cstep.write_step [OF this(1) refl]] this(2) obtain s7
    where 7: "crun [Tau, Tau, Tau, Tau, Tau, Tau, Commit ?k ?x False] s7"
      and "cc_pc s7 1 = Write ?k 0 ?y" "\<not> cc_raced s7 1"
    by (fastforce simp: i)
  from crun_step [OF 7 cstep.write_step [OF this(2) refl]] this(3)
  have "\<exists>s. crun (([Tau, Tau, Tau, Tau, Tau, Tau, Commit ?k ?x False]) @ [Commit ?k ?y False]) s"
    by auto
  then show ?thesis by (simp add: race_labels_def)
qed

theorem mem_cache_linearizable_witness:
  "\<exists>s. crun race_labels s \<and> mc_view (cc_mem s) = fold lin race_labels (\<lambda>_. Map.empty)"
  using race_run mem_cache_linearizable by blast

lemma mem_cache_no_lost_update_example:
  "\<exists>s. crun race_labels s \<and>
     mc_view (cc_mem s) ''d/a'' =
       [''x'' \<mapsto> mem_entry (VInt64 1) 0 (0, 0), ''y'' \<mapsto> mem_entry (VInt64 2) 0 (0, 0)]"
proof -
  obtain s where s: "crun race_labels s" using race_run by blast
  have "Cleared ''d/a'' \<notin> set race_labels" by (simp add: race_labels_def)
  from mem_cache_no_lost_update [OF s this] s show ?thesis by (auto simp: race_labels_def)
qed

end
