(* ===== verification/Agent_Types.thy ===== *)
theory Agent_Types
  imports Go_Prelude
begin

text \<open>
  The data of the program: the Agent custom resource of \<open>api/v1alpha1/agent_types.go\<close>, the
  lifecycle events of its history, and the parts of the Kubernetes types (\<open>ObjectMeta\<close>, \<open>EnvVar\<close>,
  \<open>Pod\<close>, \<open>Service\<close>) whose fields the program reads or writes. A field is named after its Go
  field, with the record's name before it.

  Where the program only moves a value of a Kubernetes type about (a resource list, a volume, the
  source of an environment variable) the value is a \<open>k8s_value\<close>, a token the model never looks
  into. The string types of the API (\<open>AgentPhase\<close>, \<open>PodPhase\<close>, \<open>Protocol\<close> and so on) stay strings,
  as in Go: an object read from the server can hold any string there.
\<close>

section \<open>Values the program only passes on\<close>

datatype k8s_value = K8sValue string

section \<open>Kubernetes types\<close>

record ObjectMeta =
  meta_Name :: string
  meta_GenerateName :: string
  meta_Namespace :: string
  meta_UID :: string
  meta_Generation :: int
  meta_Labels :: gomap
  meta_Annotations :: gomap
  meta_Finalizers :: "string list"
  meta_DeletionTimestamp :: "int option"
  meta_Owner :: "string option" \<comment> \<open>the UID of the controlling owner reference\<close>

definition empty_meta :: ObjectMeta where
  "empty_meta = \<lparr>meta_Name = '''', meta_GenerateName = '''', meta_Namespace = '''', meta_UID = '''',
     meta_Generation = 0, meta_Labels = None, meta_Annotations = None, meta_Finalizers = [],
     meta_DeletionTimestamp = None, meta_Owner = None\<rparr>"

record EnvVar =
  env_Name :: string
  env_Value :: string
  env_ValueFrom :: "k8s_value option"

record Container =
  ctr_Name :: string
  ctr_Image :: string
  ctr_ImagePullPolicy :: string
  ctr_Env :: "EnvVar slice"
  ctr_EnvFrom :: "k8s_value slice"
  ctr_Resources :: k8s_value
  ctr_Command :: "string slice"
  ctr_Args :: "string slice"
  ctr_VolumeMounts :: "k8s_value slice"

record Pod =
  pod_Meta :: ObjectMeta
  pod_Containers :: "Container list"
  pod_RestartPolicy :: string
  pod_ServiceAccountName :: string
  pod_ImagePullSecrets :: "k8s_value slice"
  pod_Volumes :: "k8s_value slice"
  pod_Phase :: string

record ServicePort =
  port_Name :: string
  port_Protocol :: string
  port_Port :: int
  port_TargetPort :: int

record Service =
  svc_Meta :: ObjectMeta
  svc_Type :: string
  svc_Selector :: gomap
  svc_Ports :: "ServicePort list"

section \<open>The Agent resource\<close>

abbreviation AgentPhasePending :: string where "AgentPhasePending \<equiv> ''Pending''"
abbreviation AgentPhaseRunning :: string where "AgentPhaseRunning \<equiv> ''Running''"
abbreviation AgentPhaseFailed :: string where "AgentPhaseFailed \<equiv> ''Failed''"
abbreviation AgentPhaseStopped :: string where "AgentPhaseStopped \<equiv> ''Stopped''"
abbreviation AgentPhaseUpdating :: string where "AgentPhaseUpdating \<equiv> ''Updating''"
abbreviation AgentPhaseRestoring :: string where "AgentPhaseRestoring \<equiv> ''Restoring''"

record AgentSpec =
  spec_Image :: string
  spec_ImagePullPolicy :: string
  spec_ImagePullSecrets :: "k8s_value slice"
  spec_Env :: "EnvVar slice"
  spec_EnvFrom :: "k8s_value slice"
  spec_Resources :: k8s_value
  spec_ServiceAccountName :: string
  spec_Command :: "string slice"
  spec_Args :: "string slice"
  spec_Volumes :: "k8s_value slice"
  spec_VolumeMounts :: "k8s_value slice"
  spec_RestartPolicy :: string
  spec_PodLabels :: gomap
  spec_PodAnnotations :: gomap
  spec_Paused :: bool
  spec_SelfHealingDisabled :: bool
  spec_ServicePort :: int
  spec_ServiceProtocol :: string
  spec_IdleTimeout :: int

record LifecycleEvent =
  event_Time :: int
  event_Reason :: string
  event_Type :: string
  event_Message :: string

record AgentCondition =
  cond_Type :: string
  cond_Status :: string
  cond_LastTransitionTime :: int
  cond_Reason :: string
  cond_Message :: string

abbreviation AgentConditionReady :: string where "AgentConditionReady \<equiv> ''Ready''"
abbreviation AgentConditionSynced :: string where "AgentConditionSynced \<equiv> ''Synced''"
abbreviation AgentConditionFailed :: string where "AgentConditionFailed \<equiv> ''Failed''"

record AgentStatus =
  status_Phase :: string
  status_PodName :: string
  status_PodIP :: string
  status_Message :: string
  status_ObservedGeneration :: int
  status_LastUpdated :: "int option"
  status_Conditions :: "AgentCondition list"
  status_RestoredAt :: "int option"
  status_RestoredFrom :: string
  status_ServiceName :: string

record Agent =
  agent_Meta :: ObjectMeta
  agent_Spec :: AgentSpec
  agent_Status :: AgentStatus

text \<open>The zero values Go gives to the fields a struct literal leaves out.\<close>

definition empty_spec :: AgentSpec where
  "empty_spec = \<lparr>spec_Image = '''', spec_ImagePullPolicy = '''', spec_ImagePullSecrets = None,
     spec_Env = None, spec_EnvFrom = None, spec_Resources = K8sValue '''',
     spec_ServiceAccountName = '''', spec_Command = None, spec_Args = None, spec_Volumes = None,
     spec_VolumeMounts = None, spec_RestartPolicy = '''', spec_PodLabels = None,
     spec_PodAnnotations = None, spec_Paused = False, spec_SelfHealingDisabled = False,
     spec_ServicePort = 0, spec_ServiceProtocol = '''', spec_IdleTimeout = 0\<rparr>"

definition empty_status :: AgentStatus where
  "empty_status = \<lparr>status_Phase = '''', status_PodName = '''', status_PodIP = '''',
     status_Message = '''', status_ObservedGeneration = 0, status_LastUpdated = None,
     status_Conditions = [], status_RestoredAt = None, status_RestoredFrom = '''',
     status_ServiceName = ''''\<rparr>"

text \<open>Short names for the promoted fields of the embedded \<open>ObjectMeta\<close>.\<close>

abbreviation agent_Name :: "Agent \<Rightarrow> string" where "agent_Name a \<equiv> meta_Name (agent_Meta a)"
abbreviation agent_Namespace :: "Agent \<Rightarrow> string" where
  "agent_Namespace a \<equiv> meta_Namespace (agent_Meta a)"
abbreviation agent_Annotations :: "Agent \<Rightarrow> gomap" where
  "agent_Annotations a \<equiv> meta_Annotations (agent_Meta a)"
abbreviation agent_Generation :: "Agent \<Rightarrow> int" where
  "agent_Generation a \<equiv> meta_Generation (agent_Meta a)"
abbreviation pod_Name :: "Pod \<Rightarrow> string" where "pod_Name p \<equiv> meta_Name (pod_Meta p)"
abbreviation pod_Labels :: "Pod \<Rightarrow> gomap" where "pod_Labels p \<equiv> meta_Labels (pod_Meta p)"
abbreviation pod_Annotations :: "Pod \<Rightarrow> gomap" where
  "pod_Annotations p \<equiv> meta_Annotations (pod_Meta p)"

text \<open>
  Assignments to fields of nested structs, and
  \<open>if agent.Annotations == nil { agent.Annotations = make(...) }; agent.Annotations[k] = v\<close>.
\<close>

definition update_spec :: "(AgentSpec \<Rightarrow> AgentSpec) \<Rightarrow> Agent \<Rightarrow> Agent" where
  "update_spec f a = a\<lparr>agent_Spec := f (agent_Spec a)\<rparr>"

definition update_status :: "(AgentStatus \<Rightarrow> AgentStatus) \<Rightarrow> Agent \<Rightarrow> Agent" where
  "update_status f a = a\<lparr>agent_Status := f (agent_Status a)\<rparr>"

definition annotate :: "string \<Rightarrow> string \<Rightarrow> Agent \<Rightarrow> Agent" where
  "annotate k v a = a\<lparr>agent_Meta := (agent_Meta a)
     \<lparr>meta_Annotations := Some ((entries (agent_Annotations a))(k \<mapsto> v))\<rparr>\<rparr>"

lemma update_spec_simps [simp]:
  "agent_Meta (update_spec f a) = agent_Meta a"
  "agent_Spec (update_spec f a) = f (agent_Spec a)"
  "agent_Status (update_spec f a) = agent_Status a"
  by (simp_all add: update_spec_def)

lemma update_status_simps [simp]:
  "agent_Meta (update_status f a) = agent_Meta a"
  "agent_Spec (update_status f a) = agent_Spec a"
  "agent_Status (update_status f a) = f (agent_Status a)"
  by (simp_all add: update_status_def)

lemma annotate_simps [simp]:
  "agent_Spec (annotate k v a) = agent_Spec a"
  "agent_Status (annotate k v a) = agent_Status a"
  "agent_Name (annotate k v a) = agent_Name a"
  "agent_Namespace (annotate k v a) = agent_Namespace a"
  "agent_Generation (annotate k v a) = agent_Generation a"
  "meta_UID (agent_Meta (annotate k v a)) = meta_UID (agent_Meta a)"
  "meta_Labels (agent_Meta (annotate k v a)) = meta_Labels (agent_Meta a)"
  "meta_Finalizers (agent_Meta (annotate k v a)) = meta_Finalizers (agent_Meta a)"
  "meta_DeletionTimestamp (agent_Meta (annotate k v a)) = meta_DeletionTimestamp (agent_Meta a)"
  "entries (agent_Annotations (annotate k v a)) = (entries (agent_Annotations a))(k \<mapsto> v)"
  by (simp_all add: annotate_def)

end
