(* ===== verification/Redis_Client.thy ===== *)
theory Redis_Client
  imports Agent_Types Cache_Store
begin

text \<open>
  The Redis server the two Redis-backed stores talk to, as a parameter: a record of functions over
  an arbitrary server state \<open>'r\<close>, one per request the program makes. The locale \<open>redis_server\<close>
  states what the Redis manual promises of the ten commands used, for a server that answers, and
  \<open>Ref_Redis\<close> gives an executable server that keeps these promises.

  JSON texts are modelled as the documents they denote. \<open>json.Marshal\<close> followed by
  \<open>json.Unmarshal\<close> into an \<open>interface{}\<close> turns every number into a \<open>float64\<close>, so an \<open>int64\<close> comes
  back rounded to 53 bits: \<open>json_norm\<close>.
\<close>

section \<open>JSON documents\<close>

text \<open>A number is an integer literal or the literal that \<open>encoding/json\<close> prints for a \<open>float64\<close>.\<close>

datatype json =
    JNull
  | JBool bool
  | JInt int
  | JFloat rat
  | JString string
  | JArray "json list"
  | JObject "(string \<times> json) list"

text \<open>
  The \<open>float64\<close> nearest to an integer, ties to even: 53 significant bits are kept. \<open>excess n\<close> is the
  number of low bits of \<open>\<bar>n\<bar>\<close> that do not fit.
\<close>

fun excess :: "nat \<Rightarrow> nat" where
  "excess n = (if n < 2 ^ 53 then 0 else Suc (excess (n div 2)))"

declare excess.simps [simp del]

definition round_even :: "nat \<Rightarrow> nat \<Rightarrow> nat" where
  "round_even d n = (let q = n div d; r = n mod d
                     in if d < 2 * r \<or> (2 * r = d \<and> odd q) then (q + 1) * d else q * d)"

definition f64_of_int :: "int \<Rightarrow> int" where
  "f64_of_int i = (let n = nat \<bar>i\<bar> in sgn i * int (round_even (2 ^ excess n) n))"

fun to_json :: "gval \<Rightarrow> json" where
  "to_json VNil = JNull"
| "to_json (VBool b) = JBool b"
| "to_json (VInt64 i) = JInt i"
| "to_json (VFloat64 q) = JFloat q"
| "to_json (VString s) = JString s"
| "to_json (VSlice vs) = JArray (map to_json vs)"
| "to_json (VMap kvs) = JObject (map (\<lambda>kv. (fst kv, to_json (snd kv))) kvs)"

fun from_json :: "json \<Rightarrow> gval" where
  "from_json JNull = VNil"
| "from_json (JBool b) = VBool b"
| "from_json (JInt i) = VFloat64 (of_int (f64_of_int i))"
| "from_json (JFloat q) = VFloat64 q"
| "from_json (JString s) = VString s"
| "from_json (JArray js) = VSlice (map from_json js)"
| "from_json (JObject kjs) = VMap (map (\<lambda>kj. (fst kj, from_json (snd kj))) kjs)"

definition json_norm :: "gval \<Rightarrow> gval" where
  "json_norm v = from_json (to_json v)"

text \<open>Values that came from JSON, as the REST API stores them, come back unchanged.\<close>

fun int_free :: "gval \<Rightarrow> bool" where
  "int_free (VInt64 i) = False"
| "int_free (VSlice vs) = (\<forall>v \<in> set vs. int_free v)"
| "int_free (VMap kvs) = (\<forall>kv \<in> set kvs. int_free (snd kv))"
| "int_free _ = True"

lemma json_norm_int_free: "int_free v \<Longrightarrow> json_norm v = v"
  unfolding json_norm_def
proof (induction v rule: int_free.induct)
  case (3 kvs)
  then have "map (\<lambda>kv. (fst kv, from_json (to_json (snd kv)))) kvs = map id kvs"
    by (intro map_cong) auto
  then show ?case by (simp add: comp_def)
qed (simp_all add: map_idI)

lemma int_free_from_json: "int_free (from_json j)"
  by (induction j rule: from_json.induct) auto

text \<open>The rounding error of an \<open>int64\<close> is at most 512.\<close>

lemma round_even_error: "0 < d \<Longrightarrow> 2 * \<bar>int (round_even d n) - int n\<bar> \<le> int d"
proof -
  assume "0 < d"
  define q r where "q = n div d" and "r = n mod d"
  have n: "n = q * d + r" by (simp add: q_def r_def)
  have "r < d" using \<open>0 < d\<close> by (simp add: r_def)
  show ?thesis
  proof (cases "d < 2 * r \<or> (2 * r = d \<and> odd q)")
    case True
    then have "round_even d n = (q + 1) * d" by (simp add: round_even_def q_def r_def Let_def)
    moreover have "int ((q + 1) * d) - int n = int d - int r" by (simp add: n algebra_simps)
    ultimately show ?thesis using True \<open>r < d\<close> by auto
  next
    case False
    then have "round_even d n = q * d" by (auto simp: round_even_def q_def r_def Let_def)
    moreover have "int (q * d) - int n = - int r" by (simp add: n)
    ultimately show ?thesis using False by auto
  qed
qed

lemma excess_bound: "n < 2 ^ (53 + k) \<Longrightarrow> excess n \<le> k"
proof (induction k arbitrary: n)
  case 0
  then show ?case by (simp add: excess.simps [of n])
next
  case (Suc k)
  have "(2 :: nat) ^ (53 + Suc k) = 2 ^ (53 + k) * 2" by (simp only: add_Suc_right power_Suc2)
  with Suc.prems have "n < 2 ^ (53 + k) * 2" by simp
  then have "n div 2 < 2 ^ (53 + k)" by (rule less_mult_imp_div_less)
  from Suc.IH [OF this] show ?case by (simp add: excess.simps [of n])
qed

lemma f64_of_int_error_bits: "\<bar>i\<bar> < 2 ^ (53 + k) \<Longrightarrow> 2 * \<bar>f64_of_int i - i\<bar> \<le> 2 ^ k"
proof -
  assume i: "\<bar>i\<bar> < 2 ^ (53 + k)"
  let ?n = "nat \<bar>i\<bar>" and ?d = "2 ^ excess (nat \<bar>i\<bar>) :: nat"
  have "excess ?n \<le> k" using i by (intro excess_bound) (simp add: nat_less_iff)
  then have "int ?d \<le> 2 ^ k" by (simp add: power_increasing)
  moreover have "2 * \<bar>int (round_even ?d ?n) - int ?n\<bar> \<le> int ?d"
    by (rule round_even_error) simp
  moreover have "\<bar>f64_of_int i - i\<bar> = \<bar>int (round_even ?d ?n) - int ?n\<bar>"
    if "i \<noteq> 0" using that by (auto simp: f64_of_int_def Let_def sgn_if)
  moreover have "f64_of_int i = i" if "i = 0" using that by (simp add: f64_of_int_def)
  ultimately show ?thesis by (cases "i = 0") (simp, smt (verit))
qed

lemma f64_of_int_exact: "\<bar>i\<bar> < 2 ^ 53 \<Longrightarrow> f64_of_int i = i"
proof -
  assume "\<bar>i\<bar> < 2 ^ 53"
  then have "2 * \<bar>f64_of_int i - i\<bar> \<le> 1" using f64_of_int_error_bits [of i 0] by simp
  then show ?thesis by presburger
qed

lemma f64_of_int_error: "in_int64 i \<Longrightarrow> \<bar>f64_of_int i - i\<bar> \<le> 512"
proof -
  assume i: "in_int64 i"
  show ?thesis
  proof (cases "i = - (2 ^ 63)")
    case True
    have "excess 9223372036854775808 = 11" by (simp add: excess.simps)
    then have "f64_of_int (- 9223372036854775808) = - 9223372036854775808"
      by (simp add: f64_of_int_def) (simp add: round_even_def)
    with True show ?thesis by simp
  next
    case False
    with i have "\<bar>i\<bar> < 2 ^ (53 + 10)" by (auto simp: in_int64_def)
    then have "2 * \<bar>f64_of_int i - i\<bar> \<le> 2 ^ 10" by (rule f64_of_int_error_bits)
    then show ?thesis by simp
  qed
qed

section \<open>The server\<close>

text \<open>
  What a key can hold as a text: the JSON document of a \<open>redisEntry\<close> (its raw value, creation time
  and optional expiry), the document of a \<open>LifecycleEvent\<close>, or a text that is not JSON.
\<close>

datatype rvalue = REntry json int "int option" | REvent LifecycleEvent | RText string

datatype rcmd =
    RSet string rvalue int
  | RSAdd string string
  | RExpire string int
  | RDel "string list"
  | RSRem string string
  | RPush string rvalue
  | RLTrim string int int

text \<open>
  A pipeline is a list of commands run in order, and the program ignores its errors. The last
  argument before the state is the time at which the server runs the request; \<open>None\<close> is an error,
  \<open>redis.Nil\<close> for a missing key among them.
\<close>

record 'r Redis =
  rd_exec :: "rcmd list \<Rightarrow> int \<Rightarrow> 'r \<Rightarrow> 'r"
  rd_get :: "string \<Rightarrow> int \<Rightarrow> 'r \<Rightarrow> rvalue option \<times> 'r"
  rd_smembers :: "string \<Rightarrow> int \<Rightarrow> 'r \<Rightarrow> string list option \<times> 'r"
  rd_lrange :: "string \<Rightarrow> int \<Rightarrow> int \<Rightarrow> int \<Rightarrow> 'r \<Rightarrow> rvalue list option \<times> 'r"

text \<open>
  The program gives each kind of key a prefix of its own, and a command on a key of another kind
  would fail (\<open>WRONGTYPE\<close>). \<open>kind_ok c\<close>: the command suits its key. \<open>RExpire\<close> is only sent to
  index keys, so a history list never expires.
\<close>

definition value_key :: "string \<Rightarrow> bool" where "value_key k \<longleftrightarrow> take 6 k = ''cache:''"
definition index_key :: "string \<Rightarrow> bool" where "index_key k \<longleftrightarrow> take 10 k = ''cache-idx:''"
definition list_key :: "string \<Rightarrow> bool" where "list_key k \<longleftrightarrow> take 8 k = ''history:''"

fun kind_ok :: "rcmd \<Rightarrow> bool" where
  "kind_ok (RSet k v d) = value_key k"
| "kind_ok (RSAdd k m) = index_key k"
| "kind_ok (RExpire k d) = index_key k"
| "kind_ok (RDel ks) = True"
| "kind_ok (RSRem k m) = index_key k"
| "kind_ok (RPush k v) = list_key k"
| "kind_ok (RLTrim k i j) = list_key k"

text \<open>
  \<open>rv t r k\<close> and \<open>sv t r k\<close>: the value and the set that key \<open>k\<close> holds at time \<open>t\<close>, if nothing is
  sent until then; \<open>lv r k\<close>: the list it holds. A missing set or list is an empty one. \<open>good r\<close>:
  every key holds the kind its prefix says and no list has an expiry. Expiry is promised to
  the millisecond for \<open>SET\<close> and to the second for \<open>EXPIRE\<close>, the units in which the client sends
  them; a non-positive TTL other than -1 (\<open>redis.KeepTTL\<close>) means none.
\<close>

locale redis_server =
  fixes R :: "'r Redis"
    and rv :: "int \<Rightarrow> 'r \<Rightarrow> string \<Rightarrow> rvalue option"
    and sv :: "int \<Rightarrow> 'r \<Rightarrow> string \<Rightarrow> string set"
    and lv :: "'r \<Rightarrow> string \<Rightarrow> rvalue list"
    and good :: "'r \<Rightarrow> bool"
  assumes exec_Nil: "rd_exec R [] t r = r"
    and exec_Cons: "rd_exec R (c # cs) t r = rd_exec R cs t (rd_exec R [c] t r)"
    and good_exec: "good r \<Longrightarrow> kind_ok c \<Longrightarrow> good (rd_exec R [c] t r)"
    and good_get: "good r \<Longrightarrow> good (snd (rd_get R k t r))"
    and good_smembers: "good r \<Longrightarrow> good (snd (rd_smembers R k t r))"
    and good_lrange: "good r \<Longrightarrow> good (snd (rd_lrange R k i j t r))"
    and get_result: "fst (rd_get R k t r) = rv t r k"
    and get_rv: "t \<le> t' \<Longrightarrow> rv t' (snd (rd_get R k t r)) = rv t' r"
    and get_sv: "t \<le> t' \<Longrightarrow> sv t' (snd (rd_get R k t r)) = sv t' r"
    and smembers_result: "good r \<Longrightarrow> index_key k \<Longrightarrow>
      \<exists>ms. fst (rd_smembers R k t r) = Some ms \<and> set ms = sv t r k"
    and smembers_rv: "t \<le> t' \<Longrightarrow> rv t' (snd (rd_smembers R k t r)) = rv t' r"
    and smembers_sv: "t \<le> t' \<Longrightarrow> sv t' (snd (rd_smembers R k t r)) = sv t' r"
    and lrange_result: "good r \<Longrightarrow> list_key k \<Longrightarrow>
      fst (rd_lrange R k 0 (- 1) t r) = Some (lv r k)"
    and lrange_lv: "lv (snd (rd_lrange R k i j t r)) = lv r"
    and set_rv: "t \<le> t' \<Longrightarrow> d mod Millisecond = 0 \<Longrightarrow>
      rv t' (rd_exec R [RSet k v d] t r) k = (if 0 < d \<and> t + d \<le> t' then None else Some v)"
    and set_rv_other: "t \<le> t' \<Longrightarrow> k' \<noteq> k \<Longrightarrow> rv t' (rd_exec R [RSet k v d] t r) k' = rv t' r k'"
    and set_sv_other: "t \<le> t' \<Longrightarrow> k' \<noteq> k \<Longrightarrow> sv t' (rd_exec R [RSet k v d] t r) k' = sv t' r k'"
    and sadd_sv: "good r \<Longrightarrow> index_key k \<Longrightarrow>
      sv t (rd_exec R [RSAdd k m] t r) k = insert m (sv t r k)"
    and sadd_sv_other: "t \<le> t' \<Longrightarrow> k' \<noteq> k \<Longrightarrow> sv t' (rd_exec R [RSAdd k m] t r) k' = sv t' r k'"
    and sadd_rv: "t \<le> t' \<Longrightarrow> k' \<noteq> k \<Longrightarrow> rv t' (rd_exec R [RSAdd k m] t r) k' = rv t' r k'"
    and expire_sv: "t \<le> t' \<Longrightarrow> 0 < d \<Longrightarrow> d mod Second = 0 \<Longrightarrow>
      sv t' (rd_exec R [RExpire k d] t r) k = (if t + d \<le> t' then {} else sv t r k)"
    and expire_sv_other: "t \<le> t' \<Longrightarrow> k' \<noteq> k \<Longrightarrow> sv t' (rd_exec R [RExpire k d] t r) k' = sv t' r k'"
    and expire_rv: "t \<le> t' \<Longrightarrow> k' \<noteq> k \<Longrightarrow> rv t' (rd_exec R [RExpire k d] t r) k' = rv t' r k'"
    and del_rv: "t \<le> t' \<Longrightarrow>
      rv t' (rd_exec R [RDel ks] t r) k = (if k \<in> set ks then None else rv t' r k)"
    and del_sv: "t \<le> t' \<Longrightarrow>
      sv t' (rd_exec R [RDel ks] t r) k = (if k \<in> set ks then {} else sv t' r k)"
    and del_lv: "lv (rd_exec R [RDel ks] t r) k = (if k \<in> set ks then [] else lv r k)"
    and srem_rv: "t \<le> t' \<Longrightarrow> k' \<noteq> k \<Longrightarrow> rv t' (rd_exec R [RSRem k m] t r) k' = rv t' r k'"
    and srem_sv: "t \<le> t' \<Longrightarrow>
      sv t' (rd_exec R [RSRem k m] t r) = (sv t' r)(k := sv t' r k - {m})"
    and rpush_lv: "good r \<Longrightarrow> list_key k \<Longrightarrow>
      lv (rd_exec R [RPush k v] t r) = (lv r)(k := lv r k @ [v])"
    and ltrim_lv: "good r \<Longrightarrow> list_key k \<Longrightarrow> 0 < n \<Longrightarrow>
      lv (rd_exec R [RLTrim k (- int n) (- 1)] t r) =
      (lv r)(k := drop (length (lv r k) - n) (lv r k))"
begin

lemma exec_append: "rd_exec R (cs @ cs') t r = rd_exec R cs' t (rd_exec R cs t r)"
proof (induction cs arbitrary: r)
  case Nil
  show ?case by (simp add: exec_Nil)
next
  case (Cons c cs)
  show ?case using Cons.IH by (simp add: exec_Cons [of c "cs @ cs'"] exec_Cons [of c cs])
qed

lemma exec2: "rd_exec R [c, c'] t r = rd_exec R [c'] t (rd_exec R [c] t r)"
  by (rule exec_Cons)

lemma exec3: "rd_exec R [c, c', c''] t r = rd_exec R [c''] t (rd_exec R [c'] t (rd_exec R [c] t r))"
  by (subst exec_Cons) (subst exec_Cons, rule refl)

end

end
