(* ===== verification/Ref_Redis.thy ===== *)
theory Ref_Redis
  imports Redis_Client
begin

text \<open>
  An executable Redis server with one keyspace, typed values and lazy expiry. It shows that the laws of
  \<open>redis_server\<close> can hold, and the witnesses run the program against it.
\<close>

datatype rdata = DText rvalue | DSet "string list" | DList "rvalue list"

type_synonym rstate = "string \<rightharpoonup> rdata \<times> int option"

definition expired :: "int \<Rightarrow> int option \<Rightarrow> bool" where
  "expired t x = (case x of None \<Rightarrow> False | Some e \<Rightarrow> e \<le> t)"

definition live :: "int \<Rightarrow> rstate \<Rightarrow> string \<Rightarrow> (rdata \<times> int option) option" where
  "live t r k = (case r k of None \<Rightarrow> None | Some (d, x) \<Rightarrow> if expired t x then None else Some (d, x))"

text \<open>The elements from index \<open>i\<close> to index \<open>j\<close>, both counted from the end when negative.\<close>

definition range_of :: "int \<Rightarrow> int \<Rightarrow> 'a list \<Rightarrow> 'a list" where
  "range_of i j xs =
     (let n = int (length xs); a = (if i < 0 then max 0 (n + i) else i); b = (if j < 0 then n + j else j)
      in take (nat (b + 1 - a)) (drop (nat a) xs))"

fun ref_cmd :: "int \<Rightarrow> rstate \<Rightarrow> rcmd \<Rightarrow> rstate" where
  "ref_cmd t r (RSet k v d) =
     r(k \<mapsto> (DText v, if 0 < d then Some (t + max 1 (d div Millisecond) * Millisecond) else None))"
| "ref_cmd t r (RSAdd k m) =
     (case live t r k of None \<Rightarrow> r(k \<mapsto> (DSet [m], None))
      | Some (DSet ms, x) \<Rightarrow> if m \<in> set ms then r else r(k \<mapsto> (DSet (ms @ [m]), x))
      | Some _ \<Rightarrow> r)"
| "ref_cmd t r (RExpire k d) =
     (case live t r k of None \<Rightarrow> r
      | Some (v, _) \<Rightarrow> if 0 < d then r(k \<mapsto> (v, Some (t + max 1 (d div Second) * Second))) else r(k := None))"
| "ref_cmd t r (RDel ks) = (\<lambda>k. if k \<in> set ks then None else r k)"
| "ref_cmd t r (RSRem k m) =
     (case live t r k of Some (DSet ms, x) \<Rightarrow>
        let ms' = filter (\<lambda>m'. m' \<noteq> m) ms in if ms' = [] then r(k := None) else r(k \<mapsto> (DSet ms', x))
      | _ \<Rightarrow> r)"
| "ref_cmd t r (RPush k v) =
     (case live t r k of None \<Rightarrow> r(k \<mapsto> (DList [v], None))
      | Some (DList vs, x) \<Rightarrow> r(k \<mapsto> (DList (vs @ [v]), x))
      | Some _ \<Rightarrow> r)"
| "ref_cmd t r (RLTrim k i j) =
     (case live t r k of Some (DList vs, x) \<Rightarrow>
        let vs' = range_of i j vs in if vs' = [] then r(k := None) else r(k \<mapsto> (DList vs', x))
      | _ \<Rightarrow> r)"

definition ref_redis :: "rstate Redis" where
  "ref_redis =
     \<lparr>rd_exec = (\<lambda>cs t r. foldl (ref_cmd t) r cs),
      rd_get = (\<lambda>k t r. (case live t r k of Some (DText v, _) \<Rightarrow> Some v | _ \<Rightarrow> None, r)),
      rd_smembers = (\<lambda>k t r. (case live t r k of None \<Rightarrow> Some [] | Some (DSet ms, _) \<Rightarrow> Some ms | _ \<Rightarrow> None, r)),
      rd_lrange = (\<lambda>k i j t r. (case live t r k of None \<Rightarrow> Some []
         | Some (DList vs, _) \<Rightarrow> Some (range_of i j vs) | _ \<Rightarrow> None, r))\<rparr>"

lemma ref_redis_simps [simp]:
  "rd_exec ref_redis cs t r = foldl (ref_cmd t) r cs"
  "rd_get ref_redis k t r = (case live t r k of Some (DText v, _) \<Rightarrow> Some v | _ \<Rightarrow> None, r)"
  "rd_smembers ref_redis k t r =
     (case live t r k of None \<Rightarrow> Some [] | Some (DSet ms, _) \<Rightarrow> Some ms | _ \<Rightarrow> None, r)"
  "rd_lrange ref_redis k i j t r =
     (case live t r k of None \<Rightarrow> Some [] | Some (DList vs, _) \<Rightarrow> Some (range_of i j vs) | _ \<Rightarrow> None, r)"
  by (simp_all add: ref_redis_def)

section \<open>The laws hold\<close>

definition ref_rv :: "int \<Rightarrow> rstate \<Rightarrow> string \<Rightarrow> rvalue option" where
  "ref_rv t r k = (case live t r k of Some (DText v, _) \<Rightarrow> Some v | _ \<Rightarrow> None)"

definition ref_sv :: "int \<Rightarrow> rstate \<Rightarrow> string \<Rightarrow> string set" where
  "ref_sv t r k = (case live t r k of Some (DSet ms, _) \<Rightarrow> set ms | _ \<Rightarrow> {})"

definition ref_lv :: "rstate \<Rightarrow> string \<Rightarrow> rvalue list" where
  "ref_lv r k = (case r k of Some (DList vs, None) \<Rightarrow> vs | _ \<Rightarrow> [])"

fun kind_of :: "string \<Rightarrow> rdata \<times> int option \<Rightarrow> bool" where
  "kind_of k (DText v, x) = value_key k"
| "kind_of k (DSet ms, x) = index_key k"
| "kind_of k (DList vs, x) = (list_key k \<and> x = None)"

definition ref_good :: "rstate \<Rightarrow> bool" where
  "ref_good r \<longleftrightarrow> (\<forall>k v. r k = Some v \<longrightarrow> kind_of k v)"

lemma ref_good_empty [simp]: "ref_good Map.empty"
  by (simp add: ref_good_def)

lemma key_kinds_disjoint:
  "value_key k \<Longrightarrow> \<not> index_key k" "value_key k \<Longrightarrow> \<not> list_key k" "index_key k \<Longrightarrow> \<not> list_key k"
proof -
  have v: "k ! 0 = CHR ''c'' \<and> k ! 5 = CHR '':''" if "value_key k"
    using that nth_take [of 0 6 k] nth_take [of 5 6 k] by (simp add: value_key_def)
  have i: "k ! 0 = CHR ''c'' \<and> k ! 5 = CHR ''-''" if "index_key k"
    using that nth_take [of 0 10 k] nth_take [of 5 10 k] by (simp add: index_key_def)
  have l: "k ! 0 = CHR ''h''" if "list_key k"
    using that nth_take [of 0 8 k] by (simp add: list_key_def)
  show "value_key k \<Longrightarrow> \<not> index_key k" "value_key k \<Longrightarrow> \<not> list_key k" "index_key k \<Longrightarrow> \<not> list_key k"
    using v i l by auto
qed

lemma expired_mono: "t \<le> t' \<Longrightarrow> expired t x \<Longrightarrow> expired t' x"
  by (auto simp: expired_def split: option.splits)

lemma live_mono: "t \<le> t' \<Longrightarrow> live t r k = None \<Longrightarrow> live t' r k = None"
  by (auto simp: live_def dest: expired_mono split: option.splits if_splits)

lemma live_upd [simp]:
  "live t (r(k \<mapsto> (d, x))) k' = (if k' = k then if expired t x then None else Some (d, x) else live t r k')"
  "live t (r(k := None)) k' = (if k' = k then None else live t r k')"
  by (simp_all add: live_def)

lemma expired_simps [simp]: "\<not> expired t None" "expired t (Some e) \<longleftrightarrow> e \<le> t"
  by (simp_all add: expired_def)

lemma live_SomeD: "live t r k = Some (d, x) \<Longrightarrow> r k = Some (d, x) \<and> \<not> expired t x"
  by (auto simp: live_def split: option.splits if_splits)

lemma live_del [simp]:
  "live t (\<lambda>k. if k \<in> set ks then None else r k) k' = (if k' \<in> set ks then None else live t r k')"
  by (simp add: live_def)

lemma live_later:
  "t \<le> t' \<Longrightarrow> live t r k = Some (d, x) \<Longrightarrow> live t' r k = (if expired t' x then None else Some (d, x))"
  by (auto simp: live_def split: option.splits if_splits)

lemma whole_units: "(d :: int) mod u = 0 \<Longrightarrow> 0 < d \<Longrightarrow> 0 < u \<Longrightarrow> max 1 (d div u) * u = d"
proof -
  assume d: "d mod u = 0" "0 < d" "0 < u"
  have "d div u * u = d" using d(1) by (metis add.right_neutral div_mult_mod_eq)
  moreover have "0 < d div u" using calculation d by (metis zero_less_mult_pos2)
  ultimately show ?thesis by (simp add: max_def)
qed

lemma range_of_all [simp]: "range_of 0 (- 1) xs = xs"
  by (simp add: range_of_def Let_def)

lemma range_of_last: "range_of (- int n) (- 1) xs = drop (length xs - n) xs" if "0 < n"
proof -
  have "nat (max 0 (int (length xs) - int n)) = length xs - n" by simp
  then show ?thesis using that by (simp add: range_of_def Let_def)
qed

lemma good_list:
  "ref_good r \<Longrightarrow> list_key k \<Longrightarrow> r k = None \<or> (\<exists>vs. r k = Some (DList vs, None))"
proof (cases "r k")
  case (Some v)
  assume "ref_good r" "list_key k"
  with Some have "kind_of k v" by (simp add: ref_good_def del: split_paired_All)
  with \<open>list_key k\<close> Some show ?thesis
    by (cases "(k, v)" rule: kind_of.cases) (auto dest: key_kinds_disjoint)
qed simp

lemma good_index:
  "ref_good r \<Longrightarrow> index_key k \<Longrightarrow> r k = None \<or> (\<exists>ms x. r k = Some (DSet ms, x))"
proof (cases "r k")
  case (Some v)
  assume "ref_good r" "index_key k"
  with Some have "kind_of k v" by (simp add: ref_good_def del: split_paired_All)
  with \<open>index_key k\<close> Some show ?thesis
    by (cases "(k, v)" rule: kind_of.cases) (auto dest: key_kinds_disjoint)
qed simp

lemma good_upd: "ref_good r \<Longrightarrow> kind_of k v \<Longrightarrow> ref_good (r(k \<mapsto> v))"
  by (simp add: ref_good_def del: split_paired_All)

lemma good_none: "ref_good r \<Longrightarrow> ref_good (r(k := None))"
  by (simp add: ref_good_def)

fun keys_of :: "rcmd \<Rightarrow> string set" where
  "keys_of (RSet k v d) = {k}"
| "keys_of (RSAdd k m) = {k}"
| "keys_of (RExpire k d) = {k}"
| "keys_of (RDel ks) = set ks"
| "keys_of (RSRem k m) = {k}"
| "keys_of (RPush k v) = {k}"
| "keys_of (RLTrim k i j) = {k}"

lemma cmd_other: "k' \<notin> keys_of c \<Longrightarrow> ref_cmd t r c k' = r k'"
  by (cases c) (auto simp: Let_def split: option.splits rdata.splits)

lemma live_other: "k' \<notin> keys_of c \<Longrightarrow> live t' (ref_cmd t r c) k' = live t' r k'"
  by (simp add: live_def cmd_other del: ref_cmd.simps)

lemma value_other:
  "k' \<notin> keys_of c \<Longrightarrow> ref_rv t' (ref_cmd t r c) k' = ref_rv t' r k'"
  "k' \<notin> keys_of c \<Longrightarrow> ref_sv t' (ref_cmd t r c) k' = ref_sv t' r k'"
  "k' \<notin> keys_of c \<Longrightarrow> ref_lv (ref_cmd t r c) k' = ref_lv r k'"
  by (simp_all add: ref_rv_def ref_sv_def ref_lv_def live_other cmd_other del: ref_cmd.simps)

lemma good_cmd: "ref_good r \<Longrightarrow> kind_ok c \<Longrightarrow> ref_good (ref_cmd t r c)"
proof (cases c)
  case (RSAdd k m)
  assume "ref_good r" "kind_ok c"
  with RSAdd good_index [of r k] show ?thesis by (auto simp: live_def good_upd)
next
  case (RExpire k d)
  assume "ref_good r" "kind_ok c"
  with RExpire good_index [of r k] show ?thesis by (auto simp: live_def good_upd good_none)
next
  case (RSRem k m)
  assume "ref_good r" "kind_ok c"
  with RSRem good_index [of r k] show ?thesis by (auto simp: live_def good_upd good_none Let_def)
next
  case (RPush k v)
  assume "ref_good r" "kind_ok c"
  with RPush good_list [of r k] show ?thesis by (auto simp: live_def good_upd)
next
  case (RLTrim k i j)
  assume "ref_good r" "kind_ok c"
  with RLTrim good_list [of r k] show ?thesis by (auto simp: live_def good_upd good_none Let_def)
qed (auto simp: ref_good_def)

lemma expire_sets:
  "t \<le> t' \<Longrightarrow> 0 < d \<Longrightarrow> d mod Second = 0 \<Longrightarrow>
   ref_sv t' (ref_cmd t r (RExpire k d)) k = (if t + d \<le> t' then {} else ref_sv t r k)"
  by (auto simp: ref_sv_def whole_units live_mono split: option.splits rdata.splits)

lemma srem_sets:
  "t \<le> t' \<Longrightarrow> ref_sv t' (ref_cmd t r (RSRem k m)) = (ref_sv t' r)(k := ref_sv t' r k - {m})"
proof (cases "r k")
  case None
  then show ?thesis by (auto simp: ref_sv_def live_def fun_eq_iff)
next
  case (Some v)
  assume "t \<le> t'"
  obtain d x where v: "v = (d, x)" by (cases v)
  show ?thesis
    using expired_mono [OF \<open>t \<le> t'\<close>, of x]
    by (cases d) (auto simp: ref_sv_def live_def Some v Let_def fun_eq_iff filter_empty_conv)
qed

lemma rpush_lists:
  "ref_good r \<Longrightarrow> list_key k \<Longrightarrow>
   ref_lv (ref_cmd t r (RPush k v)) = (ref_lv r)(k := ref_lv r k @ [v])"
  using good_list [of r k] by (auto simp: ref_lv_def live_def fun_eq_iff)

lemma ltrim_lists:
  "ref_good r \<Longrightarrow> list_key k \<Longrightarrow> 0 < n \<Longrightarrow>
   ref_lv (ref_cmd t r (RLTrim k (- int n) (- 1))) =
     (ref_lv r)(k := drop (length (ref_lv r k) - n) (ref_lv r k))"
  using good_list [of r k]
  by (auto simp: ref_lv_def live_def fun_eq_iff Let_def range_of_last simp del: drop_eq_Nil)

lemma sadd_sets:
  "ref_good r \<Longrightarrow> index_key k \<Longrightarrow> ref_sv t (ref_cmd t r (RSAdd k m)) k = insert m (ref_sv t r k)"
  using good_index [of r k] by (auto simp: ref_sv_def live_def split: if_splits)

lemma del_values:
  "ref_rv t' (ref_cmd t r (RDel ks)) k = (if k \<in> set ks then None else ref_rv t' r k)"
  "ref_sv t' (ref_cmd t r (RDel ks)) k = (if k \<in> set ks then {} else ref_sv t' r k)"
  "ref_lv (ref_cmd t r (RDel ks)) k = (if k \<in> set ks then [] else ref_lv r k)"
  by (simp_all add: ref_rv_def ref_sv_def ref_lv_def)

lemma set_values:
  "d mod Millisecond = 0 \<Longrightarrow>
   ref_rv t' (ref_cmd t r (RSet k v d)) k = (if 0 < d \<and> t + d \<le> t' then None else Some v)"
  by (cases "0 < d") (simp_all add: ref_rv_def whole_units)

lemma smembers_members:
  "ref_good r \<Longrightarrow> index_key k \<Longrightarrow>
   \<exists>ms. fst (rd_smembers ref_redis k t r) = Some ms \<and> set ms = ref_sv t r k"
  using good_index [of r k] by (auto simp: ref_sv_def live_def)

lemma lrange_list:
  "ref_good r \<Longrightarrow> list_key k \<Longrightarrow> fst (rd_lrange ref_redis k 0 (- 1) t r) = Some (ref_lv r k)"
  using good_list [of r k] by (auto simp: ref_lv_def live_def)

lemma ref_get: "fst (rd_get ref_redis k t r) = ref_rv t r k"
  by (simp add: ref_rv_def)

lemma exec_one: "rd_exec ref_redis [c] t r = ref_cmd t r c"
  by simp

lemma reads_keep:
  "snd (rd_get ref_redis k t r) = r" "snd (rd_smembers ref_redis k t r) = r"
  "snd (rd_lrange ref_redis k i j t r) = r"
  by simp_all

interpretation ref_redis: redis_server ref_redis ref_rv ref_sv ref_lv ref_good
proof (unfold_locales, unfold exec_one reads_keep ref_get)
  fix k k' m t t' d r v
  show "rd_exec ref_redis [] t r = r" by simp
  show "t \<le> t' \<Longrightarrow> d mod Millisecond = 0 \<Longrightarrow>
    ref_rv t' (ref_cmd t r (RSet k v d)) k = (if 0 < d \<and> t + d \<le> t' then None else Some v)"
    by (rule set_values)
qed (simp_all add: good_cmd smembers_members lrange_list value_other sadd_sets expire_sets del_values
      srem_sets rpush_lists ltrim_lists del: ref_cmd.simps ref_redis_simps(2,3,4))

end
