(* ===== verification/Redis_Cache.thy ===== *)
theory Redis_Cache
  imports Ref_Redis
begin

text \<open>
  \<open>RedisCache\<close> of \<open>internal/cache/redis_cache.go\<close> over an arbitrary Redis server. With the laws of
  \<open>redis_server\<close> it keeps the contract \<open>cache_store\<close> of reads, writes and deletions. It does not keep
  \<open>listing_cache_store\<close>: \<open>List\<close> and \<open>ClearAgent\<close> see only the fields in the index, and every write
  moves the expiry of the index, backwards too.
\<close>

section \<open>Operations\<close>

definition fieldKey :: "string \<Rightarrow> string \<Rightarrow> string \<Rightarrow> string" where
  "fieldKey namespace name field = ''cache:'' @ namespace @ ''/'' @ name @ '':'' @ field"

definition indexKey :: "string \<Rightarrow> string \<Rightarrow> string" where
  "indexKey namespace name = ''cache-idx:'' @ namespace @ ''/'' @ name"

text \<open>
  \<open>ttl*2\<close> is a multiplication of \<open>int64\<close>s. \<open>json.Marshal\<close> cannot fail on a \<open>gval\<close>, so its error
  branches do not appear.
\<close>

definition redis_Set ::
  "'r Redis \<Rightarrow> string \<Rightarrow> string \<Rightarrow> string \<Rightarrow> gval \<Rightarrow> int \<Rightarrow> int \<Rightarrow> 'r \<Rightarrow> 'r" where
  "redis_Set R namespace name field value ttl now r =
     (let re = REntry (to_json value) now (if 0 < ttl then Some (now + ttl) else None);
          key = fieldKey namespace name field;
          idxKey = indexKey namespace name
      in rd_exec R
           [RSet key re ttl,
            RSAdd idxKey field,
            (if 0 < ttl then RExpire idxKey (wrap64 (ttl * 2)) else RExpire idxKey (24 * Hour))]
           now r)"

text \<open>
  \<open>json.Unmarshal(data, &re)\<close>: a document of another kind leaves the zero values, a text that is
  not JSON is an error.
\<close>

fun decode_entry :: "rvalue \<Rightarrow> Entry option" where
  "decode_entry (REntry raw created expires) = Some \<lparr>entry_Value = from_json raw,
     entry_CreatedAt = created, entry_ExpiresAt = expires\<rparr>"
| "decode_entry (REvent ev) = Some \<lparr>entry_Value = VNil, entry_CreatedAt = zero_time,
     entry_ExpiresAt = None\<rparr>"
| "decode_entry (RText s) = None"

definition redis_GetEntry ::
  "'r Redis \<Rightarrow> string \<Rightarrow> string \<Rightarrow> string \<Rightarrow> int \<Rightarrow> 'r \<Rightarrow> Entry option \<times> 'r" where
  "redis_GetEntry R namespace name field now r =
     (case rd_get R (fieldKey namespace name field) now r of
        (None, r') \<Rightarrow> (None, r')
      | (Some data, r') \<Rightarrow> (decode_entry data, r'))"

definition redis_Get ::
  "'r Redis \<Rightarrow> string \<Rightarrow> string \<Rightarrow> string \<Rightarrow> int \<Rightarrow> 'r \<Rightarrow> gval option \<times> 'r" where
  "redis_Get R namespace name field now r =
     (case redis_GetEntry R namespace name field now r of
        (None, r') \<Rightarrow> (None, r')
      | (Some entry, r') \<Rightarrow> (Some (entry_Value entry), r'))"

definition redis_Delete :: "'r Redis \<Rightarrow> string \<Rightarrow> string \<Rightarrow> string \<Rightarrow> int \<Rightarrow> 'r \<Rightarrow> 'r" where
  "redis_Delete R namespace name field now r =
     rd_exec R
       [RDel [fieldKey namespace name field], RSRem (indexKey namespace name) field] now r"

fun redis_List_loop ::
  "'r Redis \<Rightarrow> string \<Rightarrow> string \<Rightarrow> string list \<Rightarrow> int \<Rightarrow> (string \<rightharpoonup> Entry) \<Rightarrow> 'r \<Rightarrow> (string \<rightharpoonup> Entry) \<times> 'r"
where
  "redis_List_loop R namespace name [] now result r = (result, r)"
| "redis_List_loop R namespace name (field # fs) now result r =
     (case redis_GetEntry R namespace name field now r of
        (Some entry, r') \<Rightarrow> redis_List_loop R namespace name fs now (result(field \<mapsto> entry)) r'
      | (None, r') \<Rightarrow> redis_List_loop R namespace name fs now result
          (rd_exec R [RSRem (indexKey namespace name) field] now r'))"

definition redis_List ::
  "'r Redis \<Rightarrow> string \<Rightarrow> string \<Rightarrow> int \<Rightarrow> 'r \<Rightarrow> (string \<rightharpoonup> Entry) \<times> 'r" where
  "redis_List R namespace name now r =
     (case rd_smembers R (indexKey namespace name) now r of
        (None, r') \<Rightarrow> (Map.empty, r')
      | (Some fs, r') \<Rightarrow>
          if length fs = 0 then (Map.empty, r')
          else redis_List_loop R namespace name fs now Map.empty r')"

definition redis_ClearAgent :: "'r Redis \<Rightarrow> string \<Rightarrow> string \<Rightarrow> int \<Rightarrow> 'r \<Rightarrow> 'r" where
  "redis_ClearAgent R namespace name now r =
     (let idxKey = indexKey namespace name in
      case rd_smembers R idxKey now r of
        (None, r') \<Rightarrow> r'
      | (Some fs, r') \<Rightarrow>
          let keys = map (fieldKey namespace name) fs in
          rd_exec R [RDel (keys @ [idxKey])] now r')"

definition redis_store :: "'r Redis \<Rightarrow> 'r CacheStore" where
  "redis_store R =
     \<lparr>cs_Set = (\<lambda>ns n f v ttl nows r. redis_Set R ns n f v ttl (fst nows) r),
      cs_Get = redis_Get R,
      cs_GetEntry = redis_GetEntry R,
      cs_Delete = redis_Delete R,
      cs_List = redis_List R,
      cs_ClearAgent = redis_ClearAgent R\<rparr>"

lemma redis_store_simps [simp]:
  "cs_Set (redis_store R) ns n f v ttl nows r = redis_Set R ns n f v ttl (fst nows) r"
  "cs_Get (redis_store R) = redis_Get R"
  "cs_GetEntry (redis_store R) = redis_GetEntry R"
  "cs_Delete (redis_store R) = redis_Delete R"
  "cs_List (redis_store R) = redis_List R"
  "cs_ClearAgent (redis_store R) = redis_ClearAgent R"
  by (simp_all add: redis_store_def)

section \<open>Keys\<close>

text \<open>
  Field keys are distinct for distinct fields as long as no namespace contains a slash and no
  agent name contains a colon; field keys and index keys never meet.
\<close>

definition redis_legal :: "string \<Rightarrow> string \<Rightarrow> bool" where
  "redis_legal ns n \<longleftrightarrow> CHR ''/'' \<notin> set ns \<and> CHR '':'' \<notin> set n"

lemma fieldKey_inject:
  "redis_legal ns n \<Longrightarrow> redis_legal ns' n' \<Longrightarrow>
   fieldKey ns n f = fieldKey ns' n' f' \<longleftrightarrow> ns = ns' \<and> n = n' \<and> f = f'"
  by (auto simp: fieldKey_def redis_legal_def cut_at_separator)

lemma fieldKey_field: "fieldKey ns n f = fieldKey ns n f' \<longleftrightarrow> f = f'"
  by (simp add: fieldKey_def)

lemma indexKey_inject:
  "redis_legal ns n \<Longrightarrow> redis_legal ns' n' \<Longrightarrow> indexKey ns n = indexKey ns' n' \<longleftrightarrow> ns = ns' \<and> n = n'"
  by (auto simp: indexKey_def redis_legal_def cut_at_separator)

lemma fieldKey_neq_indexKey [simp]:
  "fieldKey ns n f \<noteq> indexKey ns' n'" "indexKey ns' n' \<noteq> fieldKey ns n f"
  by (simp_all add: fieldKey_def indexKey_def)

lemma key_kinds [simp]: "value_key (fieldKey ns n f)" "index_key (indexKey ns n)"
  by (simp_all add: value_key_def index_key_def fieldKey_def indexKey_def)

section \<open>What the laws of the server give\<close>

text \<open>Whole seconds whose double is an \<open>int64\<close>: what the REST API can pass without overflow.\<close>

definition redis_ttl_ok :: "int \<Rightarrow> bool" where
  "redis_ttl_ok ttl \<longleftrightarrow> ttl mod Second = 0 \<and> in_int64 (ttl * 2)"

definition redis_seen ::
  "(int \<Rightarrow> 'r \<Rightarrow> string \<Rightarrow> rvalue option) \<Rightarrow> int \<Rightarrow> 'r \<Rightarrow> string \<Rightarrow> string \<Rightarrow> string \<Rightarrow> Entry option" where
  "redis_seen rv t r ns n f = Option.bind (rv t r (fieldKey ns n f)) decode_entry"

lemma mod_Second_Millisecond: "(d :: int) mod Second = 0 \<Longrightarrow> d mod Millisecond = 0"
proof -
  assume "d mod Second = 0"
  then have "Second dvd d" by (simp add: dvd_eq_mod_eq_0)
  then have "Millisecond dvd d" by (rule dvd_trans [rotated]) simp
  then show ?thesis by (simp add: dvd_eq_mod_eq_0)
qed

context redis_server
begin

lemma GetEntry_result: "fst (redis_GetEntry R ns n f t r) = redis_seen rv t r ns n f"
  by (cases "rd_get R (fieldKey ns n f) t r")
    (use get_result [of "fieldKey ns n f" t r] in
      \<open>auto simp: redis_GetEntry_def redis_seen_def split: option.splits\<close>)

lemma GetEntry_state: "snd (redis_GetEntry R ns n f t r) = snd (rd_get R (fieldKey ns n f) t r)"
  by (simp add: redis_GetEntry_def split: prod.splits option.splits)

lemma Get_result: "fst (redis_Get R ns n f t r) = map_option entry_Value (redis_seen rv t r ns n f)"
  unfolding redis_Get_def GetEntry_result [of ns n f t r, symmetric]
  by (simp split: prod.splits option.splits)

lemma Get_state: "snd (redis_Get R ns n f t r) = snd (rd_get R (fieldKey ns n f) t r)"
  using GetEntry_state [of ns n f t r] by (auto simp: redis_Get_def split: prod.splits option.splits)

lemma seen_get: "t \<le> t' \<Longrightarrow> redis_seen rv t' (snd (rd_get R k t r)) = redis_seen rv t' r"
  by (intro ext) (simp add: redis_seen_def get_rv)

lemma Set_rv_index:
  "t1 \<le> t \<Longrightarrow> rv t (redis_Set R ns n f v ttl t1 r) (fieldKey ns' n' f') =
     rv t (rd_exec R [RSet (fieldKey ns n f)
       (REntry (to_json v) t1 (if 0 < ttl then Some (t1 + ttl) else None)) ttl] t1 r) (fieldKey ns' n' f')"
  by (simp add: redis_Set_def Let_def exec3 sadd_rv expire_rv)

lemma seen_Set_same:
  "t1 \<le> t \<Longrightarrow> ttl mod Second = 0 \<Longrightarrow>
   redis_seen rv t (redis_Set R ns n f v ttl t1 r) ns n f =
     (if 0 < ttl \<and> t1 + ttl \<le> t then None
      else Some \<lparr>entry_Value = json_norm v, entry_CreatedAt = t1,
             entry_ExpiresAt = (if 0 < ttl then Some (t1 + ttl) else None)\<rparr>)"
  by (simp add: redis_seen_def Set_rv_index set_rv mod_Second_Millisecond json_norm_def)

lemma seen_Set_other:
  "t1 \<le> t \<Longrightarrow> redis_legal ns n \<Longrightarrow> redis_legal ns' n' \<Longrightarrow> (ns', n', f') \<noteq> (ns, n, f) \<Longrightarrow>
   redis_seen rv t (redis_Set R ns n f v ttl t1 r) ns' n' f' = redis_seen rv t r ns' n' f'"
  by (auto simp: redis_seen_def Set_rv_index set_rv_other fieldKey_inject)

lemma seen_Set_other_field:
  "t1 \<le> t \<Longrightarrow> f' \<noteq> f \<Longrightarrow>
   redis_seen rv t (redis_Set R ns n f v ttl t1 r) ns n f' = redis_seen rv t r ns n f'"
  by (simp add: redis_seen_def Set_rv_index set_rv_other fieldKey_field)

lemma rv_Delete:
  "t1 \<le> t \<Longrightarrow> rv t (redis_Delete R ns n f t1 r) (fieldKey ns' n' f') =
     (if fieldKey ns' n' f' = fieldKey ns n f then None else rv t r (fieldKey ns' n' f'))"
  by (simp add: redis_Delete_def exec2 srem_rv del_rv)

lemma seen_srem:
  "t1 \<le> t \<Longrightarrow> redis_seen rv t (rd_exec R [RSRem (indexKey ns n) m] t1 r) = redis_seen rv t r"
  by (intro ext) (simp add: redis_seen_def srem_rv)

lemma good_Set: "good r \<Longrightarrow> good (redis_Set R ns n f v ttl t r)"
  by (simp add: redis_Set_def Let_def exec3 good_exec)

lemma good_GetEntry: "good r \<Longrightarrow> good (snd (redis_GetEntry R ns n f t r))"
  by (simp add: GetEntry_state good_get)

lemma good_Delete: "good r \<Longrightarrow> good (redis_Delete R ns n f t r)"
  by (simp add: redis_Delete_def exec2 good_exec)

end

section \<open>The contract holds\<close>

sublocale redis_server \<subseteq> redis_cache: cache_store "redis_store R" "redis_seen rv" json_norm redis_legal
  redis_ttl_ok good
proof (unfold_locales, goal_cases)
  case (5 c ttl t t1 t2 ns n f v)
  then show ?case by (auto simp: seen_Set_same redis_ttl_ok_def)
next
  case (6 c ttl t1 t2 t ns n f v)
  then show ?case by (auto simp: seen_Set_same redis_ttl_ok_def)
next
  case (7 c ns n ns' n' f' f t1 t v ttl t2)
  then show ?case by (simp add: seen_Set_other)
next
  case (9 c ns n ns' n' f' f t1 t)
  then show ?case by (auto simp: redis_seen_def rv_Delete fieldKey_inject)
qed (simp_all add: good_Set good_Delete good_get GetEntry_result Get_result Get_state GetEntry_state seen_get redis_seen_def rv_Delete)

section \<open>Listing and clearing\<close>

text \<open>
  Both work on the fields in the index, whatever the keys say. A write lets the index live for twice
  its own TTL, or for a day.
\<close>

definition index_life :: "int \<Rightarrow> int" where
  "index_life ttl = (if 0 < ttl then ttl * 2 else 24 * Hour)"

context redis_server
begin

lemma GetEntry_keeps:
  "t \<le> t' \<Longrightarrow> redis_seen rv t' (snd (redis_GetEntry R ns n f t r)) = redis_seen rv t' r"
  "t \<le> t' \<Longrightarrow> sv t' (snd (redis_GetEntry R ns n f t r)) = sv t' r"
  by (simp_all add: GetEntry_state seen_get get_sv)

lemma List_loop:
  "good r \<Longrightarrow> t \<le> t' \<Longrightarrow>
   (\<forall>f. fst (redis_List_loop R ns n fs t result r) f =
      (if f \<in> set fs \<and> redis_seen rv t r ns n f \<noteq> None then redis_seen rv t r ns n f else result f)) \<and>
   redis_seen rv t' (snd (redis_List_loop R ns n fs t result r)) = redis_seen rv t' r \<and>
   sv t' (snd (redis_List_loop R ns n fs t result r)) (indexKey ns n) =
      sv t' r (indexKey ns n) - {f \<in> set fs. redis_seen rv t r ns n f = None} \<and>
   good (snd (redis_List_loop R ns n fs t result r))"
proof (induction fs arbitrary: result r)
  case Nil
  then show ?case by simp
next
  case (Cons f fs)
  obtain entry r1 where g: "redis_GetEntry R ns n f t r = (entry, r1)" by fastforce
  note e = GetEntry_result [of ns n f t r, unfolded g fst_conv]
  note keeps = GetEntry_keeps [of t _ ns n f r, unfolded g snd_conv]
  have r1: "good r1" using good_GetEntry [OF Cons.prems(1), of ns n f t] by (simp add: g)
  show ?case
  proof (cases entry)
    case (Some x)
    obtain m r2 where rec: "redis_List_loop R ns n fs t (result(f \<mapsto> x)) r1 = (m, r2)" by fastforce
    have "redis_List_loop R ns n (f # fs) t result r = (m, r2)"
      by (simp add: g Some rec del: fun_upd_apply)
    then show ?thesis
      using Cons.IH [OF r1 Cons.prems(2), of "result(f \<mapsto> x)", unfolded rec fst_conv snd_conv]
        keeps [OF Cons.prems(2)] keeps [OF order_refl] e Some
      by auto
  next
    case None
    let ?r2 = "rd_exec R [RSRem (indexKey ns n) f] t r1"
    obtain m r3 where rec: "redis_List_loop R ns n fs t result ?r2 = (m, r3)" by fastforce
    have "redis_List_loop R ns n (f # fs) t result r = (m, r3)" by (simp add: g None rec)
    moreover have "good ?r2" using r1 by (simp add: good_exec)
    ultimately show ?thesis
      using Cons.IH [OF _ Cons.prems(2), of ?r2 result, unfolded rec fst_conv snd_conv]
        keeps [OF Cons.prems(2)] keeps [OF order_refl] e None Cons.prems(2)
      by (auto simp: seen_srem srem_sv)
  qed
qed

lemma members:
  "good r \<Longrightarrow> \<exists>fs r'. rd_smembers R (indexKey ns n) t r = (Some fs, r') \<and> good r' \<and>
     set fs = sv t r (indexKey ns n) \<and> (\<forall>t' \<ge> t. rv t' r' = rv t' r \<and> sv t' r' = sv t' r)"
  using smembers_result [of r "indexKey ns n" t] smembers_rv [of t _ "indexKey ns n" r]
    smembers_sv [of t _ "indexKey ns n" r] good_smembers [of r "indexKey ns n" t]
  by (cases "rd_smembers R (indexKey ns n) t r") auto

lemma List_spec:
  "good r \<Longrightarrow> t \<le> t' \<Longrightarrow>
   fst (redis_List R ns n t r) = redis_seen rv t r ns n |` sv t r (indexKey ns n) \<and>
   redis_seen rv t' (snd (redis_List R ns n t r)) = redis_seen rv t' r \<and>
   sv t' (snd (redis_List R ns n t r)) (indexKey ns n) =
     sv t' r (indexKey ns n) - {f \<in> sv t r (indexKey ns n). redis_seen rv t r ns n f = None}"
proof -
  assume r: "good r" and t: "t \<le> t'"
  obtain fs r' where m: "rd_smembers R (indexKey ns n) t r = (Some fs, r')" and r': "good r'"
    and fs: "set fs = sv t r (indexKey ns n)"
    and keep: "\<And>t'. t \<le> t' \<Longrightarrow> rv t' r' = rv t' r \<and> sv t' r' = sv t' r"
    using members [OF r] by blast
  have seen: "redis_seen rv u r' = redis_seen rv u r" if "t \<le> u" for u
    using keep [OF that] by (intro ext) (simp add: redis_seen_def)
  show ?thesis
  proof (cases "fs = []")
    case True
    then show ?thesis
      using m fs keep [OF t] seen [OF t] by (auto simp: redis_List_def restrict_map_def fun_eq_iff)
  next
    case False
    then have "redis_List R ns n t r = redis_List_loop R ns n fs t Map.empty r'"
      by (simp add: redis_List_def m)
    with List_loop [OF r' t, of ns n fs Map.empty] show ?thesis
      using fs keep [OF t] seen [OF t] seen [OF order_refl]
      by (auto simp: restrict_map_def fun_eq_iff)
  qed
qed

lemma ClearAgent_seen:
  "good r \<Longrightarrow> t \<le> t' \<Longrightarrow> redis_legal ns n \<Longrightarrow> redis_legal ns' n' \<Longrightarrow>
   redis_seen rv t' (redis_ClearAgent R ns n t r) ns' n' f =
     (if ns' = ns \<and> n' = n \<and> f \<in> sv t r (indexKey ns n) then None else redis_seen rv t' r ns' n' f)"
  using members [of r ns n t]
  by (auto simp: redis_ClearAgent_def redis_seen_def del_rv fieldKey_inject image_iff)

lemma index_after_Set:
  "good r \<Longrightarrow> t1 \<le> t \<Longrightarrow> redis_ttl_ok ttl \<Longrightarrow>
   sv t (redis_Set R ns n f v ttl t1 r) (indexKey ns n) =
     (if t1 + index_life ttl \<le> t then {} else insert f (sv t1 r (indexKey ns n)))"
proof -
  assume r: "good r" and t: "t1 \<le> t" and ttl: "redis_ttl_ok ttl"
  let ?r1 = "rd_exec R [RSet (fieldKey ns n f)
    (REntry (to_json v) t1 (if 0 < ttl then Some (t1 + ttl) else None)) ttl] t1 r"
  have "good ?r1" using r by (simp add: good_exec)
  moreover have "ttl * 2 mod Second = 0" using ttl by (simp add: redis_ttl_ok_def mod_mult_left_eq [symmetric])
  ultimately show ?thesis
    using ttl t
    by (auto simp: redis_Set_def Let_def exec3 index_life_def expire_sv sadd_sv set_sv_other redis_ttl_ok_def)
qed

end

text \<open>
  The laws for the executable server: what the witnesses below instantiate.
\<close>

lemma ref_redis_server: "redis_server ref_redis ref_rv ref_sv ref_lv ref_good"
  by unfold_locales

section \<open>Properties\<close>

text \<open>
  C20. On every Redis server that keeps its manual's promises, a value written under a TTL of whole
  seconds is what every read of the same field returns (after the JSON round trip) up to the expiry
  of that TTL and nothing from then on, and no other field of any agent is touched.
\<close>

theorem redis_set_get:
  assumes "redis_server R rv sv lv good" and "good r" and "redis_ttl_ok ttl" and "t1 \<le> t"
    and "redis_legal ns n" and "redis_legal ns' n'"
  shows "fst (redis_Get R ns' n' f' t (redis_Set R ns n f v ttl t1 r)) =
    (if (ns', n', f') = (ns, n, f)
     then if 0 < ttl \<and> t1 + ttl \<le> t then None else Some (json_norm v)
     else fst (redis_Get R ns' n' f' t r))"
proof -
  note laws = redis_server.Get_result [OF assms(1)] redis_server.seen_Set_same [OF assms(1)]
    redis_server.seen_Set_other [OF assms(1)]
  show ?thesis
    using assms(3-6) by (auto simp: laws redis_ttl_ok_def)
qed

theorem redis_set_get_witness:
  "fst (redis_Get ref_redis ''default'' ''a'' ''k'' (2 * Second)
     (redis_Set ref_redis ''default'' ''a'' ''k'' (VInt64 7) (5 * Second) Second Map.empty)) =
   Some (VFloat64 7)"
  using redis_set_get [OF ref_redis_server, OF ref_good_empty, of "5 * Second" Second "2 * Second"
      "''default''" "''a''" "''default''" "''a''" "''k''" "''k''" "VInt64 7"]
  by (simp add: redis_ttl_ok_def in_int64_def redis_legal_def json_norm_def f64_of_int_exact)

text \<open>
  \<open>List\<close> returns what single reads find for exactly the fields in the index, drops the others
  from the index, and changes no value; \<open>ClearAgent\<close> removes exactly the indexed fields of this
  agent and leaves every other agent alone.
\<close>

lemma redis_list_clear_indexed:
  assumes "redis_server R rv sv lv good" and "good r" and "t \<le> t'"
    and "redis_legal ns n" and "redis_legal ns' n'"
  shows "fst (redis_List R ns n t r) f =
      (if f \<in> sv t r (indexKey ns n) then fst (redis_GetEntry R ns n f t r) else None) \<and>
    fst (redis_GetEntry R ns' n' f t' (snd (redis_List R ns n t r))) =
      fst (redis_GetEntry R ns' n' f t' r) \<and>
    fst (redis_GetEntry R ns' n' f t' (redis_ClearAgent R ns n t r)) =
      (if ns' = ns \<and> n' = n \<and> f \<in> sv t r (indexKey ns n) then None
       else fst (redis_GetEntry R ns' n' f t' r))"
  using redis_server.List_spec [OF assms(1-3), of ns n]
  by (simp add: redis_server.GetEntry_result [OF assms(1)] restrict_map_def assms
      redis_server.ClearAgent_seen [OF assms(1-3)])

lemma redis_list_clear_indexed_example:
  "let r = redis_Set ref_redis ''default'' ''a'' ''k'' (VString ''x'') 0 0 Map.empty
   in fst (redis_List ref_redis ''default'' ''a'' Second r) ''k'' =
        fst (redis_GetEntry ref_redis ''default'' ''a'' ''k'' Second r) \<and>
      fst (redis_GetEntry ref_redis ''default'' ''a'' ''k'' (2 * Second)
        (redis_ClearAgent ref_redis ''default'' ''a'' Second r)) = None"
proof -
  let ?r = "redis_Set ref_redis ''default'' ''a'' ''k'' (VString ''x'') 0 0 Map.empty"
  have "ref_good ?r" by (rule redis_server.good_Set [OF ref_redis_server, OF ref_good_empty])
  moreover have "''k'' \<in> ref_sv Second ?r (indexKey ''default'' ''a'')"
    by (simp add: redis_server.index_after_Set [OF ref_redis_server, OF ref_good_empty]
        index_life_def redis_ttl_ok_def in_int64_def)
  ultimately show ?thesis
    using redis_list_clear_indexed [OF ref_redis_server, of ?r Second "2 * Second" "''default''"
        "''a''" "''default''" "''a''" "''k''"]
    by (simp add: redis_legal_def Let_def)
qed

text \<open>
  C37. The index does not live as long as the entries it lists: after a write with a short TTL, at
  twice this TTL, \<open>List\<close> returns nothing and \<open>ClearAgent\<close> removes nothing, although a field written
  before without a TTL is still there for every single read.
\<close>

theorem redis_short_ttl_hides_entries:
  fixes v1 v2 :: gval
  assumes "redis_server R rv sv lv good" and "good r" and "redis_legal ns n"
    and "redis_ttl_ok ttl" and "0 < ttl" and "f2 \<noteq> f1"
    and "t1 \<le> t2" and "t2 + ttl * 2 \<le> t" and "t \<le> t'"
  defines "r' \<equiv> redis_Set R ns n f2 v2 ttl t2 (redis_Set R ns n f1 v1 0 t1 r)"
  shows "fst (redis_Get R ns n f1 t r') = Some (json_norm v1) \<and>
    fst (redis_List R ns n t r') = Map.empty \<and>
    fst (redis_Get R ns n f1 t' (redis_ClearAgent R ns n t r')) = Some (json_norm v1)"
proof -
  let ?r1 = "redis_Set R ns n f1 v1 0 t1 r"
  have g1: "good ?r1" and g2: "good r'"
    using assms(2) by (simp_all add: r'_def redis_server.good_Set [OF assms(1)])
  have seen: "map_option entry_Value (redis_seen rv u r' ns n f1) = Some (json_norm v1)"
    if "t \<le> u" for u
    using assms(5-8) that
    by (simp add: r'_def redis_server.seen_Set_other_field [OF assms(1)]
        redis_server.seen_Set_same [OF assms(1)])
  have index: "sv t r' (indexKey ns n) = {}"
    unfolding r'_def using assms(4,5,8)
    by (subst redis_server.index_after_Set [OF assms(1) g1]) (simp_all add: index_life_def)
  have "fst (redis_Get R ns n f1 t r') = Some (json_norm v1)"
    by (simp add: redis_server.Get_result [OF assms(1)] seen)
  moreover have "fst (redis_List R ns n t r') = Map.empty"
    using redis_server.List_spec [OF assms(1) g2 order_refl, of ns n t] index
    by (simp add: fun_eq_iff restrict_map_def)
  moreover have "fst (redis_Get R ns n f1 t' (redis_ClearAgent R ns n t r')) = Some (json_norm v1)"
    using seen [OF assms(9)] index
    by (simp add: redis_server.Get_result [OF assms(1)]
        redis_server.ClearAgent_seen [OF assms(1) g2 assms(9,3,3)])
  ultimately show ?thesis by simp
qed

theorem redis_short_ttl_hides_entries_witness:
  "let r = redis_Set ref_redis ''default'' ''a'' ''tmp'' (VBool True) Second 1
             (redis_Set ref_redis ''default'' ''a'' ''keep'' (VString ''x'') 0 0 Map.empty)
   in fst (redis_Get ref_redis ''default'' ''a'' ''keep'' (3 * Second) r) = Some (VString ''x'') \<and>
      fst (redis_List ref_redis ''default'' ''a'' (3 * Second) r) = Map.empty \<and>
      fst (redis_Get ref_redis ''default'' ''a'' ''keep'' (3 * Second)
        (redis_ClearAgent ref_redis ''default'' ''a'' (3 * Second) r)) = Some (VString ''x'')"
  using redis_short_ttl_hides_entries [OF ref_redis_server, OF ref_good_empty, of "''default''" "''a''"
      Second "''tmp''" "''keep''" 0 1 "3 * Second" "3 * Second" "VBool True" "VString ''x''"]
  by (simp add: redis_legal_def redis_ttl_ok_def in_int64_def json_norm_def)

text \<open>A colon in an agent name makes two agents share a key.\<close>

lemma fieldKey_collides: "fieldKey ns (n @ '':'' @ f) g = fieldKey ns n (f @ '':'' @ g)"
  by (simp add: fieldKey_def)

end
