(* ===== verification/History_Store.thy ===== *)
theory History_Store
  imports Agent_Types
begin

text \<open>
  The interface \<open>HistoryStore\<close> of \<open>internal/history/history.go\<close> as a record of operations, its
  contract as the locale \<open>history_store\<close> (a log per agent that keeps the newest events up to a cap),
  and \<open>InMemoryHistory\<close>, which is shown to keep the contract.

  Every operation of \<open>InMemoryHistory\<close> runs under its mutex. \<open>Append\<close> reslices in place, but
  \<open>List\<close> hands out copies, so no slice header outside the store aliases its arrays and a list of
  events is a faithful model of the slice.
\<close>

section \<open>The interface\<close>

text \<open>
  \<open>hs_Append ns n eventType reason message now\<close> is given the reading of \<open>metav1.Now()\<close>;
  \<open>hs_List\<close> and \<open>hs_Clear\<close> are given the time at which a server would run them.
\<close>

record 'h HistoryStore =
  hs_Append :: "string \<Rightarrow> string \<Rightarrow> string \<Rightarrow> string \<Rightarrow> string \<Rightarrow> int \<Rightarrow> 'h \<Rightarrow> 'h"
  hs_List :: "string \<Rightarrow> string \<Rightarrow> int \<Rightarrow> 'h \<Rightarrow> LifecycleEvent list \<times> 'h"
  hs_Clear :: "string \<Rightarrow> string \<Rightarrow> int \<Rightarrow> 'h \<Rightarrow> 'h"

text \<open>The last \<open>n\<close> elements.\<close>

definition newest :: "nat \<Rightarrow> 'a list \<Rightarrow> 'a list" where
  "newest n xs = drop (length xs - n) xs"

lemma newest_newest_append: "newest n (newest n xs @ ys) = newest n (xs @ ys)"
  by (cases "length xs \<le> n") (simp_all add: newest_def add.commute)

lemma length_newest [simp]: "length (newest n xs) = min n (length xs)"
  by (simp add: newest_def)

lemma newest_short [simp]: "length xs \<le> n \<Longrightarrow> newest n xs = xs"
  by (simp add: newest_def)

text \<open>A run of appends for any agents, in order.\<close>

definition append_events ::
  "'h HistoryStore \<Rightarrow> (string \<times> string \<times> LifecycleEvent) list \<Rightarrow> 'h \<Rightarrow> 'h" where
  "append_events H = fold (\<lambda>(ns, n, e).
     hs_Append H ns n (event_Type e) (event_Reason e) (event_Message e) (event_Time e))"

lemma append_events_simps [simp]:
  "append_events H [] h = h"
  "append_events H ((ns, n, e) # es) h = append_events H es
     (hs_Append H ns n (event_Type e) (event_Reason e) (event_Message e) (event_Time e) h)"
  by (simp_all add: append_events_def)

text \<open>The events of one agent in such a run.\<close>

definition events_of :: "string \<Rightarrow> string \<Rightarrow> (string \<times> string \<times> LifecycleEvent) list \<Rightarrow> LifecycleEvent list" where
  "events_of ns n es = [e. (ns', n', e) \<leftarrow> es, ns' = ns \<and> n' = n]"

lemma events_of_simps [simp]:
  "events_of ns n [] = []"
  "events_of ns n ((ns', n', e) # es) = (if ns' = ns \<and> n' = n then [e] else []) @ events_of ns n es"
  by (simp_all add: events_of_def)

locale history_store =
  fixes H :: "'h HistoryStore"
    and recorded :: "'h \<Rightarrow> string \<Rightarrow> string \<Rightarrow> LifecycleEvent list"
    and stored :: "LifecycleEvent \<Rightarrow> LifecycleEvent"
    and cap :: nat
    and legal :: "string \<Rightarrow> string \<Rightarrow> bool"
    and invar :: "'h \<Rightarrow> bool"
  assumes list: "invar h \<Longrightarrow> fst (hs_List H ns n t h) = recorded h ns n"
    and list_keeps: "invar h \<Longrightarrow> recorded (snd (hs_List H ns n t h)) = recorded h"
    and append_same: "invar h \<Longrightarrow> recorded (hs_Append H ns n ty re msg t h) ns n =
      newest cap (recorded h ns n @ [stored \<lparr>event_Time = t, event_Reason = re, event_Type = ty, event_Message = msg\<rparr>])"
    and append_other: "invar h \<Longrightarrow> legal ns n \<Longrightarrow> legal ns' n' \<Longrightarrow> (ns', n') \<noteq> (ns, n) \<Longrightarrow>
      recorded (hs_Append H ns n ty re msg t h) ns' n' = recorded h ns' n'"
    and clear_same: "invar h \<Longrightarrow> recorded (hs_Clear H ns n t h) ns n = []"
    and clear_other: "invar h \<Longrightarrow> legal ns n \<Longrightarrow> legal ns' n' \<Longrightarrow> (ns', n') \<noteq> (ns, n) \<Longrightarrow>
      recorded (hs_Clear H ns n t h) ns' n' = recorded h ns' n'"
    and invar_append: "invar h \<Longrightarrow> invar (hs_Append H ns n ty re msg t h)"
    and invar_list: "invar h \<Longrightarrow> invar (snd (hs_List H ns n t h))"
    and invar_clear: "invar h \<Longrightarrow> invar (hs_Clear H ns n t h)"
begin

lemma recorded_append_events:
  "invar h \<Longrightarrow> legal ns n \<Longrightarrow> (\<forall>(ns', n', e) \<in> set es. legal ns' n') \<Longrightarrow> length (recorded h ns n) \<le> cap \<Longrightarrow>
   invar (append_events H es h) \<and> recorded (append_events H es h) ns n =
     newest cap (recorded h ns n @ map stored (events_of ns n es))"
proof (induction es arbitrary: h)
  case Nil
  then show ?case by simp
next
  case (Cons x es)
  obtain ns' n' e where x: "x = (ns', n', e)" by (cases x)
  let ?h = "hs_Append H ns' n' (event_Type e) (event_Reason e) (event_Message e) (event_Time e) h"
  have h: "invar ?h" using Cons.prems by (simp add: invar_append)
  show ?case
  proof (cases "ns' = ns \<and> n' = n")
    case True
    then have "recorded ?h ns n = newest cap (recorded h ns n @ [stored e])"
      using append_same [OF Cons.prems(1), of ns n] by (cases e) simp
    then show ?thesis
      using Cons.IH [OF h] Cons.prems True x by (simp add: newest_newest_append)
  next
    case False
    then have "recorded ?h ns n = recorded h ns n"
      using append_other [OF Cons.prems(1), of ns' n' ns n] Cons.prems x by auto
    then show ?thesis
      using Cons.IH [OF h] Cons.prems False x by auto
  qed
qed

end

section \<open>InMemoryHistory\<close>

record InMemoryHistory =
  mh_events :: "string \<rightharpoonup> LifecycleEvent list"
  mh_maxEntries :: int

definition history_cap :: "int \<Rightarrow> int" where
  "history_cap maxEntries = (if maxEntries \<le> 0 then 1000 else maxEntries)"

definition NewInMemoryHistory :: "int \<Rightarrow> InMemoryHistory" where
  "NewInMemoryHistory maxEntries = \<lparr>mh_events = Map.empty, mh_maxEntries = history_cap maxEntries\<rparr>"

definition history_agentKey :: "string \<Rightarrow> string \<Rightarrow> string" where
  "history_agentKey namespace name = namespace @ ''/'' @ name"

definition mh_slice :: "(string \<rightharpoonup> LifecycleEvent list) \<Rightarrow> string \<Rightarrow> LifecycleEvent list" where
  "mh_slice events key = (case events key of None \<Rightarrow> [] | Some es \<Rightarrow> es)"

definition mh_Append ::
  "string \<Rightarrow> string \<Rightarrow> string \<Rightarrow> string \<Rightarrow> string \<Rightarrow> int \<Rightarrow> InMemoryHistory \<Rightarrow> InMemoryHistory" where
  "mh_Append namespace name eventType reason message now m =
     (let key = history_agentKey namespace name;
          event = \<lparr>event_Time = now, event_Reason = reason, event_Type = eventType, event_Message = message\<rparr>;
          es = mh_slice (mh_events m) key @ [event];
          es' = (if int (length es) > mh_maxEntries m
                 then drop (nat (int (length es) - mh_maxEntries m)) es else es)
      in m\<lparr>mh_events := (mh_events m)(key \<mapsto> es')\<rparr>)"

definition mh_List :: "string \<Rightarrow> string \<Rightarrow> InMemoryHistory \<Rightarrow> LifecycleEvent list" where
  "mh_List namespace name m = mh_slice (mh_events m) (history_agentKey namespace name)"

definition mh_Clear :: "string \<Rightarrow> string \<Rightarrow> InMemoryHistory \<Rightarrow> InMemoryHistory" where
  "mh_Clear namespace name m =
     m\<lparr>mh_events := (mh_events m)(history_agentKey namespace name := None)\<rparr>"

definition mem_history :: "InMemoryHistory HistoryStore" where
  "mem_history =
     \<lparr>hs_Append = mh_Append,
      hs_List = (\<lambda>ns n t m. (mh_List ns n m, m)),
      hs_Clear = (\<lambda>ns n t. mh_Clear ns n)\<rparr>"

lemma mem_history_simps [simp]:
  "hs_Append mem_history = mh_Append"
  "hs_List mem_history ns n t m = (mh_List ns n m, m)"
  "hs_Clear mem_history ns n t m = mh_Clear ns n m"
  by (simp_all add: mem_history_def)

lemma history_cap_pos [simp]: "0 < history_cap m"
  by (simp add: history_cap_def)

lemma history_agentKey_inject:
  "CHR ''/'' \<notin> set ns \<Longrightarrow> CHR ''/'' \<notin> set ns' \<Longrightarrow>
   history_agentKey ns n = history_agentKey ns' n' \<longleftrightarrow> ns = ns' \<and> n = n'"
  by (simp add: history_agentKey_def cut_at_separator)

definition history_legal :: "string \<Rightarrow> string \<Rightarrow> bool" where
  "history_legal ns n \<longleftrightarrow> CHR ''/'' \<notin> set ns"

lemma mh_slice_upd [simp]:
  "mh_slice (e(k \<mapsto> es)) k' = (if k' = k then es else mh_slice e k')"
  "mh_slice (e(k := None)) k' = (if k' = k then [] else mh_slice e k')"
  by (simp_all add: mh_slice_def)

lemma mh_maxEntries_steps [simp]:
  "mh_maxEntries (mh_Append ns n ty re msg t m) = mh_maxEntries m"
  "mh_maxEntries (mh_Clear ns n m) = mh_maxEntries m"
  "mh_maxEntries (NewInMemoryHistory k) = history_cap k"
  by (simp_all add: mh_Append_def mh_Clear_def Let_def NewInMemoryHistory_def)

interpretation mem_history: history_store mem_history "\<lambda>m ns n. mh_List ns n m" "\<lambda>e. e"
  "nat (history_cap k)" history_legal "\<lambda>m. mh_maxEntries m = history_cap k" for k
proof (unfold_locales, goal_cases)
  case (3 h ns n ty re msg t)
  have "nat (1 + int l - c) = Suc l - nat c" if "0 < c" for l c using that by linarith
  then show ?case using history_cap_pos [of k] 3
    by (auto simp: mh_List_def mh_Append_def Let_def newest_def)
qed (auto simp: mh_List_def mh_Append_def mh_Clear_def Let_def history_legal_def history_agentKey_inject)

section \<open>Properties\<close>

text \<open>
  C30. After any run of appends for any agents, \<open>List\<close> of an agent returns the newest
  \<open>maxEntries\<close> of the events appended for this agent, oldest first, and \<open>Clear\<close> of an agent empties
  its own log only. A cap that is not positive means 1000.
\<close>

theorem mem_history_bounded_log:
  assumes "history_legal ns n" and "\<forall>(ns', n', e) \<in> set es. history_legal ns' n'"
    and "history_legal ns2 n2"
  shows "mh_List ns n (append_events mem_history es (NewInMemoryHistory k)) =
      newest (nat (if k \<le> 0 then 1000 else k)) (events_of ns n es) \<and>
    mh_List ns n (mh_Clear ns2 n2 (append_events mem_history es (NewInMemoryHistory k))) =
      (if ns2 = ns \<and> n2 = n then [] else newest (nat (if k \<le> 0 then 1000 else k)) (events_of ns n es))"
proof -
  have empty: "mh_List ns n (NewInMemoryHistory k) = []"
    by (simp add: mh_List_def NewInMemoryHistory_def mh_slice_def)
  let ?m = "append_events mem_history es (NewInMemoryHistory k)"
  have run: "mh_maxEntries ?m = history_cap k \<and>
      mh_List ns n ?m = newest (nat (history_cap k)) (events_of ns n es)"
    using mem_history.recorded_append_events [of "NewInMemoryHistory k" k ns n es] assms
    by (simp add: empty)
  then show ?thesis
    using mem_history.clear_same [of ?m k ns n] mem_history.clear_other [of ?m k ns2 n2 ns n] assms
    by (auto simp: history_cap_def)
qed

definition example_event :: "int \<Rightarrow> LifecycleEvent" where
  "example_event t = \<lparr>event_Time = t, event_Reason = ''Stopped'', event_Type = ''Normal'', event_Message = ''''\<rparr>"

theorem mem_history_bounded_log_witness:
  "let m = append_events mem_history
             [(''default'', ''a'', example_event 1), (''default'', ''a'', example_event 2),
              (''default'', ''b'', example_event 3), (''default'', ''a'', example_event 4)]
             (NewInMemoryHistory 2)
   in mh_List ''default'' ''a'' m = [example_event 2, example_event 4] \<and>
      mh_List ''default'' ''a'' (mh_Clear ''default'' ''b'' m) = [example_event 2, example_event 4]"
  using mem_history_bounded_log [of "''default''" "''a''"
      "[(''default'', ''a'', example_event 1), (''default'', ''a'', example_event 2),
        (''default'', ''b'', example_event 3), (''default'', ''a'', example_event 4)]"
      "''default''" "''b''" 2]
  by (simp add: history_legal_def Let_def newest_def del: append_events_simps)

end
