(* ===== verification/Redis_History.thy ===== *)
theory Redis_History
  imports History_Store Ref_Redis
begin

text \<open>
  \<open>RedisHistory\<close> of \<open>internal/history/history.go\<close> over an arbitrary Redis server. It keeps the
  contract \<open>history_store\<close>, with event times cut to seconds by their JSON form.
\<close>

section \<open>Operations\<close>

text \<open>\<open>metav1.Time\<close> prints itself with \<open>time.RFC3339\<close>, so the fraction of the second is lost.\<close>

definition to_the_second :: "LifecycleEvent \<Rightarrow> LifecycleEvent" where
  "to_the_second e = e\<lparr>event_Time := event_Time e div Second * Second\<rparr>"

definition history_key :: "string \<Rightarrow> string \<Rightarrow> string" where
  "history_key namespace name = ''history:'' @ namespace @ ''/'' @ name"

definition rh_Append ::
  "'r Redis \<Rightarrow> int \<Rightarrow> string \<Rightarrow> string \<Rightarrow> string \<Rightarrow> string \<Rightarrow> string \<Rightarrow> int \<Rightarrow> 'r \<Rightarrow> 'r" where
  "rh_Append R maxEntries namespace name eventType reason message now r =
     (let event = \<lparr>event_Time = now, event_Reason = reason, event_Type = eventType, event_Message = message\<rparr>;
          k = history_key namespace name
      in rd_exec R [RPush k (REvent (to_the_second event)), RLTrim k (- maxEntries) (- 1)] now r)"

text \<open>\<open>json.Unmarshal\<close> of an item; the document of a cache entry has none of the fields.\<close>

fun decode_event :: "rvalue \<Rightarrow> LifecycleEvent option" where
  "decode_event (REvent ev) = Some ev"
| "decode_event (REntry v c x) =
     Some \<lparr>event_Time = zero_time, event_Reason = '''', event_Type = '''', event_Message = ''''\<rparr>"
| "decode_event (RText s) = None"

definition rh_List ::
  "'r Redis \<Rightarrow> string \<Rightarrow> string \<Rightarrow> int \<Rightarrow> 'r \<Rightarrow> LifecycleEvent list \<times> 'r" where
  "rh_List R namespace name now r =
     (case rd_lrange R (history_key namespace name) 0 (- 1) now r of
        (None, r') \<Rightarrow> ([], r')
      | (Some items, r') \<Rightarrow>
          if length items = 0 then ([], r') else (List.map_filter decode_event items, r'))"

definition rh_Clear :: "'r Redis \<Rightarrow> string \<Rightarrow> string \<Rightarrow> int \<Rightarrow> 'r \<Rightarrow> 'r" where
  "rh_Clear R namespace name now r = rd_exec R [RDel [history_key namespace name]] now r"

definition redis_history :: "'r Redis \<Rightarrow> int \<Rightarrow> 'r HistoryStore" where
  "redis_history R maxEntries =
     \<lparr>hs_Append = rh_Append R maxEntries, hs_List = rh_List R, hs_Clear = rh_Clear R\<rparr>"

text \<open>\<open>NewRedisHistory\<close> caps like \<open>NewInMemoryHistory\<close>.\<close>

definition NewRedisHistory :: "'r Redis \<Rightarrow> int \<Rightarrow> 'r HistoryStore" where
  "NewRedisHistory R maxEntries = redis_history R (if maxEntries \<le> 0 then 1000 else maxEntries)"

lemma NewRedisHistory_simps [simp]:
  "hs_Append (NewRedisHistory R k) = rh_Append R (history_cap k)"
  "hs_List (NewRedisHistory R k) = rh_List R"
  "hs_Clear (NewRedisHistory R k) = rh_Clear R"
  by (simp_all add: NewRedisHistory_def redis_history_def history_cap_def)

section \<open>The contract holds\<close>

text \<open>The events in a list: every item is the document of an event.\<close>

definition events_in :: "rvalue list \<Rightarrow> LifecycleEvent list" where
  "events_in vs = List.map_filter decode_event vs"

definition only_events :: "rvalue list \<Rightarrow> bool" where
  "only_events vs \<longleftrightarrow> (\<forall>v \<in> set vs. decode_event v \<noteq> None)"

lemma events_in_simps [simp]:
  "events_in [] = []"
  "events_in (v # vs) = (case decode_event v of None \<Rightarrow> [] | Some e \<Rightarrow> [e]) @ events_in vs"
  "events_in (vs @ vs') = events_in vs @ events_in vs'"
  by (simp_all add: events_in_def map_filter_def split: option.splits)

lemma drop_events_in: "only_events vs \<Longrightarrow> events_in (drop k vs) = drop k (events_in vs)"
  by (induction vs arbitrary: k) (auto simp: only_events_def drop_Cons' split: option.splits nat.splits)

lemma length_events_in: "only_events vs \<Longrightarrow> length (events_in vs) = length vs"
  by (induction vs) (auto simp: only_events_def)

lemma only_events_append [simp]: "only_events (vs @ vs') \<longleftrightarrow> only_events vs \<and> only_events vs'"
  by (auto simp: only_events_def)

lemma only_events_drop: "only_events vs \<Longrightarrow> only_events (drop k vs)"
  by (auto simp: only_events_def dest: in_set_dropD)

lemma only_events_simps [simp]: "only_events []" "only_events [REvent e]"
  by (simp_all add: only_events_def)

lemma history_key_inject:
  "history_legal ns n \<Longrightarrow> history_legal ns' n' \<Longrightarrow>
   history_key ns n = history_key ns' n' \<longleftrightarrow> ns = ns' \<and> n = n'"
  by (simp add: history_legal_def history_key_def cut_at_separator)

lemma history_key_list [simp]: "list_key (history_key ns n)"
  by (simp add: list_key_def history_key_def)

definition redis_recorded ::
  "('r \<Rightarrow> string \<Rightarrow> rvalue list) \<Rightarrow> 'r \<Rightarrow> string \<Rightarrow> string \<Rightarrow> LifecycleEvent list" where
  "redis_recorded lv r ns n = events_in (lv r (history_key ns n))"

definition redis_history_ok :: "('r \<Rightarrow> string \<Rightarrow> rvalue list) \<Rightarrow> ('r \<Rightarrow> bool) \<Rightarrow> 'r \<Rightarrow> bool" where
  "redis_history_ok lv good r \<longleftrightarrow> good r \<and> (\<forall>ns n. only_events (lv r (history_key ns n)))"

context redis_server
begin

lemma Append_lv:
  "good r \<Longrightarrow> 0 < m \<Longrightarrow>
   lv (rh_Append R m ns n ty re msg t r) = (lv r)(history_key ns n :=
     newest (nat m) (lv r (history_key ns n) @ [REvent (to_the_second
       \<lparr>event_Time = t, event_Reason = re, event_Type = ty, event_Message = msg\<rparr>)]))"
  using ltrim_lv [of _ "history_key ns n" "nat m" t]
  by (simp add: rh_Append_def Let_def exec2 good_exec rpush_lv newest_def)

lemma List_lv:
  "good r \<Longrightarrow> fst (rh_List R ns n t r) = redis_recorded lv r ns n \<and> lv (snd (rh_List R ns n t r)) = lv r \<and>
   good (snd (rh_List R ns n t r))"
  using lrange_result [of r "history_key ns n" t] lrange_lv [of "history_key ns n" 0 "- 1" t r]
    good_lrange [of r "history_key ns n" 0 "- 1" t]
  by (cases "rd_lrange R (history_key ns n) 0 (- 1) t r")
    (auto simp: rh_List_def redis_recorded_def events_in_def)

end

sublocale redis_server \<subseteq> redis_history: history_store "NewRedisHistory R k" "redis_recorded lv" to_the_second
  "nat (history_cap k)" history_legal "redis_history_ok lv good" for k
proof (unfold_locales, goal_cases)
  case (3 r ns n ty re msg t)
  then show ?case
    by (simp add: redis_recorded_def redis_history_ok_def Append_lv newest_def drop_events_in length_events_in)
next
  case (4 r ns n ns' n' ty re msg t)
  then show ?case by (auto simp: redis_recorded_def redis_history_ok_def Append_lv history_key_inject)
next
  case (6 r ns n ns' n' t)
  then show ?case by (auto simp: redis_recorded_def rh_Clear_def del_lv history_key_inject)
next
  case (7 r ns n ty re msg t)
  then have "good (rh_Append R (history_cap k) ns n ty re msg t r)"
    by (simp add: redis_history_ok_def rh_Append_def Let_def exec2 good_exec)
  with 7 show ?case by (simp add: redis_history_ok_def Append_lv newest_def only_events_drop)
qed (auto simp: redis_history_ok_def List_lv redis_recorded_def [abs_def] rh_Clear_def del_lv good_exec)

context redis_server
begin

lemma history_run:
  assumes "good r" and empty: "\<forall>k. lv r k = []"
    and "history_legal ns n" and "\<forall>(ns', n', e) \<in> set es. history_legal ns' n'"
  shows "fst (rh_List R ns n t (append_events (NewRedisHistory R k) es r)) =
    newest (nat (history_cap k)) (map to_the_second (events_of ns n es))"
proof -
  have "redis_history_ok lv good r" using assms by (simp add: redis_history_ok_def)
  moreover have "redis_recorded lv r ns n = []" using empty by (simp add: redis_recorded_def)
  ultimately show ?thesis
    using redis_history.recorded_append_events [of r ns n es k] assms
    by (simp add: List_lv redis_history_ok_def)
qed

end

section \<open>Properties\<close>

text \<open>
  C31. On every Redis server that keeps its manual's promises, after any run of appends for any agents
  \<open>List\<close> of an agent returns the newest \<open>maxEntries\<close> of the events appended for this agent, oldest
  first, each with its time cut to the second.
\<close>

theorem redis_history_bounded_log:
  assumes "redis_server R rv sv lv good" and "good r" and "\<forall>k. lv r k = []"
    and "history_legal ns n" and "\<forall>(ns', n', e) \<in> set es. history_legal ns' n'"
  shows "fst (rh_List R ns n t (append_events (NewRedisHistory R k) es r)) =
    newest (nat (if k \<le> 0 then 1000 else k)) (map to_the_second (events_of ns n es))"
  using redis_server.history_run [OF assms] by (simp add: history_cap_def)

theorem redis_history_bounded_log_witness:
  "fst (rh_List ref_redis ''default'' ''a'' 9 (append_events (NewRedisHistory ref_redis 2)
     [(''default'', ''a'', example_event 1), (''default'', ''a'', example_event (3 * Second + 7)),
      (''default'', ''b'', example_event 3), (''default'', ''a'', example_event 4)] Map.empty)) =
   [example_event (3 * Second), example_event 0]"
proof -
  have "redis_server ref_redis ref_rv ref_sv ref_lv ref_good" by unfold_locales
  from redis_history_bounded_log [OF this, of Map.empty "''default''" "''a''"
      "[(''default'', ''a'', example_event 1), (''default'', ''a'', example_event (3 * Second + 7)),
        (''default'', ''b'', example_event 3), (''default'', ''a'', example_event 4)]" 9 2]
  show ?thesis
    by (simp add: ref_lv_def history_legal_def newest_def to_the_second_def example_event_def
        del: append_events_simps)
qed

end
