(* ===== verification/Kube_Client.thy ===== *)
theory Kube_Client
  imports Agent_Types
begin

text \<open>
  The effects of the program: the Kubernetes client it is given, the clock, the event recorder,
  the goroutines it starts, and the monad in which reconciler, watcher and REST handlers run.

  The cluster is not code of the repository, so it is a parameter: a \<open>Client\<close> is a record of
  functions over an arbitrary cluster state \<open>'k\<close>, one per method and object type the program uses,
  each returning an error or a result and the next cluster state. Nothing is assumed of these
  functions here: they can fail at any call, and \<open>'k\<close> can move on its own between two calls, so
  a theorem over all clients covers every interleaving with other writers. The documented
  behaviour that some theorems need is stated in \<open>Kube_Api\<close>.
\<close>

section \<open>Errors\<close>

text \<open>The API errors the program tells apart, with the text of \<open>Error()\<close>.\<close>

datatype err_reason = NotFound | AlreadyExists | Conflict | OtherReason

datatype kerr = KErr (err_reason: err_reason) (err_msg: string)

abbreviation IsNotFound :: "kerr \<Rightarrow> bool" where "IsNotFound e \<equiv> err_reason e = NotFound"
abbreviation IsAlreadyExists :: "kerr \<Rightarrow> bool" where
  "IsAlreadyExists e \<equiv> err_reason e = AlreadyExists"
abbreviation IsConflict :: "kerr \<Rightarrow> bool" where "IsConflict e \<equiv> err_reason e = Conflict"

text \<open>\<open>fmt.Errorf("prefix%w", err)\<close>: the prefix joins the text, the cause stays recognisable.\<close>

definition wrapf :: "string \<Rightarrow> kerr \<Rightarrow> kerr" where
  "wrapf prefix e = KErr (err_reason e) (prefix @ err_msg e)"

lemma wrapf_simps [simp]:
  "err_reason (wrapf p e) = err_reason e"
  "err_msg (wrapf p e) = p @ err_msg e"
  by (simp_all add: wrapf_def)

section \<open>The client\<close>

type_synonym nn = "string \<times> string" \<comment> \<open>\<open>types.NamespacedName\<close>: namespace and name\<close>

record 'k Client =
  get_agent :: "nn \<Rightarrow> 'k \<Rightarrow> (kerr + Agent) \<times> 'k"
  get_service :: "nn \<Rightarrow> 'k \<Rightarrow> (kerr + Service) \<times> 'k"
  list_agents :: "string option \<Rightarrow> nat option \<Rightarrow> 'k \<Rightarrow> (kerr + Agent list) \<times> 'k"
  list_pods :: "string \<Rightarrow> (string \<times> string) list \<Rightarrow> 'k \<Rightarrow> (kerr + Pod list) \<times> 'k"
  create_agent :: "Agent \<Rightarrow> 'k \<Rightarrow> (kerr + Agent) \<times> 'k"
  create_pod :: "Pod \<Rightarrow> 'k \<Rightarrow> (kerr + Pod) \<times> 'k"
  create_service :: "Service \<Rightarrow> 'k \<Rightarrow> (kerr + Service) \<times> 'k"
  update_agent :: "Agent \<Rightarrow> 'k \<Rightarrow> (kerr + Agent) \<times> 'k"
  patch_agent :: "Agent \<Rightarrow> Agent \<Rightarrow> 'k \<Rightarrow> (kerr + Agent) \<times> 'k"
  patch_agent_status :: "Agent \<Rightarrow> Agent \<Rightarrow> 'k \<Rightarrow> (kerr + Agent) \<times> 'k"
  patch_service :: "Service \<Rightarrow> Service \<Rightarrow> 'k \<Rightarrow> (kerr + Service) \<times> 'k"
  delete_agent :: "Agent \<Rightarrow> 'k \<Rightarrow> (kerr + unit) \<times> 'k"
  delete_pod :: "Pod \<Rightarrow> 'k \<Rightarrow> (kerr + unit) \<times> 'k"
  delete_service :: "Service \<Rightarrow> 'k \<Rightarrow> (kerr + unit) \<times> 'k"

text \<open>
  The requests a run sends, in order, are recorded with their outcome. A patch is recorded with
  both objects it is computed from: the base given to \<open>client.MergeFrom\<close> and the modified object.
\<close>

datatype kcall =
    GetAgent nn
  | GetService nn
  | ListAgents "string option" "nat option"
  | ListPods string "(string \<times> string) list"
  | CreateAgent Agent
  | CreatePod Pod
  | CreateService Service
  | UpdateAgent Agent
  | PatchAgent Agent Agent
  | PatchAgentStatus Agent Agent
  | PatchService Service Service
  | DeleteAgent Agent
  | DeletePod Pod
  | DeleteService Service
  | SleepFor int

datatype outcome = Done | Refused kerr

fun outcome_of :: "kerr + 'a \<Rightarrow> outcome" where
  "outcome_of (Inl e) = Refused e"
| "outcome_of (Inr _) = Done"

section \<open>The state of a run\<close>

text \<open>An event handed to the recorder.\<close>

record K8sEvent =
  evt_Object :: nn
  evt_Type :: string
  evt_Reason :: string
  evt_Message :: string

abbreviation EventTypeNormal :: string where "EventTypeNormal \<equiv> ''Normal''"
abbreviation EventTypeWarning :: string where "EventTypeWarning \<equiv> ''Warning''"

text \<open>The arguments of a started \<open>resurrectAgentAsync\<close> goroutine.\<close>

record Resurrection =
  res_namespace :: string
  res_name :: string
  res_originalUID :: string
  res_spec :: AgentSpec
  res_labels :: gomap
  res_annotations :: gomap

text \<open>
  \<open>clock n\<close> is what the \<open>n\<close>-th call of \<open>time.Now()\<close> from here on returns; nothing is assumed of
  it, not even that it grows. \<open>hist\<close> and \<open>cach\<close> are the states of the history and cache stores.
\<close>

record ('k, 'h, 'c) world =
  kube :: 'k
  hist :: 'h
  cach :: 'c
  clock :: "nat \<Rightarrow> int"
  calls :: "(kcall \<times> outcome) list"
  evts :: "K8sEvent list"
  spawned :: "Resurrection list"

type_synonym ('k, 'h, 'c, 'a) prog = "(('k, 'h, 'c) world, 'a) state"

abbreviation ret :: "'a \<Rightarrow> ('k, 'h, 'c, 'a) prog" where "ret \<equiv> State_Monad.return"

definition request :: "kcall \<Rightarrow> ('k \<Rightarrow> (kerr + 'a) \<times> 'k) \<Rightarrow> ('k, 'h, 'c, kerr + 'a) prog" where
  "request q f = State (\<lambda>w. (fst (f (kube w)),
     w\<lparr>kube := snd (f (kube w)), calls := calls w @ [(q, outcome_of (fst (f (kube w))))]\<rparr>))"

definition Now :: "('k, 'h, 'c, int) prog" where
  "Now = State (\<lambda>w. (clock w 0, w\<lparr>clock := \<lambda>n. clock w (Suc n)\<rparr>))"

definition Sleep :: "int \<Rightarrow> ('k, 'h, 'c, unit) prog" where
  "Sleep d = State (\<lambda>w. ((), w\<lparr>calls := calls w @ [(SleepFor d, Done)]\<rparr>))"

definition emit_event :: "K8sEvent \<Rightarrow> ('k, 'h, 'c, unit) prog" where
  "emit_event e = State (\<lambda>w. ((), w\<lparr>evts := evts w @ [e]\<rparr>))"

definition spawn :: "Resurrection \<Rightarrow> ('k, 'h, 'c, unit) prog" where
  "spawn r = State (\<lambda>w. ((), w\<lparr>spawned := spawned w @ [r]\<rparr>))"

definition on_hist :: "('h \<Rightarrow> 'a \<times> 'h) \<Rightarrow> ('k, 'h, 'c, 'a) prog" where
  "on_hist f = State (\<lambda>w. (fst (f (hist w)), w\<lparr>hist := snd (f (hist w))\<rparr>))"

definition on_cach :: "('c \<Rightarrow> 'a \<times> 'c) \<Rightarrow> ('k, 'h, 'c, 'a) prog" where
  "on_cach f = State (\<lambda>w. (fst (f (cach w)), w\<lparr>cach := snd (f (cach w))\<rparr>))"

lemma run_prims [monad_simps]:
  "run_state (request q f) w = (fst (f (kube w)),
     w\<lparr>kube := snd (f (kube w)), calls := calls w @ [(q, outcome_of (fst (f (kube w))))]\<rparr>)"
  "run_state Now w = (clock w 0, w\<lparr>clock := \<lambda>n. clock w (Suc n)\<rparr>)"
  "run_state (Sleep d) w = ((), w\<lparr>calls := calls w @ [(SleepFor d, Done)]\<rparr>)"
  "run_state (emit_event e) w = ((), w\<lparr>evts := evts w @ [e]\<rparr>)"
  "run_state (spawn r) w = ((), w\<lparr>spawned := spawned w @ [r]\<rparr>)"
  "run_state (on_hist g) w = (fst (g (hist w)), w\<lparr>hist := snd (g (hist w))\<rparr>)"
  "run_state (on_cach h) w = (fst (h (cach w)), w\<lparr>cach := snd (h (cach w))\<rparr>)"
  by (simp_all add: request_def Now_def Sleep_def emit_event_def spawn_def on_hist_def on_cach_def)

text \<open>The client's methods as actions.\<close>

definition Get_agent :: "'k Client \<Rightarrow> nn \<Rightarrow> ('k, 'h, 'c, kerr + Agent) prog" where
  "Get_agent c k = request (GetAgent k) (get_agent c k)"
definition Get_service :: "'k Client \<Rightarrow> nn \<Rightarrow> ('k, 'h, 'c, kerr + Service) prog" where
  "Get_service c k = request (GetService k) (get_service c k)"
definition List_agents :: "'k Client \<Rightarrow> string option \<Rightarrow> nat option \<Rightarrow> ('k, 'h, 'c, kerr + Agent list) prog" where
  "List_agents c ns lm = request (ListAgents ns lm) (list_agents c ns lm)"
definition List_pods :: "'k Client \<Rightarrow> string \<Rightarrow> (string \<times> string) list \<Rightarrow> ('k, 'h, 'c, kerr + Pod list) prog" where
  "List_pods c ns sel = request (ListPods ns sel) (list_pods c ns sel)"
definition Create_agent :: "'k Client \<Rightarrow> Agent \<Rightarrow> ('k, 'h, 'c, kerr + Agent) prog" where
  "Create_agent c a = request (CreateAgent a) (create_agent c a)"
definition Create_pod :: "'k Client \<Rightarrow> Pod \<Rightarrow> ('k, 'h, 'c, kerr + Pod) prog" where
  "Create_pod c p = request (CreatePod p) (create_pod c p)"
definition Create_service :: "'k Client \<Rightarrow> Service \<Rightarrow> ('k, 'h, 'c, kerr + Service) prog" where
  "Create_service c s = request (CreateService s) (create_service c s)"
definition Update_agent :: "'k Client \<Rightarrow> Agent \<Rightarrow> ('k, 'h, 'c, kerr + Agent) prog" where
  "Update_agent c a = request (UpdateAgent a) (update_agent c a)"
definition Patch_agent :: "'k Client \<Rightarrow> Agent \<Rightarrow> Agent \<Rightarrow> ('k, 'h, 'c, kerr + Agent) prog" where
  "Patch_agent c base a = request (PatchAgent base a) (patch_agent c base a)"
definition Patch_status :: "'k Client \<Rightarrow> Agent \<Rightarrow> Agent \<Rightarrow> ('k, 'h, 'c, kerr + Agent) prog" where
  "Patch_status c base a = request (PatchAgentStatus base a) (patch_agent_status c base a)"
definition Patch_service :: "'k Client \<Rightarrow> Service \<Rightarrow> Service \<Rightarrow> ('k, 'h, 'c, kerr + Service) prog" where
  "Patch_service c base s = request (PatchService base s) (patch_service c base s)"
definition Delete_agent :: "'k Client \<Rightarrow> Agent \<Rightarrow> ('k, 'h, 'c, kerr + unit) prog" where
  "Delete_agent c a = request (DeleteAgent a) (delete_agent c a)"
definition Delete_pod :: "'k Client \<Rightarrow> Pod \<Rightarrow> ('k, 'h, 'c, kerr + unit) prog" where
  "Delete_pod c p = request (DeletePod p) (delete_pod c p)"
definition Delete_service :: "'k Client \<Rightarrow> Service \<Rightarrow> ('k, 'h, 'c, kerr + unit) prog" where
  "Delete_service c s = request (DeleteService s) (delete_service c s)"

lemmas client_defs [monad_simps] =
  Get_agent_def Get_service_def List_agents_def List_pods_def Create_agent_def Create_pod_def
  Create_service_def Update_agent_def Patch_agent_def Patch_status_def Patch_service_def
  Delete_agent_def Delete_pod_def Delete_service_def

section \<open>What a program can send\<close>

text \<open>
  \<open>emits P m\<close>: from any state, \<open>m\<close> only adds to the record of requests, and every request it
  adds satisfies \<open>P\<close>. The rules are compositional, so "this handler never sends \<dots>" is proved by
  the introduction rules alone, for every client.
\<close>

definition emits :: "(kcall \<Rightarrow> bool) \<Rightarrow> ('k, 'h, 'c, 'a) prog \<Rightarrow> bool" where
  "emits P m \<longleftrightarrow> (\<forall>w. \<exists>l. calls (snd (run_state m w)) = calls w @ l \<and> (\<forall>x \<in> set l. P (fst x)))"

lemma emitsD:
  "emits P m \<Longrightarrow> \<exists>l. calls (snd (run_state m w)) = calls w @ l \<and> (\<forall>x \<in> set l. P (fst x))"
  by (simp add: emits_def)

lemma emits_ret [emits_intros]: "emits P (State_Monad.return x)"
  by (simp add: emits_def)

lemma emits_bind [emits_intros]:
  assumes m: "emits P m" and f: "\<And>a. emits P (f a)"
  shows "emits P (State_Monad.bind m f)"
  unfolding emits_def
proof
  fix w
  obtain a w1 where r: "run_state m w = (a, w1)" by fastforce
  obtain l1 where l1: "calls w1 = calls w @ l1" "\<forall>x \<in> set l1. P (fst x)"
    using emitsD [OF m, of w] r by auto
  obtain l2 where "calls (snd (run_state (f a) w1)) = calls w1 @ l2" "\<forall>x \<in> set l2. P (fst x)"
    using emitsD [OF f] by blast
  with l1 r show "\<exists>l. calls (snd (run_state (State_Monad.bind m f) w)) = calls w @ l \<and>
      (\<forall>x \<in> set l. P (fst x))"
    by (intro exI [of _ "l1 @ l2"]) auto
qed

lemma emits_request [emits_intros]: "P q \<Longrightarrow> emits P (request q f)"
  by (simp add: emits_def monad_simps)

lemma emits_Sleep [emits_intros]: "P (SleepFor d) \<Longrightarrow> emits P (Sleep d)"
  by (simp add: emits_def monad_simps)

lemma emits_silent [emits_intros]:
  "emits P Now" "emits P (emit_event e)" "emits P (spawn r)" "emits P (on_hist g)"
  "emits P (on_cach h)"
  by (simp_all add: emits_def monad_simps)

lemma emits_client [emits_intros]:
  "P (GetAgent k) \<Longrightarrow> emits P (Get_agent c k)"
  "P (GetService k) \<Longrightarrow> emits P (Get_service c k)"
  "P (ListAgents ns lm) \<Longrightarrow> emits P (List_agents c ns lm)"
  "P (ListPods n sel) \<Longrightarrow> emits P (List_pods c n sel)"
  "P (CreateAgent a) \<Longrightarrow> emits P (Create_agent c a)"
  "P (CreatePod p) \<Longrightarrow> emits P (Create_pod c p)"
  "P (CreateService s) \<Longrightarrow> emits P (Create_service c s)"
  "P (UpdateAgent a) \<Longrightarrow> emits P (Update_agent c a)"
  "P (PatchAgent b a) \<Longrightarrow> emits P (Patch_agent c b a)"
  "P (PatchAgentStatus b a) \<Longrightarrow> emits P (Patch_status c b a)"
  "P (PatchService b' s) \<Longrightarrow> emits P (Patch_service c b' s)"
  "P (DeleteAgent a) \<Longrightarrow> emits P (Delete_agent c a)"
  "P (DeletePod p) \<Longrightarrow> emits P (Delete_pod c p)"
  "P (DeleteService s) \<Longrightarrow> emits P (Delete_service c s)"
  by (simp_all add: client_defs emits_request)

lemma emits_if [emits_intros]:
  "(b \<Longrightarrow> emits P m) \<Longrightarrow> (\<not> b \<Longrightarrow> emits P n) \<Longrightarrow> emits P (if b then m else n)"
  by simp

lemma emits_sum [emits_intros]:
  "(\<And>e. x = Inl e \<Longrightarrow> emits P (f e)) \<Longrightarrow> (\<And>a. x = Inr a \<Longrightarrow> emits P (g a)) \<Longrightarrow>
   emits P (case x of Inl e \<Rightarrow> f e | Inr a \<Rightarrow> g a)"
  by (cases x) auto

lemma emits_option [emits_intros]:
  "(x = None \<Longrightarrow> emits P m) \<Longrightarrow> (\<And>a. x = Some a \<Longrightarrow> emits P (g a)) \<Longrightarrow>
   emits P (case x of None \<Rightarrow> m | Some a \<Rightarrow> g a)"
  by (cases x) auto

lemma emits_prod [emits_intros]:
  "(\<And>a b. x = (a, b) \<Longrightarrow> emits P (f a b)) \<Longrightarrow> emits P (case x of (a, b) \<Rightarrow> f a b)"
  by (cases x) auto

lemma emits_mono: "emits P m \<Longrightarrow> (\<And>q. P q \<Longrightarrow> Q q) \<Longrightarrow> emits Q m"
  unfolding emits_def by meson

section \<open>Traces\<close>

text \<open>The requests of one run, with their outcomes.\<close>

definition sent :: "('k, 'h, 'c, 'a) prog \<Rightarrow> ('k, 'h, 'c) world \<Rightarrow> (kcall \<times> outcome) list" where
  "sent m w = calls (snd (run_state m (w\<lparr>calls := []\<rparr>)))"

lemma emits_sent: "emits P m \<Longrightarrow> x \<in> set (sent m w) \<Longrightarrow> P (fst x)"
  using emitsD [of P m "w\<lparr>calls := []\<rparr>"] by (auto simp: sent_def)

text \<open>A program that starts no goroutine.\<close>

definition spawns_nothing :: "('k, 'h, 'c, 'a) prog \<Rightarrow> bool" where
  "spawns_nothing m \<longleftrightarrow> (\<forall>w. spawned (snd (run_state m w)) = spawned w)"

named_theorems quiet_intros "rules for programs that start no goroutine"

lemma quiet_ret [quiet_intros]: "spawns_nothing (State_Monad.return x)"
  by (simp add: spawns_nothing_def)

lemma quiet_bind [quiet_intros]:
  "spawns_nothing m \<Longrightarrow> (\<And>a. spawns_nothing (f a)) \<Longrightarrow> spawns_nothing (State_Monad.bind m f)"
  by (simp add: spawns_nothing_def split: prod.splits) (metis prod.collapse snd_conv)

lemma quiet_prims [quiet_intros]:
  "spawns_nothing (request q f)" "spawns_nothing Now" "spawns_nothing (Sleep d)"
  "spawns_nothing (emit_event e)" "spawns_nothing (on_hist g)" "spawns_nothing (on_cach h)"
  by (simp_all add: spawns_nothing_def monad_simps)

lemma quiet_if [quiet_intros]:
  "(b \<Longrightarrow> spawns_nothing m) \<Longrightarrow> (\<not> b \<Longrightarrow> spawns_nothing n) \<Longrightarrow> spawns_nothing (if b then m else n)"
  by simp

lemma quiet_sum [quiet_intros]:
  "(\<And>e. x = Inl e \<Longrightarrow> spawns_nothing (f e)) \<Longrightarrow> (\<And>a. x = Inr a \<Longrightarrow> spawns_nothing (g a)) \<Longrightarrow>
   spawns_nothing (case x of Inl e \<Rightarrow> f e | Inr a \<Rightarrow> g a)"
  by (cases x) auto

lemma quiet_option [quiet_intros]:
  "(x = None \<Longrightarrow> spawns_nothing m) \<Longrightarrow> (\<And>a. x = Some a \<Longrightarrow> spawns_nothing (g a)) \<Longrightarrow>
   spawns_nothing (case x of None \<Rightarrow> m | Some a \<Rightarrow> g a)"
  by (cases x) auto

lemma quiet_prod [quiet_intros]:
  "(\<And>a b. x = (a, b) \<Longrightarrow> spawns_nothing (f a b)) \<Longrightarrow> spawns_nothing (case x of (a, b) \<Rightarrow> f a b)"
  by (cases x) auto

end
