(* ===== verification/Kube_Api.thy ===== *)
theory Kube_Api
  imports Kube_Client
begin

text \<open>
  The documented behaviour of the Kubernetes API server, as the locale \<open>kube_api\<close> over an arbitrary
  client. It describes a server that answers and that nobody else writes to during a run; theorems
  about refusals and concurrent writers do not assume it.
\<close>

section \<open>Merge patches\<close>

text \<open>
  \<open>client.MergeFrom(base)\<close> sends the JSON merge patch from \<open>base\<close> to the modified object: a field
  that the two have in common is not in the patch and keeps its value on the server, a changed field
  gets the value of the modified object. Maps are patched key by key, lists as a whole.
\<close>

definition merged :: "'a \<Rightarrow> 'a \<Rightarrow> 'a \<Rightarrow> 'a" where
  "merged base modified current = (if base = modified then current else modified)"

lemma merged_simps [simp]:
  "merged b b s = s" "merged b m b = m" "merged b m m = m" "b \<noteq> m \<Longrightarrow> merged b m s = m"
  by (simp_all add: merged_def)

definition merged_map :: "gomap \<Rightarrow> gomap \<Rightarrow> gomap \<Rightarrow> gomap" where
  "merged_map base modified current =
     (if base = modified then current
      else Some (\<lambda>k. merged (entries base k) (entries modified k) (entries current k)))"

lemma merged_map_simps [simp]:
  "merged_map b b s = s"
  "entries (merged_map b m s) k = merged (entries b k) (entries m k) (entries s k)"
  by (auto simp: merged_map_def)

definition merged_spec :: "AgentSpec \<Rightarrow> AgentSpec \<Rightarrow> AgentSpec \<Rightarrow> AgentSpec" where
  "merged_spec b m s =
     \<lparr>spec_Image = merged (spec_Image b) (spec_Image m) (spec_Image s),
      spec_ImagePullPolicy = merged (spec_ImagePullPolicy b) (spec_ImagePullPolicy m) (spec_ImagePullPolicy s),
      spec_ImagePullSecrets = merged (spec_ImagePullSecrets b) (spec_ImagePullSecrets m) (spec_ImagePullSecrets s),
      spec_Env = merged (spec_Env b) (spec_Env m) (spec_Env s),
      spec_EnvFrom = merged (spec_EnvFrom b) (spec_EnvFrom m) (spec_EnvFrom s),
      spec_Resources = merged (spec_Resources b) (spec_Resources m) (spec_Resources s),
      spec_ServiceAccountName =
        merged (spec_ServiceAccountName b) (spec_ServiceAccountName m) (spec_ServiceAccountName s),
      spec_Command = merged (spec_Command b) (spec_Command m) (spec_Command s),
      spec_Args = merged (spec_Args b) (spec_Args m) (spec_Args s),
      spec_Volumes = merged (spec_Volumes b) (spec_Volumes m) (spec_Volumes s),
      spec_VolumeMounts = merged (spec_VolumeMounts b) (spec_VolumeMounts m) (spec_VolumeMounts s),
      spec_RestartPolicy = merged (spec_RestartPolicy b) (spec_RestartPolicy m) (spec_RestartPolicy s),
      spec_PodLabels = merged_map (spec_PodLabels b) (spec_PodLabels m) (spec_PodLabels s),
      spec_PodAnnotations = merged_map (spec_PodAnnotations b) (spec_PodAnnotations m) (spec_PodAnnotations s),
      spec_Paused = merged (spec_Paused b) (spec_Paused m) (spec_Paused s),
      spec_SelfHealingDisabled =
        merged (spec_SelfHealingDisabled b) (spec_SelfHealingDisabled m) (spec_SelfHealingDisabled s),
      spec_ServicePort = merged (spec_ServicePort b) (spec_ServicePort m) (spec_ServicePort s),
      spec_ServiceProtocol = merged (spec_ServiceProtocol b) (spec_ServiceProtocol m) (spec_ServiceProtocol s),
      spec_IdleTimeout = merged (spec_IdleTimeout b) (spec_IdleTimeout m) (spec_IdleTimeout s)\<rparr>"

definition merged_status :: "AgentStatus \<Rightarrow> AgentStatus \<Rightarrow> AgentStatus \<Rightarrow> AgentStatus" where
  "merged_status b m s =
     \<lparr>status_Phase = merged (status_Phase b) (status_Phase m) (status_Phase s),
      status_PodName = merged (status_PodName b) (status_PodName m) (status_PodName s),
      status_PodIP = merged (status_PodIP b) (status_PodIP m) (status_PodIP s),
      status_Message = merged (status_Message b) (status_Message m) (status_Message s),
      status_ObservedGeneration =
        merged (status_ObservedGeneration b) (status_ObservedGeneration m) (status_ObservedGeneration s),
      status_LastUpdated = merged (status_LastUpdated b) (status_LastUpdated m) (status_LastUpdated s),
      status_Conditions = merged (status_Conditions b) (status_Conditions m) (status_Conditions s),
      status_RestoredAt = merged (status_RestoredAt b) (status_RestoredAt m) (status_RestoredAt s),
      status_RestoredFrom = merged (status_RestoredFrom b) (status_RestoredFrom m) (status_RestoredFrom s),
      status_ServiceName = merged (status_ServiceName b) (status_ServiceName m) (status_ServiceName s)\<rparr>"

lemma merged_spec_same [simp]: "merged_spec b b s = s"
  by (simp add: merged_spec_def)

lemma merged_spec_onto_base:
  "spec_PodLabels m = spec_PodLabels b \<Longrightarrow> spec_PodAnnotations m = spec_PodAnnotations b \<Longrightarrow> merged_spec b m b = m"
  by (simp add: merged_spec_def)

lemma merged_status_same [simp]: "merged_status b b s = s" "merged_status b m b = m"
  by (simp_all add: merged_status_def)

text \<open>
  What a patch of an agent leaves on the server: labels, annotations and spec are merged, the status
  is a subresource and stays, and the generation moves only with the spec.
\<close>

definition patched_agent :: "Agent \<Rightarrow> Agent \<Rightarrow> Agent \<Rightarrow> Agent" where
  "patched_agent b m s =
     (let spec = merged_spec (agent_Spec b) (agent_Spec m) (agent_Spec s)
      in \<lparr>agent_Meta = (agent_Meta s)
            \<lparr>meta_Labels := merged_map (meta_Labels (agent_Meta b)) (meta_Labels (agent_Meta m)) (meta_Labels (agent_Meta s)),
             meta_Annotations := merged_map (agent_Annotations b) (agent_Annotations m) (agent_Annotations s),
             meta_Generation := (if spec = agent_Spec s then agent_Generation s else agent_Generation s + 1)\<rparr>,
          agent_Spec = spec, agent_Status = agent_Status s\<rparr>)"

definition patched_status :: "Agent \<Rightarrow> Agent \<Rightarrow> Agent \<Rightarrow> Agent" where
  "patched_status b m s = s\<lparr>agent_Status := merged_status (agent_Status b) (agent_Status m) (agent_Status s)\<rparr>"

lemma patched_simps [simp]:
  "agent_Status (patched_agent b m s) = agent_Status s"
  "agent_Spec (patched_agent b m s) = merged_spec (agent_Spec b) (agent_Spec m) (agent_Spec s)"
  "agent_Name (patched_agent b m s) = agent_Name s"
  "agent_Namespace (patched_agent b m s) = agent_Namespace s"
  "meta_DeletionTimestamp (agent_Meta (patched_agent b m s)) = meta_DeletionTimestamp (agent_Meta s)"
  "meta_Finalizers (agent_Meta (patched_agent b m s)) = meta_Finalizers (agent_Meta s)"
  "meta_UID (agent_Meta (patched_agent b m s)) = meta_UID (agent_Meta s)"
  "agent_Meta (patched_status b m s) = agent_Meta s"
  "agent_Spec (patched_status b m s) = agent_Spec s"
  "agent_Status (patched_status b m s) = merged_status (agent_Status b) (agent_Status m) (agent_Status s)"
  by (simp_all add: patched_agent_def patched_status_def Let_def)

lemma patched_agent_generation:
  "agent_Spec b = agent_Spec m \<Longrightarrow> agent_Generation (patched_agent b m s) = agent_Generation s"
  by (simp add: patched_agent_def)

definition matches :: "(string \<times> string) list \<Rightarrow> gomap \<Rightarrow> bool" where
  "matches sel labels \<longleftrightarrow> (\<forall>(k, v) \<in> set sel. entries labels k = Some v)"

definition agent_key :: "Agent \<Rightarrow> nn" where
  "agent_key a = (agent_Namespace a, agent_Name a)"

section \<open>The server\<close>

text \<open>
  \<open>agents k\<close>, \<open>pods k\<close> and \<open>services k\<close> are the stored objects in state \<open>k\<close>. Deleting an agent
  that has finalizers only sets its deletion timestamp; an update that leaves such an agent
  without finalizers removes it. A deleted pod disappears or stays on as terminating.
\<close>

locale kube_api =
  fixes C :: "'k Client"
    and agents :: "'k \<Rightarrow> nn \<Rightarrow> Agent option"
    and pods :: "'k \<Rightarrow> Pod set"
    and services :: "'k \<Rightarrow> nn \<Rightarrow> Service option"
  assumes agents_key: "agents k n = Some a \<Longrightarrow> agent_key a = n"
    and get_agent_found: "agents k n = Some a \<Longrightarrow> get_agent C n k = (Inr a, k)"
    and get_agent_missing: "agents k n = None \<Longrightarrow> \<exists>m. get_agent C n k = (Inl (KErr NotFound m), k)"
    and get_service_found: "services k n = Some svc \<Longrightarrow> get_service C n k = (Inr svc, k)"
    and get_service_missing: "services k n = None \<Longrightarrow> \<exists>m. get_service C n k = (Inl (KErr NotFound m), k)"
    and list_agents_all: "\<exists>as. list_agents C None None k = (Inr as, k) \<and>
      set as = {a. agents k (agent_key a) = Some a} \<and> distinct (map agent_key as)"
    and list_pods_matching: "\<exists>ps. list_pods C ns sel k = (Inr ps, k) \<and>
      set ps = {p \<in> pods k. meta_Namespace (pod_Meta p) = ns \<and> matches sel (pod_Labels p)}"
    and create_pod_fresh: "meta_Name (pod_Meta p) = '''' \<Longrightarrow> meta_GenerateName (pod_Meta p) \<noteq> '''' \<Longrightarrow>
      meta_DeletionTimestamp (pod_Meta p) = None \<Longrightarrow>
      \<exists>p' k'. create_pod C p k = (Inr p', k') \<and> p' \<notin> pods k \<and> pods k' = insert p' (pods k) \<and>
        meta_Namespace (pod_Meta p') = meta_Namespace (pod_Meta p) \<and> pod_Labels p' = pod_Labels p \<and>
        pod_Annotations p' = pod_Annotations p \<and> IsZero (meta_DeletionTimestamp (pod_Meta p')) \<and>
        pod_Containers p' = pod_Containers p \<and> agents k' = agents k \<and> services k' = services k"
    and delete_pod_there: "p \<in> pods k \<Longrightarrow>
      \<exists>k' rest. delete_pod C p k = (Inr (), k') \<and> pods k' = pods k - {p} \<union> rest \<and>
        (\<forall>q \<in> rest. \<not> IsZero (meta_DeletionTimestamp (pod_Meta q))) \<and>
        agents k' = agents k \<and> services k' = services k"
    and patch_status_there: "agents k (agent_key m) = Some s \<Longrightarrow>
      \<exists>k'. patch_agent_status C b m k = (Inr (patched_status b m s), k') \<and>
        agents k' = (agents k)(agent_key m \<mapsto> patched_status b m s) \<and> pods k' = pods k \<and>
        services k' = services k"
    and patch_agent_there: "agents k (agent_key m) = Some s \<Longrightarrow>
      \<exists>k'. patch_agent C b m k = (Inr (patched_agent b m s), k') \<and>
        agents k' = (agents k)(agent_key m \<mapsto> patched_agent b m s) \<and> pods k' = pods k \<and>
        services k' = services k"
    and delete_agent_there: "agents k (agent_key a) = Some s \<Longrightarrow>
      \<exists>k' t. delete_agent C a k = (Inr (), k') \<and> \<not> IsZero (Some t) \<and> pods k' = pods k \<and>
        agents k' = (agents k)(agent_key a :=
          if meta_Finalizers (agent_Meta s) = [] then None
          else Some (s\<lparr>agent_Meta := (agent_Meta s)\<lparr>meta_DeletionTimestamp := Some t\<rparr>\<rparr>)) \<and>
        services k' = services k"
    and service_writes: "\<And>s. agents (snd (create_service C s k)) = agents k"
      "\<And>s. pods (snd (create_service C s k)) = pods k"
      "\<And>b s. agents (snd (patch_service C b s k)) = agents k"
      "\<And>b s. pods (snd (patch_service C b s k)) = pods k"
      "\<And>s. agents (snd (delete_service C s k)) = agents k"
      "\<And>s. pods (snd (delete_service C s k)) = pods k"
begin

lemma get_agent_reads:
  "snd (get_agent C n k) = k"
  "get_agent C n k = (case agents k n of Some a \<Rightarrow> (Inr a, k) | None \<Rightarrow> get_agent C n k)"
proof -
  show *: "get_agent C n k = (case agents k n of Some a \<Rightarrow> (Inr a, k) | None \<Rightarrow> get_agent C n k)"
    by (cases "agents k n") (simp_all add: get_agent_found)
  show "snd (get_agent C n k) = k"
    using get_agent_missing [of k n] get_agent_found [of k n] by (cases "agents k n") auto
qed

end

end
