(* ===== verification/Ref_Kube.thy ===== *)
theory Ref_Kube
  imports Kube_Api "HOL-Library.AList"
begin

text \<open>
  An executable API server with one writer. It shows that the laws of \<open>kube_api\<close> can hold, and the
  witnesses run the program against it. Its clock is the number of deletions so far.
\<close>

record cluster =
  cl_agents :: "(nn \<times> Agent) list"
  cl_pods :: "Pod list"
  cl_services :: "(nn \<times> Service) list"
  cl_time :: nat

definition empty_cluster :: cluster where
  "empty_cluster = \<lparr>cl_agents = [], cl_pods = [], cl_services = [], cl_time = 0\<rparr>"

text \<open>Objects are stored under their key; the name and namespace inside are those of the key.\<close>

definition keyed :: "nn \<Rightarrow> Agent \<Rightarrow> Agent" where
  "keyed n a = a\<lparr>agent_Meta := (agent_Meta a)\<lparr>meta_Namespace := fst n, meta_Name := snd n\<rparr>\<rparr>"

definition ref_agents :: "cluster \<Rightarrow> nn \<Rightarrow> Agent option" where
  "ref_agents k n = map_option (keyed n) (map_of (cl_agents k) n)"

definition ref_services :: "cluster \<Rightarrow> nn \<Rightarrow> Service option" where
  "ref_services k = map_of (cl_services k)"

definition ref_pods :: "cluster \<Rightarrow> Pod set" where
  "ref_pods k = set (cl_pods k)"

definition no_such :: "kerr" where "no_such = KErr NotFound ''not found''"
definition exists_already :: "kerr" where "exists_already = KErr AlreadyExists ''already exists''"

definition put_agent :: "nn \<Rightarrow> Agent \<Rightarrow> cluster \<Rightarrow> cluster" where
  "put_agent n a k = k\<lparr>cl_agents := AList.update n a (cl_agents k)\<rparr>"

definition drop_agent :: "nn \<Rightarrow> cluster \<Rightarrow> cluster" where
  "drop_agent n k = k\<lparr>cl_agents := AList.delete n (cl_agents k)\<rparr>"

definition put_service :: "nn \<Rightarrow> Service \<Rightarrow> cluster \<Rightarrow> cluster" where
  "put_service n s k = k\<lparr>cl_services := AList.update n s (cl_services k)\<rparr>"

definition service_key :: "Service \<Rightarrow> nn" where
  "service_key s = (meta_Namespace (svc_Meta s), meta_Name (svc_Meta s))"

text \<open>A generated name is longer than every name in use.\<close>

definition fresh_name :: "Pod list \<Rightarrow> string \<Rightarrow> string" where
  "fresh_name ps gen = gen @ replicate (Suc (sum_list (map (\<lambda>p. length (pod_Name p)) ps))) (CHR ''x'')"

definition named_pod :: "Pod list \<Rightarrow> Pod \<Rightarrow> Pod" where
  "named_pod ps p =
     (if pod_Name p = '''' then p\<lparr>pod_Meta := (pod_Meta p)\<lparr>meta_Name := fresh_name ps (meta_GenerateName (pod_Meta p))\<rparr>,
        pod_Phase := ''Pending''\<rparr> else p\<lparr>pod_Phase := ''Pending''\<rparr>)"

definition created_agent :: "nat \<Rightarrow> Agent \<Rightarrow> Agent" where
  "created_agent t a = a\<lparr>agent_Meta := (agent_Meta a)\<lparr>meta_UID := ''uid-'' @ nat_str t, meta_Generation := 1\<rparr>,
     agent_Status := empty_status\<rparr>"

text \<open>An update replaces metadata and spec, not the status.\<close>

definition updated_agent :: "Agent \<Rightarrow> Agent \<Rightarrow> Agent" where
  "updated_agent a s = a\<lparr>agent_Status := agent_Status s, agent_Meta := (agent_Meta a)
     \<lparr>meta_UID := meta_UID (agent_Meta s), meta_DeletionTimestamp := meta_DeletionTimestamp (agent_Meta s),
      meta_Generation := (if agent_Spec a = agent_Spec s then agent_Generation s else agent_Generation s + 1)\<rparr>\<rparr>"

fun bounded :: "nat option \<Rightarrow> 'a list \<Rightarrow> 'a list" where
  "bounded None xs = xs"
| "bounded (Some n) xs = take n xs"

definition ref_kube :: "cluster Client" where
  "ref_kube =
     \<lparr>get_agent = (\<lambda>n k. (case ref_agents k n of None \<Rightarrow> Inl no_such | Some a \<Rightarrow> Inr a, k)),
      get_service = (\<lambda>n k. (case ref_services k n of None \<Rightarrow> Inl no_such | Some s \<Rightarrow> Inr s, k)),
      list_agents = (\<lambda>ns lm k. (Inr (bounded lm (List.map_filter (ref_agents k)
        (filter (\<lambda>n. case ns of None \<Rightarrow> True | Some x \<Rightarrow> fst n = x) (remdups (map fst (cl_agents k)))))), k)),
      list_pods = (\<lambda>ns sel k. (Inr (filter (\<lambda>p. meta_Namespace (pod_Meta p) = ns \<and>
        matches sel (pod_Labels p)) (cl_pods k)), k)),
      create_agent = (\<lambda>a k. if ref_agents k (agent_key a) \<noteq> None then (Inl exists_already, k)
        else let a' = created_agent (cl_time k) a
             in (Inr a', (put_agent (agent_key a) a' k)\<lparr>cl_time := Suc (cl_time k)\<rparr>)),
      create_pod = (\<lambda>p k. let p' = named_pod (cl_pods k) p
        in if p' \<in> set (cl_pods k) then (Inl exists_already, k)
           else (Inr p', k\<lparr>cl_pods := cl_pods k @ [p']\<rparr>)),
      create_service = (\<lambda>s k. if ref_services k (service_key s) \<noteq> None then (Inl exists_already, k)
        else (Inr s, put_service (service_key s) s k)),
      update_agent = (\<lambda>a k. case ref_agents k (agent_key a) of None \<Rightarrow> (Inl no_such, k)
        | Some s \<Rightarrow> let a' = updated_agent a s
            in (Inr a', if meta_DeletionTimestamp (agent_Meta a') \<noteq> None \<and> meta_Finalizers (agent_Meta a') = []
                        then drop_agent (agent_key a) k else put_agent (agent_key a) a' k)),
      patch_agent = (\<lambda>b m k. case ref_agents k (agent_key m) of None \<Rightarrow> (Inl no_such, k)
        | Some s \<Rightarrow> (Inr (patched_agent b m s), put_agent (agent_key m) (patched_agent b m s) k)),
      patch_agent_status = (\<lambda>b m k. case ref_agents k (agent_key m) of None \<Rightarrow> (Inl no_such, k)
        | Some s \<Rightarrow> (Inr (patched_status b m s), put_agent (agent_key m) (patched_status b m s) k)),
      patch_service = (\<lambda>b m k. case ref_services k (service_key m) of None \<Rightarrow> (Inl no_such, k)
        | Some s \<Rightarrow> let s' = s\<lparr>svc_Ports := merged (svc_Ports b) (svc_Ports m) (svc_Ports s)\<rparr>
            in (Inr s', put_service (service_key m) s' k)),
      delete_agent = (\<lambda>a k. case ref_agents k (agent_key a) of None \<Rightarrow> (Inl no_such, k)
        | Some s \<Rightarrow> (Inr (), if meta_Finalizers (agent_Meta s) = [] then drop_agent (agent_key a) k
            else (put_agent (agent_key a) (s\<lparr>agent_Meta := (agent_Meta s)
              \<lparr>meta_DeletionTimestamp := Some (int (cl_time k))\<rparr>\<rparr>) k)\<lparr>cl_time := Suc (cl_time k)\<rparr>)),
      delete_pod = (\<lambda>p k. if p \<in> set (cl_pods k) then (Inr (), k\<lparr>cl_pods := removeAll p (cl_pods k)\<rparr>)
        else (Inl no_such, k)),
      delete_service = (\<lambda>s k. if ref_services k (service_key s) = None then (Inl no_such, k)
        else (Inr (), k\<lparr>cl_services := AList.delete (service_key s) (cl_services k)\<rparr>))\<rparr>"

section \<open>The laws hold\<close>

lemma keyed_simps [simp]:
  "agent_key (keyed n a) = n" "agent_Spec (keyed n a) = agent_Spec a"
  "agent_Status (keyed n a) = agent_Status a"
  by (simp_all add: keyed_def agent_key_def)

lemma keyed_same [simp]: "agent_key a = n \<Longrightarrow> keyed n a = a"
  by (auto simp: keyed_def agent_key_def)

lemma ref_agents_key: "ref_agents k n = Some a \<Longrightarrow> agent_key a = n"
  by (auto simp: ref_agents_def)

lemma agent_key_patched [simp]:
  "agent_key (patched_agent b m s) = agent_key s" "agent_key (patched_status b m s) = agent_key s"
  by (simp_all add: agent_key_def)

lemma put_agent_simps [simp]:
  "ref_agents (put_agent n a k) = (ref_agents k)(n \<mapsto> keyed n a)"
  "ref_agents (drop_agent n k) = (ref_agents k)(n := None)"
  "ref_agents (k\<lparr>cl_time := t\<rparr>) = ref_agents k"
  "ref_agents (k\<lparr>cl_pods := ps\<rparr>) = ref_agents k"
  "ref_agents (k\<lparr>cl_services := ss\<rparr>) = ref_agents k"
  "cl_pods (put_agent n a k) = cl_pods k" "cl_pods (drop_agent n k) = cl_pods k"
  "cl_services (put_agent n a k) = cl_services k" "cl_services (drop_agent n k) = cl_services k"
  by (auto simp: ref_agents_def put_agent_def drop_agent_def fun_eq_iff update_conv' delete_conv')

lemma named_pod_fresh: "pod_Name p = '''' \<Longrightarrow> named_pod ps p \<notin> set ps"
proof
  assume "pod_Name p = ''''" and "named_pod ps p \<in> set ps"
  then have "length (pod_Name (named_pod ps p)) \<in> set (map (\<lambda>p. length (pod_Name p)) ps)" by simp
  then have "length (pod_Name (named_pod ps p)) \<le> sum_list (map (\<lambda>p. length (pod_Name p)) ps)"
    by (rule member_le_sum_list) simp
  with \<open>pod_Name p = ''''\<close> show False by (simp add: named_pod_def fresh_name_def)
qed

lemma ref_list_agents:
  "\<exists>as. list_agents ref_kube None None k = (Inr as, k) \<and>
     set as = {a. ref_agents k (agent_key a) = Some a} \<and> distinct (map agent_key as)"
proof -
  let ?ns = "remdups (map fst (cl_agents k))"
  let ?as = "List.map_filter (ref_agents k) ?ns"
  have dom: "n \<in> set ?ns" if "ref_agents k n = Some a" for n a
    using that by (force simp: ref_agents_def dest!: map_of_SomeD)
  have keys: "map agent_key (List.map_filter (ref_agents k) ns) =
      filter (\<lambda>n. ref_agents k n \<noteq> None) ns" for ns
    by (induction ns) (auto simp: List.map_filter_simps ref_agents_key split: option.splits)
  have "list_agents ref_kube None None k = (Inr ?as, k)" by (simp add: ref_kube_def)
  moreover have "set ?as = {a. ref_agents k (agent_key a) = Some a}"
  proof (intro set_eqI iffI)
    fix a assume "a \<in> set ?as"
    then obtain n where "ref_agents k n = Some a" by (auto simp: map_filter_def)
    with ref_agents_key show "a \<in> {a. ref_agents k (agent_key a) = Some a}" by blast
  next
    fix a assume "a \<in> {a. ref_agents k (agent_key a) = Some a}"
    then have a: "ref_agents k (agent_key a) = Some a" by simp
    from dom [OF a] a show "a \<in> set ?as"
      unfolding map_filter_def by (intro rev_image_eqI [where x = "agent_key a", THEN set_map [THEN equalityD2, THEN subsetD]]) simp_all
  qed
  moreover have "distinct (map agent_key ?as)" by (simp only: keys) simp
  ultimately show ?thesis by blast
qed

lemma ref_kube_reads:
  "get_agent ref_kube n k = (case ref_agents k n of None \<Rightarrow> Inl no_such | Some a \<Rightarrow> Inr a, k)"
  "get_service ref_kube n k = (case ref_services k n of None \<Rightarrow> Inl no_such | Some s \<Rightarrow> Inr s, k)"
  "list_pods ref_kube ns sel k =
     (Inr (filter (\<lambda>p. meta_Namespace (pod_Meta p) = ns \<and> matches sel (pod_Labels p)) (cl_pods k)), k)"
  by (simp_all add: ref_kube_def)

lemma ref_kube_writes:
  "patch_agent ref_kube b m k = (case ref_agents k (agent_key m) of None \<Rightarrow> (Inl no_such, k)
     | Some s \<Rightarrow> (Inr (patched_agent b m s), put_agent (agent_key m) (patched_agent b m s) k))"
  "patch_agent_status ref_kube b m k = (case ref_agents k (agent_key m) of None \<Rightarrow> (Inl no_such, k)
     | Some s \<Rightarrow> (Inr (patched_status b m s), put_agent (agent_key m) (patched_status b m s) k))"
  "delete_pod ref_kube p k =
     (if p \<in> set (cl_pods k) then (Inr (), k\<lparr>cl_pods := removeAll p (cl_pods k)\<rparr>) else (Inl no_such, k))"
  by (simp_all add: ref_kube_def)

lemma ref_kube_services:
  "create_service ref_kube s k = (if ref_services k (service_key s) \<noteq> None then (Inl exists_already, k)
     else (Inr s, put_service (service_key s) s k))"
  "patch_service ref_kube b m k = (case ref_services k (service_key m) of None \<Rightarrow> (Inl no_such, k)
     | Some s \<Rightarrow> let s' = s\<lparr>svc_Ports := merged (svc_Ports b) (svc_Ports m) (svc_Ports s)\<rparr>
         in (Inr s', put_service (service_key m) s' k))"
  "delete_service ref_kube s k = (if ref_services k (service_key s) = None then (Inl no_such, k)
     else (Inr (), k\<lparr>cl_services := AList.delete (service_key s) (cl_services k)\<rparr>))"
  by (simp_all add: ref_kube_def)

lemma put_service_simps [simp]:
  "ref_agents (put_service n s k) = ref_agents k" "cl_pods (put_service n s k) = cl_pods k"
  by (simp_all add: put_service_def)

lemma ref_services_simps [simp]:
  "ref_services (put_agent n a k) = ref_services k" "ref_services (drop_agent n k) = ref_services k"
  "ref_services (k\<lparr>cl_time := t\<rparr>) = ref_services k" "ref_services (k\<lparr>cl_pods := ps\<rparr>) = ref_services k"
  by (simp_all add: ref_services_def)

lemma ref_pods_simps [simp]:
  "ref_pods (put_agent n a k) = ref_pods k" "ref_pods (drop_agent n k) = ref_pods k"
  "ref_pods (k\<lparr>cl_time := t\<rparr>) = ref_pods k" "ref_pods (k\<lparr>cl_pods := ps\<rparr>) = set ps"
  by (simp_all add: ref_pods_def)

lemma ref_create_pod:
  "meta_Name (pod_Meta p) = '''' \<Longrightarrow> create_pod ref_kube p k =
     (Inr (named_pod (cl_pods k) p), k\<lparr>cl_pods := cl_pods k @ [named_pod (cl_pods k) p]\<rparr>)"
  by (simp add: ref_kube_def named_pod_fresh Let_def)

lemma named_pod_simps [simp]:
  "pod_Labels (named_pod ps p) = pod_Labels p" "pod_Annotations (named_pod ps p) = pod_Annotations p"
  "meta_Namespace (pod_Meta (named_pod ps p)) = meta_Namespace (pod_Meta p)"
  "meta_DeletionTimestamp (pod_Meta (named_pod ps p)) = meta_DeletionTimestamp (pod_Meta p)"
  "pod_Containers (named_pod ps p) = pod_Containers p"
  by (simp_all add: named_pod_def)

lemma ref_create_pod_law:
  assumes "meta_Name (pod_Meta p) = ''''" and "meta_DeletionTimestamp (pod_Meta p) = None"
  shows "\<exists>p' k'. create_pod ref_kube p k = (Inr p', k') \<and> p' \<notin> ref_pods k \<and> ref_pods k' = insert p' (ref_pods k) \<and>
    meta_Namespace (pod_Meta p') = meta_Namespace (pod_Meta p) \<and> pod_Labels p' = pod_Labels p \<and>
    pod_Annotations p' = pod_Annotations p \<and> IsZero (meta_DeletionTimestamp (pod_Meta p')) \<and>
    pod_Containers p' = pod_Containers p \<and> ref_agents k' = ref_agents k \<and> ref_services k' = ref_services k"
  by (rule exI [of _ "named_pod (cl_pods k) p"],
      rule exI [of _ "k\<lparr>cl_pods := cl_pods k @ [named_pod (cl_pods k) p]\<rparr>"])
    (simp add: assms ref_create_pod named_pod_fresh ref_pods_def)

lemma ref_delete_agent_law:
  assumes s: "ref_agents k (agent_key a) = Some s"
  shows "\<exists>k' t. delete_agent ref_kube a k = (Inr (), k') \<and> \<not> IsZero (Some t) \<and> ref_pods k' = ref_pods k \<and>
    ref_agents k' = (ref_agents k)(agent_key a :=
      if meta_Finalizers (agent_Meta s) = [] then None
      else Some (s\<lparr>agent_Meta := (agent_Meta s)\<lparr>meta_DeletionTimestamp := Some t\<rparr>\<rparr>)) \<and>
    ref_services k' = ref_services k"
proof -
  have *: "agent_key (s\<lparr>agent_Meta := (agent_Meta s)\<lparr>meta_DeletionTimestamp := x\<rparr>\<rparr>) = agent_key a" for x
    using ref_agents_key [OF s] by (simp add: agent_key_def)
  show ?thesis
  proof (cases "meta_Finalizers (agent_Meta s) = []")
    case True
    then show ?thesis
      by (intro exI [of _ "drop_agent (agent_key a) k"] exI [of _ "int (cl_time k)"])
        (simp add: ref_kube_def s IsZero_def zero_time_def)
  next
    case False
    let ?s = "s\<lparr>agent_Meta := (agent_Meta s)\<lparr>meta_DeletionTimestamp := Some (int (cl_time k))\<rparr>\<rparr>"
    from False show ?thesis
      by (intro exI [of _ "(put_agent (agent_key a) ?s k)\<lparr>cl_time := Suc (cl_time k)\<rparr>"]
          exI [of _ "int (cl_time k)"]) (simp add: ref_kube_def s * IsZero_def zero_time_def)
  qed
qed

interpretation ref_kube: kube_api ref_kube ref_agents ref_pods ref_services
proof (unfold_locales, goal_cases)
  case 6
  then show ?case by (rule ref_list_agents)
next
  case (8 p k)
  then show ?case by (intro ref_create_pod_law)
next
  case (9 p k)
  then show ?case by (intro exI [of _ "k\<lparr>cl_pods := removeAll p (cl_pods k)\<rparr>"] exI [of _ "{}"])
      (simp add: ref_kube_writes ref_pods_def)
next
  case (12 k a s)
  then show ?case by (rule ref_delete_agent_law)
qed (auto simp: ref_kube_reads ref_kube_writes ref_agents_key ref_pods_def no_such_def ref_kube_services
    Let_def split: option.split)

section \<open>A cluster with one agent\<close>

definition ref_cluster :: "Agent \<Rightarrow> Pod list \<Rightarrow> cluster" where
  "ref_cluster a ps = \<lparr>cl_agents = [(agent_key a, a)], cl_pods = ps, cl_services = [], cl_time = 1\<rparr>"

lemma ref_cluster_simps [simp]:
  "ref_agents (ref_cluster a ps) (agent_key a) = Some a" "cl_pods (ref_cluster a ps) = ps"
  "ref_services (ref_cluster a ps) n = None"
  by (simp_all add: ref_cluster_def ref_agents_def ref_services_def)

lemma ref_list_one:
  "list_agents ref_kube None None (ref_cluster a ps) = (Inr [a], ref_cluster a ps)"
  by (simp add: ref_kube_def) (simp add: ref_cluster_def ref_agents_def List.map_filter_simps)

end
