(* ===== verification/Agent_Controller.thy ===== *)
theory Agent_Controller
  imports Ref_Kube History_Store
begin

text \<open>
  \<open>internal/controller/agent_controller.go\<close>: the reconciler and its helpers, each function of the
  file as one program over the client; \<open>Reconcile\<close> is divided into one definition per phase.

  An object passed by pointer and changed by a callee is returned by it. The two functions of
  \<open>controllerutil\<close> that the code relies on are fields of the reconciler, like its client.
\<close>

section \<open>Constants\<close>

abbreviation agentFinalizer :: string where "agentFinalizer \<equiv> ''orchestrator.dev/finalizer''"
abbreviation podOwnerLabel :: string where "podOwnerLabel \<equiv> ''orchestrator.dev/agent''"
abbreviation podNamespaceLabel :: string where "podNamespaceLabel \<equiv> ''orchestrator.dev/namespace''"
abbreviation managedByLabel :: string where "managedByLabel \<equiv> ''app.kubernetes.io/managed-by''"
abbreviation managedByValue :: string where "managedByValue \<equiv> ''k8s-agent-orchestrator''"

abbreviation generationKey :: string where "generationKey \<equiv> ''orchestrator.dev/generation''"
abbreviation resurrectedAtKey :: string where
  "resurrectedAtKey \<equiv> ''orchestrator.dev/resurrected-at''"
abbreviation resurrectionUidKey :: string where
  "resurrectionUidKey \<equiv> ''orchestrator.dev/resurrection-uid''"

section \<open>The reconciler\<close>

record ('k, 'h) AgentReconciler =
  r_Client :: "'k Client"
  r_History :: "'h HistoryStore option"
  r_ContainsFinalizer :: "Agent \<Rightarrow> string \<Rightarrow> bool"
  r_AddFinalizer :: "Agent \<Rightarrow> string \<Rightarrow> Agent"
  r_RemoveFinalizer :: "Agent \<Rightarrow> string \<Rightarrow> Agent"
  r_OwnPod :: "Agent \<Rightarrow> Pod \<Rightarrow> kerr + Pod" \<comment> \<open>\<open>SetControllerReference\<close>\<close>
  r_OwnService :: "Agent \<Rightarrow> Service \<Rightarrow> kerr + Service"

text \<open>\<open>ctrl.Result\<close> and the error returned beside it.\<close>

record Result =
  Requeue :: bool
  RequeueAfter :: int

abbreviation no_result :: Result where "no_result \<equiv> \<lparr>Requeue = False, RequeueAfter = 0\<rparr>"
abbreviation requeue_after :: "int \<Rightarrow> Result" where
  "requeue_after d \<equiv> \<lparr>Requeue = False, RequeueAfter = d\<rparr>"

type_synonym answer = "Result \<times> kerr option"

text \<open>\<open>time.Now().UTC().Format("2006-01-02T15:04:05")\<close>.\<close>

definition timestamp :: "('k, 'h, 'c, string) prog" where
  "timestamp = do { t \<leftarrow> Now; ret (format_ts t) }"

text \<open>\<open>r.Recorder.Eventf\<close> with the message already formatted.\<close>

definition Eventf :: "Agent \<Rightarrow> string \<Rightarrow> string \<Rightarrow> string \<Rightarrow> ('k, 'h, 'c, unit) prog" where
  "Eventf a type reason message = emit_event
     \<lparr>evt_Object = (agent_Namespace a, agent_Name a), evt_Type = type, evt_Reason = reason,
      evt_Message = message\<rparr>"

text \<open>The time of the event is read inside \<open>Append\<close>.\<close>

definition append_event ::
  "'h HistoryStore option \<Rightarrow> string \<Rightarrow> string \<Rightarrow> string \<Rightarrow> string \<Rightarrow> string \<Rightarrow> ('k, 'h, 'c, unit) prog" where
  "append_event H namespace name eventType reason message =
     (case H of None \<Rightarrow> ret ()
      | Some H \<Rightarrow> do {
          t \<leftarrow> Now;
          on_hist (\<lambda>h. ((), hs_Append H namespace name eventType reason message t h)) })"

definition appendHistory ::
  "('k, 'h) AgentReconciler \<Rightarrow> Agent \<Rightarrow> string \<Rightarrow> string \<Rightarrow> string \<Rightarrow> ('k, 'h, 'c, unit) prog" where
  "appendHistory r agent eventType reason message =
     append_event (r_History r) (agent_Namespace agent) (agent_Name agent) eventType reason message"

lemma emits_helpers [emits_intros]:
  "emits P timestamp" "emits P (Eventf a ty re msg)" "emits P (append_event H ns n ty re msg)"
  "emits P (appendHistory r a ty re msg)"
  unfolding timestamp_def Eventf_def append_event_def appendHistory_def by (intro emits_intros)+

section \<open>Pods\<close>

text \<open>\<open>labels[k] = v\<close> for every entry of a second map: \<open>m ++ entries extra\<close>.\<close>

definition buildPod :: "Agent \<Rightarrow> Pod" where
  "buildPod agent =
     (let spec = agent_Spec agent;
          labels = [podOwnerLabel \<mapsto> agent_Name agent, managedByLabel \<mapsto> managedByValue,
                    ''app'' \<mapsto> agent_Name agent] ++ entries (spec_PodLabels spec);
          annotations = [generationKey \<mapsto> int_str (agent_Generation agent)]
                        ++ entries (spec_PodAnnotations spec);
          pullPolicy = (if spec_ImagePullPolicy spec = '''' then ''IfNotPresent'' else spec_ImagePullPolicy spec);
          restartPolicy = (if spec_RestartPolicy spec = '''' then ''Always'' else spec_RestartPolicy spec);
          container = \<lparr>ctr_Name = ''agent'', ctr_Image = spec_Image spec,
            ctr_ImagePullPolicy = pullPolicy, ctr_Env = spec_Env spec, ctr_EnvFrom = spec_EnvFrom spec,
            ctr_Resources = spec_Resources spec, ctr_Command = spec_Command spec,
            ctr_Args = spec_Args spec, ctr_VolumeMounts = spec_VolumeMounts spec\<rparr>
      in \<lparr>pod_Meta = empty_meta\<lparr>meta_GenerateName := agent_Name agent @ ''-'',
             meta_Namespace := agent_Namespace agent, meta_Labels := Some labels,
             meta_Annotations := Some annotations\<rparr>,
          pod_Containers = [container], pod_RestartPolicy = restartPolicy,
          pod_ServiceAccountName = spec_ServiceAccountName spec,
          pod_ImagePullSecrets = spec_ImagePullSecrets spec, pod_Volumes = spec_Volumes spec,
          pod_Phase = ''''\<rparr>)"

definition createPod :: "('k, 'h) AgentReconciler \<Rightarrow> Agent \<Rightarrow> ('k, 'h, 'c, kerr option) prog" where
  "createPod r agent =
     (case r_OwnPod r agent (buildPod agent) of
        Inl e \<Rightarrow> ret (Some (wrapf ''setting controller reference: '' e))
      | Inr pod \<Rightarrow> do {
          x \<leftarrow> Create_pod (r_Client r) pod;
          ret (case x of Inl e \<Rightarrow> Some e | Inr _ \<Rightarrow> None) })"

definition pod_selector :: "Agent \<Rightarrow> (string \<times> string) list" where
  "pod_selector agent = [(podOwnerLabel, agent_Name agent), (managedByLabel, managedByValue)]"

abbreviation pod_live :: "Pod \<Rightarrow> bool" where
  "pod_live p \<equiv> IsZero (meta_DeletionTimestamp (pod_Meta p))"

definition findAgentPod ::
  "('k, 'h) AgentReconciler \<Rightarrow> Agent \<Rightarrow> ('k, 'h, 'c, kerr + Pod option) prog" where
  "findAgentPod r agent = do {
     x \<leftarrow> List_pods (r_Client r) (agent_Namespace agent) (pod_selector agent);
     case x of
       Inl e \<Rightarrow> ret (Inl (wrapf ''listing pods: '' e))
     | Inr pods \<Rightarrow> ret (Inr (find pod_live pods)) }"

text \<open>\<open>r.Delete(ctx, pod)\<close> where a missing pod is no error.\<close>

definition delete_pod_if_there ::
  "('k, 'h) AgentReconciler \<Rightarrow> Pod \<Rightarrow> ('k, 'h, 'c, kerr option) prog" where
  "delete_pod_if_there r pod = do {
     x \<leftarrow> Delete_pod (r_Client r) pod;
     ret (case x of Inl e \<Rightarrow> if IsNotFound e then None else Some e | Inr _ \<Rightarrow> None) }"

definition specChanged :: "Agent \<Rightarrow> Pod \<Rightarrow> bool" where
  "specChanged agent pod =
     (let ann = index (pod_Annotations pod) generationKey;
          expected = int_str (agent_Generation agent)
      in ann \<noteq> expected)"

fun podPhaseToAgentPhase :: "string \<Rightarrow> string" where
  "podPhaseToAgentPhase phase =
     (if phase = ''Pending'' then AgentPhasePending
      else if phase = ''Running'' then AgentPhaseRunning
      else if phase = ''Succeeded'' then AgentPhaseStopped
      else if phase = ''Failed'' then AgentPhaseFailed
      else AgentPhasePending)"

section \<open>Status\<close>

text \<open>
  The object the caller holds after the patch: the server's answer, or on an error the locally
  changed object.
\<close>

definition patch_status_of ::
  "('k, 'h) AgentReconciler \<Rightarrow> Agent \<Rightarrow> Agent \<Rightarrow> ('k, 'h, 'c, Agent \<times> kerr option) prog" where
  "patch_status_of r base agent = do {
     x \<leftarrow> Patch_status (r_Client r) base agent;
     ret (case x of Inl e \<Rightarrow> (agent, Some e) | Inr answer \<Rightarrow> (answer, None)) }"

definition updateStatus ::
  "('k, 'h) AgentReconciler \<Rightarrow> Agent \<Rightarrow> string \<Rightarrow> string \<Rightarrow> string \<Rightarrow> ('k, 'h, 'c, Agent \<times> kerr option) prog"
where
  "updateStatus r agent phase podName message = do {
     now \<leftarrow> Now;
     patch_status_of r agent (update_status (\<lambda>s. s\<lparr>status_Phase := phase, status_PodName := podName,
       status_Message := message, status_ObservedGeneration := agent_Generation agent,
       status_LastUpdated := Some now\<rparr>) agent) }"

fun set_condition_in ::
  "AgentCondition \<Rightarrow> AgentCondition list \<Rightarrow> AgentCondition list" where
  "set_condition_in new [] = [new]"
| "set_condition_in new (c # cs) =
     (if cond_Type c = cond_Type new
      then c\<lparr>cond_Status := cond_Status new, cond_Reason := cond_Reason new,
             cond_Message := cond_Message new, cond_LastTransitionTime := cond_LastTransitionTime new\<rparr> # cs
      else c # set_condition_in new cs)"

definition setCondition ::
  "Agent \<Rightarrow> string \<Rightarrow> string \<Rightarrow> string \<Rightarrow> string \<Rightarrow> ('k, 'h, 'c, Agent) prog" where
  "setCondition agent condType status reason message = do {
     now \<leftarrow> Now;
     ret (update_status (\<lambda>s. s\<lparr>status_Conditions := set_condition_in
       \<lparr>cond_Type = condType, cond_Status = status, cond_LastTransitionTime = now,
        cond_Reason = reason, cond_Message = message\<rparr> (status_Conditions s)\<rparr>) agent) }"

section \<open>Services\<close>

definition serviceNameFor :: "string \<Rightarrow> string" where
  "serviceNameFor agentName =
     (if 0 < length agentName \<and> (48 :: nat) \<le> of_char (agentName ! 0) \<and>
         of_char (agentName ! 0) \<le> (57 :: nat)
      then ''agt-'' @ agentName else agentName)"

definition desiredPorts :: "Agent \<Rightarrow> ServicePort list" where
  "desiredPorts agent =
     (let protocol = (if spec_ServiceProtocol (agent_Spec agent) = '''' then ''TCP''
                      else spec_ServiceProtocol (agent_Spec agent))
      in [\<lparr>port_Name = ''agent'', port_Protocol = protocol,
           port_Port = spec_ServicePort (agent_Spec agent),
           port_TargetPort = spec_ServicePort (agent_Spec agent)\<rparr>])"

definition buildService :: "Agent \<Rightarrow> Service" where
  "buildService agent =
     \<lparr>svc_Meta = empty_meta\<lparr>meta_Name := serviceNameFor (agent_Name agent),
        meta_Namespace := agent_Namespace agent,
        meta_Labels := Some [managedByLabel \<mapsto> managedByValue, podOwnerLabel \<mapsto> agent_Name agent]\<rparr>,
      svc_Type = ''ClusterIP'',
      svc_Selector = Some [podOwnerLabel \<mapsto> agent_Name agent, managedByLabel \<mapsto> managedByValue],
      svc_Ports = desiredPorts agent\<rparr>"

definition set_ServiceName :: "('k, 'h) AgentReconciler \<Rightarrow> Agent \<Rightarrow> string \<Rightarrow> ('k, 'h, 'c, unit) prog" where
  "set_ServiceName r agent name = do {
     _ \<leftarrow> patch_status_of r agent (update_status (\<lambda>s. s\<lparr>status_ServiceName := name\<rparr>) agent);
     ret () }"

text \<open>The bytes \<open>'0'\<close> and \<open>'9'\<close> are 48 and 57. \<open>existing.Spec.Ports\<close> differs from what the agent asks for.\<close>

definition ports_drifted :: "Agent \<Rightarrow> Service \<Rightarrow> bool" where
  "ports_drifted agent existing =
     (case svc_Ports existing of
        [p] \<Rightarrow> port_Port p \<noteq> spec_ServicePort (agent_Spec agent) \<or>
               port_Protocol p \<noteq> port_Protocol (hd (desiredPorts agent))
      | _ \<Rightarrow> True)"

definition create_service_for :: "('k, 'h) AgentReconciler \<Rightarrow> Agent \<Rightarrow> ('k, 'h, 'c, kerr option) prog" where
  "create_service_for r agent =
     (case r_OwnService r agent (buildService agent) of
        Inl e \<Rightarrow> ret (Some (wrapf ''setting service owner reference: '' e))
      | Inr svc \<Rightarrow> do {
          x \<leftarrow> Create_service (r_Client r) svc;
          case x of
            Inl e \<Rightarrow> ret (Some (wrapf ''creating agent service: '' e))
          | Inr _ \<Rightarrow> do { set_ServiceName r agent (serviceNameFor (agent_Name agent)); ret None } })"

definition update_service_for ::
  "('k, 'h) AgentReconciler \<Rightarrow> Agent \<Rightarrow> Service \<Rightarrow> ('k, 'h, 'c, kerr option) prog" where
  "update_service_for r agent existing = do {
     err \<leftarrow> (if ports_drifted agent existing
             then do {
               x \<leftarrow> Patch_service (r_Client r) existing (existing\<lparr>svc_Ports := desiredPorts agent\<rparr>);
               ret (case x of Inl e \<Rightarrow> Some (wrapf ''patching agent service port: '' e) | Inr _ \<Rightarrow> None) }
             else ret None);
     case err of
       Some e \<Rightarrow> ret (Some e)
     | None \<Rightarrow> do {
         (if status_ServiceName (agent_Status agent) \<noteq> serviceNameFor (agent_Name agent)
          then set_ServiceName r agent (serviceNameFor (agent_Name agent)) else ret ());
         ret None } }"

definition drop_service_of ::
  "('k, 'h) AgentReconciler \<Rightarrow> Agent \<Rightarrow> kerr + Service \<Rightarrow> ('k, 'h, 'c, kerr option) prog" where
  "drop_service_of r agent got =
     (case got of
        Inl _ \<Rightarrow> ret None
      | Inr existing \<Rightarrow> do {
          x \<leftarrow> Delete_service (r_Client r) existing;
          case x of
            Inl e \<Rightarrow> if IsNotFound e then do { set_ServiceName r agent ''''; ret None }
                     else ret (Some (wrapf ''deleting agent service: '' e))
          | Inr _ \<Rightarrow> do { set_ServiceName r agent ''''; ret None } })"

definition reconcileService :: "('k, 'h) AgentReconciler \<Rightarrow> Agent \<Rightarrow> ('k, 'h, 'c, kerr option) prog" where
  "reconcileService r agent = do {
     got \<leftarrow> Get_service (r_Client r) (agent_Namespace agent, serviceNameFor (agent_Name agent));
     if spec_ServicePort (agent_Spec agent) = 0 then drop_service_of r agent got
     else case got of
       Inl e \<Rightarrow> if IsNotFound e then create_service_for r agent
                else ret (Some (wrapf ''getting agent service: '' e))
     | Inr existing \<Rightarrow> update_service_for r agent existing }"

section \<open>Reconcile\<close>

text \<open>
  \<open>[%s] ...\<close> messages: \<open>stamped m\<close> reads the clock and puts the time in front, as every
  \<open>fmt.Sprintf("[%s] ...", time.Now()...)\<close> does.
\<close>

definition stamped :: "string \<Rightarrow> ('k, 'h, 'c, string) prog" where
  "stamped m = do { t \<leftarrow> timestamp; ret (''['' @ t @ ''] '' @ m) }"

text \<open>An event for the recorder and the same event for the history, each with a time of its own.\<close>

definition announce ::
  "('k, 'h) AgentReconciler \<Rightarrow> Agent \<Rightarrow> string \<Rightarrow> string \<Rightarrow> string \<Rightarrow> ('k, 'h, 'c, unit) prog" where
  "announce r agent eventType reason message = do {
     m1 \<leftarrow> stamped message; Eventf agent eventType reason m1;
     m2 \<leftarrow> stamped message; appendHistory r agent eventType reason m2 }"

lemma emits_announce [emits_intros]: "emits P (stamped m)" "emits P (announce r a ty re m)"
  unfolding stamped_def announce_def by (intro emits_intros)+

definition resurrection_of :: "Agent \<Rightarrow> Resurrection" where
  "resurrection_of agent =
     \<lparr>res_namespace = agent_Namespace agent, res_name = agent_Name agent,
      res_originalUID = meta_UID (agent_Meta agent), res_spec = agent_Spec agent,
      res_labels = Some (entries (meta_Labels (agent_Meta agent))),
      res_annotations = Some (entries (agent_Annotations agent))\<rparr>"

definition remove_finalizer_and_resurrect ::
  "('k, 'h) AgentReconciler \<Rightarrow> Agent \<Rightarrow> ('k, 'h, 'c, answer) prog" where
  "remove_finalizer_and_resurrect r agent = do {
     x \<leftarrow> Update_agent (r_Client r) (r_RemoveFinalizer r agent agentFinalizer);
     case x of
       Inl e \<Rightarrow> ret (no_result, if IsNotFound e then None else Some (wrapf ''removing finalizer: '' e))
     | Inr _ \<Rightarrow> do {
         (if \<not> spec_SelfHealingDisabled (agent_Spec agent) then spawn (resurrection_of agent) else ret ());
         ret (no_result, None) } }"

definition handleDeletion :: "('k, 'h) AgentReconciler \<Rightarrow> Agent \<Rightarrow> ('k, 'h, 'c, answer) prog" where
  "handleDeletion r agent = do {
     found \<leftarrow> findAgentPod r agent;
     case found of
       Inl e \<Rightarrow> ret (no_result, Some e)
     | Inr None \<Rightarrow> remove_finalizer_and_resurrect r agent
     | Inr (Some pod) \<Rightarrow> do {
         failed \<leftarrow> delete_pod_if_there r pod;
         case failed of
           Some e \<Rightarrow> ret (no_result, Some (wrapf ''deleting agent pod: '' e))
         | None \<Rightarrow> remove_finalizer_and_resurrect r agent } }"

definition add_finalizer :: "('k, 'h) AgentReconciler \<Rightarrow> Agent \<Rightarrow> ('k, 'h, 'c, answer) prog" where
  "add_finalizer r agent = do {
     x \<leftarrow> Update_agent (r_Client r) (r_AddFinalizer r agent agentFinalizer);
     ret (case x of
       Inl e \<Rightarrow> if IsConflict e then (no_result\<lparr>Requeue := True\<rparr>, None)
                else (no_result, Some (wrapf ''adding finalizer: '' e))
     | Inr _ \<Rightarrow> (no_result\<lparr>Requeue := True\<rparr>, None)) }"

definition reconcile_paused ::
  "('k, 'h) AgentReconciler \<Rightarrow> Agent \<Rightarrow> Pod option \<Rightarrow> ('k, 'h, 'c, answer) prog" where
  "reconcile_paused r agent found = do {
     failed \<leftarrow> (case found of
        None \<Rightarrow> ret None
      | Some pod \<Rightarrow> do {
          failed \<leftarrow> delete_pod_if_there r pod;
          (case failed of Some e \<Rightarrow> ret (Some e)
           | None \<Rightarrow> do {
               announce r agent EventTypeNormal ''Paused''
                 ''Agent paused: Pod deleted and reconciliation halted'';
               ret None }) });
     case failed of
       Some e \<Rightarrow> ret (no_result, Some (wrapf ''deleting pod for paused agent: '' e))
     | None \<Rightarrow> do {
         _ \<leftarrow> updateStatus r agent AgentPhaseStopped '''' ''Agent is paused'';
         ret (no_result, None) } }"

definition report_creation ::
  "('k, 'h) AgentReconciler \<Rightarrow> Agent \<Rightarrow> kerr option \<Rightarrow> ('k, 'h, 'c, answer) prog" where
  "report_creation r agent failed =
     (case failed of
       Some e \<Rightarrow> do {
         m1 \<leftarrow> stamped (''Failed to create Pod: '' @ err_msg e);
         Eventf agent EventTypeWarning ''PodCreateFailed'' m1;
         agent1 \<leftarrow> setCondition agent AgentConditionFailed ''True'' ''PodCreateFailed'' (err_msg e);
         (agent2, _) \<leftarrow> updateStatus r agent1 AgentPhaseFailed '''' (err_msg e);
         m2 \<leftarrow> stamped (''Failed to create Pod: '' @ err_msg e);
         appendHistory r agent2 EventTypeWarning ''PodCreateFailed'' m2;
         ret (requeue_after (10 * Second), None) }
     | None \<Rightarrow> do {
         announce r agent EventTypeNormal ''PodCreated''
           (''Pod created successfully for Agent '' @ agent_Name agent);
         ret (requeue_after (5 * Second), None) })"

definition reconcile_missing :: "('k, 'h) AgentReconciler \<Rightarrow> Agent \<Rightarrow> ('k, 'h, 'c, answer) prog" where
  "reconcile_missing r agent = do { failed \<leftarrow> createPod r agent; report_creation r agent failed }"

definition reconcile_drift :: "('k, 'h) AgentReconciler \<Rightarrow> Agent \<Rightarrow> Pod \<Rightarrow> ('k, 'h, 'c, answer) prog" where
  "reconcile_drift r agent pod = do {
     let message = ''Spec change detected: deleting Pod '' @ pod_Name pod @ '' for recreation'';
     m1 \<leftarrow> stamped message;
     Eventf agent EventTypeNormal ''PodRecreated'' m1;
     (agent1, _) \<leftarrow> updateStatus r agent AgentPhaseUpdating (pod_Name pod) ''Applying spec update'';
     m2 \<leftarrow> stamped message;
     appendHistory r agent1 EventTypeNormal ''PodRecreated'' m2;
     failed \<leftarrow> delete_pod_if_there r pod;
     ret (case failed of
       Some e \<Rightarrow> (no_result, Some (wrapf ''deleting stale pod: '' e))
     | None \<Rightarrow> (requeue_after (3 * Second), None)) }"

definition reconcile_sync :: "('k, 'h) AgentReconciler \<Rightarrow> Agent \<Rightarrow> Pod \<Rightarrow> ('k, 'h, 'c, answer) prog" where
  "reconcile_sync r agent pod = do {
     (agent1, failed) \<leftarrow> updateStatus r agent (podPhaseToAgentPhase (pod_Phase pod)) (pod_Name pod)
        (''Pod '' @ pod_Name pod @ '' is '' @ pod_Phase pod);
     case failed of
       Some e \<Rightarrow> ret (no_result, Some e)
     | None \<Rightarrow> do {
         _ \<leftarrow> reconcileService r agent1;
         ret (requeue_after (30 * Second), None) } }"

definition reconcile_found ::
  "('k, 'h) AgentReconciler \<Rightarrow> Agent \<Rightarrow> Pod option \<Rightarrow> ('k, 'h, 'c, answer) prog" where
  "reconcile_found r agent found =
     (if spec_Paused (agent_Spec agent) then reconcile_paused r agent found
      else case found of
        None \<Rightarrow> reconcile_missing r agent
      | Some pod \<Rightarrow> if specChanged agent pod then reconcile_drift r agent pod
                     else reconcile_sync r agent pod)"

definition reconcile_agent :: "('k, 'h) AgentReconciler \<Rightarrow> Agent \<Rightarrow> ('k, 'h, 'c, answer) prog" where
  "reconcile_agent r agent =
     (if \<not> IsZero (meta_DeletionTimestamp (agent_Meta agent)) then handleDeletion r agent
      else if \<not> r_ContainsFinalizer r agent agentFinalizer then add_finalizer r agent
      else do {
        found \<leftarrow> findAgentPod r agent;
        case found of Inl e \<Rightarrow> ret (no_result, Some e) | Inr found \<Rightarrow> reconcile_found r agent found })"

definition Reconcile :: "('k, 'h) AgentReconciler \<Rightarrow> nn \<Rightarrow> ('k, 'h, 'c, answer) prog" where
  "Reconcile r req = do {
     got \<leftarrow> Get_agent (r_Client r) req;
     case got of
       Inl e \<Rightarrow> ret (no_result, if IsNotFound e then None else Some (wrapf ''fetching agent: '' e))
     | Inr agent \<Rightarrow> reconcile_agent r agent }"

definition GetPodForAgent ::
  "('k, 'h) AgentReconciler \<Rightarrow> string \<Rightarrow> string \<Rightarrow> ('k, 'h, 'c, kerr + Pod option) prog" where
  "GetPodForAgent r namespace agentName = do {
     got \<leftarrow> Get_agent (r_Client r) (namespace, agentName);
     case got of Inl e \<Rightarrow> ret (Inl e) | Inr agent \<Rightarrow> findAgentPod r agent }"

section \<open>What a reconciliation may send\<close>

text \<open>
  The writes the reconciler is allowed: it never creates, deletes or patches an \<open>Agent\<close> outside its
  status, and a status patch either records a phase (one of five) for the generation just read, or
  sets the service name, and touches neither metadata, spec nor conditions.
\<close>

definition phase_patch :: "Agent \<Rightarrow> Agent \<Rightarrow> bool" where
  "phase_patch b a \<longleftrightarrow>
     status_Phase (agent_Status a) \<in> {AgentPhasePending, AgentPhaseRunning, AgentPhaseStopped,
       AgentPhaseFailed, AgentPhaseUpdating} \<and>
     status_ObservedGeneration (agent_Status a) = agent_Generation b \<and>
     status_ServiceName (agent_Status a) = status_ServiceName (agent_Status b)"

definition service_patch :: "Agent \<Rightarrow> Agent \<Rightarrow> bool" where
  "service_patch b a \<longleftrightarrow> (\<exists>n \<in> {'''', serviceNameFor (agent_Name b)}.
     agent_Status a = (agent_Status b)\<lparr>status_ServiceName := n\<rparr>)"

fun reconcile_may :: "kcall \<Rightarrow> bool" where
  "reconcile_may (PatchAgentStatus b a) \<longleftrightarrow>
     agent_Meta a = agent_Meta b \<and> agent_Spec a = agent_Spec b \<and>
     status_Conditions (agent_Status a) = status_Conditions (agent_Status b) \<and>
     (phase_patch b a \<or> service_patch b a)"
| "reconcile_may (CreateAgent a) = False"
| "reconcile_may (PatchAgent b a) = False"
| "reconcile_may (DeleteAgent a) = False"
| "reconcile_may (ListAgents ns lm) = False"
| "reconcile_may (SleepFor d) = False"
| "reconcile_may (PatchService b s) \<longleftrightarrow> svc_Meta s = svc_Meta b \<and> svc_Selector s = svc_Selector b"
| "reconcile_may _ = True"

lemma phase_range:
  "podPhaseToAgentPhase p \<in> {AgentPhasePending, AgentPhaseRunning, AgentPhaseStopped, AgentPhaseFailed}"
  by simp

declare podPhaseToAgentPhase.simps [simp del]

lemma may_updateStatus:
  "phase \<in> {AgentPhasePending, AgentPhaseRunning, AgentPhaseStopped, AgentPhaseFailed, AgentPhaseUpdating} \<Longrightarrow>
   emits reconcile_may (updateStatus r a phase n msg)"
  unfolding updateStatus_def patch_status_of_def
  by (intro emits_intros) (simp add: phase_patch_def)

lemma may_set_ServiceName:
  "n = '''' \<or> n = serviceNameFor (agent_Name a) \<Longrightarrow> emits reconcile_may (set_ServiceName r a n)"
  unfolding set_ServiceName_def patch_status_of_def
  by (intro emits_intros) (auto simp: service_patch_def)

lemma may_reconcileService: "emits reconcile_may (reconcileService r a)"
  unfolding reconcileService_def drop_service_of_def create_service_for_def update_service_for_def
  by (intro emits_intros may_set_ServiceName) simp_all

lemma may_deletion: "emits reconcile_may (handleDeletion r a)"
  unfolding handleDeletion_def findAgentPod_def delete_pod_if_there_def remove_finalizer_and_resurrect_def
  by (intro emits_intros) simp_all

lemma may_setCondition [emits_intros]: "emits P (setCondition a ty st re msg)"
  unfolding setCondition_def by (intro emits_intros)

lemma may_Reconcile: "emits reconcile_may (Reconcile r k)"
  unfolding Reconcile_def reconcile_agent_def reconcile_found_def add_finalizer_def report_creation_def reconcile_paused_def reconcile_missing_def
    reconcile_drift_def reconcile_sync_def findAgentPod_def delete_pod_if_there_def createPod_def Let_def
  by (intro emits_intros may_updateStatus may_reconcileService may_deletion)
    (use phase_range in \<open>auto simp del: insert_iff\<close>)

section \<open>Traces of a reconciliation\<close>

text \<open>
  What was read: the agent, and with it the pods that match its selector. \<open>recorded q x s w\<close> is the
  state after a request.
\<close>

definition recorded :: "kcall \<Rightarrow> kerr + 'a \<Rightarrow> 'k \<Rightarrow> ('k, 'h, 'c) world \<Rightarrow> ('k, 'h, 'c) world" where
  "recorded q x s w = w\<lparr>kube := s, calls := calls w @ [(q, outcome_of x)]\<rparr>"

lemma recorded_simps [simp]:
  "kube (recorded q x s w) = s" "calls (recorded q x s w) = calls w @ [(q, outcome_of x)]"
  "hist (recorded q x s w) = hist w" "cach (recorded q x s w) = cach w"
  "clock (recorded q x s w) = clock w" "evts (recorded q x s w) = evts w"
  "spawned (recorded q x s w) = spawned w"
  by (simp_all add: recorded_def)

lemma run_Reconcile:
  assumes "get_agent (r_Client r) k (kube w) = (Inr agent, s)"
  shows "run_state (Reconcile r k) w = run_state (reconcile_agent r agent) (recorded (GetAgent k) (Inr agent :: kerr + Agent) s w)"
  using assms by (simp add: Reconcile_def monad_simps recorded_def)

lemma run_findAgentPod:
  assumes "list_pods (r_Client r) (agent_Namespace agent) (pod_selector agent) (kube w) = (x, s)"
  shows "run_state (findAgentPod r agent) w =
    (case x of Inl e \<Rightarrow> Inl (wrapf ''listing pods: '' e) | Inr ps \<Rightarrow> Inr (find pod_live ps),
     recorded (ListPods (agent_Namespace agent) (pod_selector agent)) x s w)"
  using assms by (cases x) (simp_all add: findAgentPod_def monad_simps recorded_def)

definition creates_no_pod :: "kcall \<Rightarrow> bool" where
  "creates_no_pod q \<longleftrightarrow> (\<forall>p. q \<noteq> CreatePod p)"

lemma no_pod_simps [simp]:
  "\<not> creates_no_pod (CreatePod p)" "creates_no_pod (GetAgent n)" "creates_no_pod (GetService n)"
  "creates_no_pod (ListPods ns sel)" "creates_no_pod (CreateService s)" "creates_no_pod (UpdateAgent a)"
  "creates_no_pod (PatchAgentStatus b a)" "creates_no_pod (PatchService b' s)"
  "creates_no_pod (DeletePod p')" "creates_no_pod (DeleteService s)"
  by (simp_all add: creates_no_pod_def)

lemma no_pod_updateStatus [emits_intros]:
  "emits creates_no_pod (updateStatus r a ph n msg)"
  unfolding updateStatus_def patch_status_of_def by (intro emits_intros) simp_all

lemma no_pod_unless_missing:
  "spec_Paused (agent_Spec agent) \<or> found \<noteq> None \<Longrightarrow> emits creates_no_pod (reconcile_found r agent found)"
  "emits creates_no_pod (handleDeletion r agent)"
  "emits creates_no_pod (add_finalizer r agent)"
  unfolding reconcile_found_def reconcile_paused_def reconcile_drift_def reconcile_sync_def
    delete_pod_if_there_def Let_def reconcileService_def drop_service_of_def create_service_for_def
    update_service_for_def set_ServiceName_def patch_status_of_def handleDeletion_def findAgentPod_def
    remove_finalizer_and_resurrect_def add_finalizer_def
  by (intro emits_intros; simp)+

lemma creates_at_end:
  assumes "emits creates_no_pod m" and "\<forall>x \<in> set (calls w). creates_no_pod (fst x)"
  shows "(CreatePod p, oc) \<notin> set (calls (snd (run_state m w)))"
proof
  assume "(CreatePod p, oc) \<in> set (calls (snd (run_state m w)))"
  with emitsD [OF assms(1), of w] assms(2) have "creates_no_pod (fst (CreatePod p, oc))"
    by (metis Un_iff set_append)
  then show False by simp
qed

text \<open>The trace of the branch that creates the pod.\<close>

lemma no_pod_report: "emits creates_no_pod (report_creation r agent failed)"
  unfolding report_creation_def by (intro emits_intros)

lemma missing_trace:
  assumes "(CreatePod p, oc) \<in> set (calls (snd (run_state (reconcile_missing r agent) w)))"
    and "\<forall>x \<in> set (calls w). creates_no_pod (fst x)"
  shows "r_OwnPod r agent (buildPod agent) = Inr p \<and>
    (\<exists>l. calls (snd (run_state (reconcile_missing r agent) w)) = calls w @ (CreatePod p, oc) # l \<and>
      (\<forall>x \<in> set l. creates_no_pod (fst x)))"
proof (cases "r_OwnPod r agent (buildPod agent)")
  case (Inl e)
  then have "emits creates_no_pod (reconcile_missing r agent)"
    unfolding reconcile_missing_def createPod_def by (auto intro!: emits_intros no_pod_report)
  from creates_at_end [OF this assms(2)] assms(1) show ?thesis by blast
next
  case (Inr pod)
  obtain x s where x: "create_pod (r_Client r) pod (kube w) = (x, s)" by fastforce
  let ?failed = "case x of Inl e \<Rightarrow> Some e | Inr _ \<Rightarrow> None" and ?w = "recorded (CreatePod pod) x s w"
  have run: "run_state (reconcile_missing r agent) w = run_state (report_creation r agent ?failed) ?w"
    by (simp add: reconcile_missing_def createPod_def Inr x monad_simps recorded_def)
  obtain l where l: "calls (snd (run_state (report_creation r agent ?failed) ?w)) = calls ?w @ l"
    "\<forall>x \<in> set l. creates_no_pod (fst x)"
    using emitsD [OF no_pod_report] by blast
  have "(CreatePod p, oc) \<notin> set l" "(CreatePod p, oc) \<notin> set (calls w)"
    using l(2) assms(2) by (force simp: creates_no_pod_def)+
  then have "pod = p" "outcome_of x = oc"
    using assms(1) l(1) run by auto
  with Inr l run show ?thesis by auto
qed

section \<open>A concrete reconciler\<close>

text \<open>
  The executable API server with the documented effect of the two \<open>controllerutil\<close> helpers. The
  witnesses below run the program in this world.
\<close>

definition with_finalizers :: "(string list \<Rightarrow> string list) \<Rightarrow> Agent \<Rightarrow> Agent" where
  "with_finalizers f a = a\<lparr>agent_Meta := (agent_Meta a)\<lparr>meta_Finalizers := f (meta_Finalizers (agent_Meta a))\<rparr>\<rparr>"

definition ref_reconciler :: "(cluster, InMemoryHistory) AgentReconciler" where
  "ref_reconciler =
     \<lparr>r_Client = ref_kube, r_History = Some mem_history,
      r_ContainsFinalizer = (\<lambda>a f. f \<in> set (meta_Finalizers (agent_Meta a))),
      r_AddFinalizer = (\<lambda>a f. with_finalizers (\<lambda>fs. fs @ [f]) a),
      r_RemoveFinalizer = (\<lambda>a f. with_finalizers (removeAll f) a),
      r_OwnPod = (\<lambda>a p. Inr (p\<lparr>pod_Meta := (pod_Meta p)\<lparr>meta_Owner := Some (meta_UID (agent_Meta a))\<rparr>\<rparr>)),
      r_OwnService = (\<lambda>a s. Inr (s\<lparr>svc_Meta := (svc_Meta s)\<lparr>meta_Owner := Some (meta_UID (agent_Meta a))\<rparr>\<rparr>))\<rparr>"

lemma ref_reconciler_simps [simp]:
  "r_Client ref_reconciler = ref_kube"
  "r_History ref_reconciler = Some mem_history"
  "r_ContainsFinalizer ref_reconciler a f \<longleftrightarrow> f \<in> set (meta_Finalizers (agent_Meta a))"
  "r_AddFinalizer ref_reconciler a f = with_finalizers (\<lambda>fs. fs @ [f]) a"
  "r_RemoveFinalizer ref_reconciler a f = with_finalizers (removeAll f) a"
  "r_OwnPod ref_reconciler a p = Inr (p\<lparr>pod_Meta := (pod_Meta p)\<lparr>meta_Owner := Some (meta_UID (agent_Meta a))\<rparr>\<rparr>)"
  by (simp_all add: ref_reconciler_def)

definition ref_agent :: Agent where
  "ref_agent = \<lparr>agent_Meta = empty_meta\<lparr>meta_Name := ''a'', meta_Namespace := ''default'',
     meta_UID := ''uid-0'', meta_Generation := 1, meta_Finalizers := [agentFinalizer]\<rparr>,
     agent_Spec = empty_spec\<lparr>spec_Image := ''img''\<rparr>, agent_Status = empty_status\<rparr>"

definition ref_world :: "cluster \<Rightarrow> (cluster, InMemoryHistory, unit) world" where
  "ref_world k = \<lparr>kube = k, hist = NewInMemoryHistory 1000, cach = (), clock = (\<lambda>n. int n * Second),
     calls = [], evts = [], spawned = []\<rparr>"

lemma ref_world_simps [simp]:
  "kube (ref_world k) = k" "calls (ref_world k) = []" "evts (ref_world k) = []"
  "spawned (ref_world k) = []" "cach (ref_world k) = ()" "hist (ref_world k) = NewInMemoryHistory 1000"
  by (simp_all add: ref_world_def)

lemma ref_agent_simps [simp]:
  "agent_key ref_agent = (''default'', ''a'')" "agent_Name ref_agent = ''a''"
  "agent_Namespace ref_agent = ''default''" "meta_Finalizers (agent_Meta ref_agent) = [agentFinalizer]"
  "meta_DeletionTimestamp (agent_Meta ref_agent) = None" "agent_Spec ref_agent = empty_spec\<lparr>spec_Image := ''img''\<rparr>"
  by (simp_all add: ref_agent_def empty_meta_def agent_key_def)

section \<open>Properties\<close>

text \<open>
  A reconciliation creates a pod only for an agent that it has just read as not deleted, not
  paused and carrying the finalizer, and only after a successful list of the agent's pods that held no
  pod that is not terminating. The pod is the one \<open>buildPod\<close> describes, it is created right after the list, and
  no reconciliation creates two.
\<close>

lemma pod_created_only_when_missing:
  fixes w :: "('k, 'h, 'c) world" and r :: "('k, 'h) AgentReconciler"
  assumes "(CreatePod p, oc) \<in> set (sent (Reconcile r k) w)"
  shows "\<exists>agent s pods s' l. get_agent (r_Client r) k (kube w) = (Inr agent, s) \<and>
    IsZero (meta_DeletionTimestamp (agent_Meta agent)) \<and> r_ContainsFinalizer r agent agentFinalizer \<and>
    \<not> spec_Paused (agent_Spec agent) \<and>
    list_pods (r_Client r) (agent_Namespace agent) (pod_selector agent) s = (Inr pods, s') \<and>
    (\<forall>q \<in> set pods. \<not> pod_live q) \<and> r_OwnPod r agent (buildPod agent) = Inr p \<and>
    sent (Reconcile r k) w = [(GetAgent k, Done),
      (ListPods (agent_Namespace agent) (pod_selector agent), Done), (CreatePod p, oc)] @ l \<and>
    (\<forall>x \<in> set l. \<forall>p'. fst x \<noteq> CreatePod p')"
proof -
  let ?w = "w\<lparr>calls := []\<rparr>"
  obtain got s where g: "get_agent (r_Client r) k (kube w) = (got, s)" by fastforce
  show ?thesis
  proof (cases got)
    case (Inl e)
    then show ?thesis using assms g by (simp add: sent_def Reconcile_def monad_simps)
  next
    case (Inr agent)
    let ?w1 = "recorded (GetAgent k) (Inr agent :: kerr + Agent) s ?w"
    have run: "run_state (Reconcile r k) ?w = run_state (reconcile_agent r agent) ?w1"
      using g Inr by (intro run_Reconcile) simp
    have w1: "\<forall>x \<in> set (calls ?w1). creates_no_pod (fst x)" by simp
    have branch: "\<not> emits creates_no_pod (reconcile_agent r agent :: ('k, 'h, 'c, answer) prog)"
      using creates_at_end [of "reconcile_agent r agent", OF _ w1] assms run by (auto simp: sent_def)
    then have conds: "IsZero (meta_DeletionTimestamp (agent_Meta agent))" "r_ContainsFinalizer r agent agentFinalizer"
      by (auto simp: reconcile_agent_def no_pod_unless_missing split: if_splits)
    obtain x s' where x: "list_pods (r_Client r) (agent_Namespace agent) (pod_selector agent) s = (x, s')"
      by fastforce
    let ?w2 = "recorded (ListPods (agent_Namespace agent) (pod_selector agent)) x s' ?w1"
    have w2: "\<forall>x \<in> set (calls ?w2). creates_no_pod (fst x)" by simp
    have run2: "run_state (reconcile_agent r agent) ?w1 =
        (case x of Inl e \<Rightarrow> ((no_result, Some (wrapf ''listing pods: '' e)), ?w2)
         | Inr ps \<Rightarrow> run_state (reconcile_found r agent (find pod_live ps)) ?w2)"
      using conds x by (cases x) (simp_all add: reconcile_agent_def run_findAgentPod)
    obtain pods where pods: "x = Inr pods"
      using assms run run2 by (cases x) (auto simp: sent_def)
    have "\<not> emits creates_no_pod (reconcile_found r agent (find pod_live pods) :: ('k, 'h, 'c, answer) prog)"
      using creates_at_end [of "reconcile_found r agent (find pod_live pods)", OF _ w2] assms run run2 pods
      by (auto simp: sent_def)
    then have live: "\<not> spec_Paused (agent_Spec agent)" "find pod_live pods = None"
      using no_pod_unless_missing(1) by blast+
    have run3: "run_state (Reconcile r k) ?w = run_state (reconcile_missing r agent) ?w2"
      using run run2 pods live by (simp add: reconcile_found_def)
    from missing_trace [OF _ w2, of p oc r agent] assms run3
    have "r_OwnPod r agent (buildPod agent) = Inr p \<and> (\<exists>l. sent (Reconcile r k) w = calls ?w2 @ (CreatePod p, oc) # l \<and>
        (\<forall>x \<in> set l. creates_no_pod (fst x)))" by (simp add: sent_def)
    with g x pods conds live Inr show ?thesis
      by (auto simp: find_None_iff creates_no_pod_def)
  qed
qed

lemmas reconcile_defs =
  Reconcile_def reconcile_agent_def reconcile_found_def reconcile_missing_def report_creation_def
  reconcile_paused_def reconcile_drift_def reconcile_sync_def add_finalizer_def createPod_def
  findAgentPod_def announce_def stamped_def timestamp_def Eventf_def appendHistory_def
  append_event_def updateStatus_def patch_status_of_def delete_pod_if_there_def handleDeletion_def
  remove_finalizer_and_resurrect_def

lemma ref_first_reconcile:
  "\<exists>p l. sent (Reconcile ref_reconciler (''default'', ''a'')) (ref_world (ref_cluster ref_agent [])) =
     (GetAgent (''default'', ''a''), Done) # (ListPods ''default'' (pod_selector ref_agent), Done) #
     (CreatePod p, Done) # l"
  using ref_cluster_simps(1) [of ref_agent]
  by (simp add: sent_def reconcile_defs monad_simps ref_kube_reads ref_create_pod empty_meta_def buildPod_def
      Let_def empty_spec_def)

lemma pod_created_only_when_missing_example:
  "\<exists>p. r_OwnPod ref_reconciler ref_agent (buildPod ref_agent) = Inr p \<and>
     (CreatePod p, Done) \<in> set (sent (Reconcile ref_reconciler (''default'', ''a''))
       (ref_world (ref_cluster ref_agent [])))"
proof -
  obtain p l where s: "sent (Reconcile ref_reconciler (''default'', ''a'')) (ref_world (ref_cluster ref_agent [])) =
     (GetAgent (''default'', ''a''), Done) # (ListPods ''default'' (pod_selector ref_agent), Done) #
     (CreatePod p, Done) # l"
    using ref_first_reconcile by blast
  then have "(CreatePod p, Done) \<in> set (sent (Reconcile ref_reconciler (''default'', ''a''))
      (ref_world (ref_cluster ref_agent [])))" by simp
  from pod_created_only_when_missing [OF this] show ?thesis
    using s ref_cluster_simps(1) [of ref_agent] by (auto simp: ref_kube_reads)
qed

text \<open>
  C22. Whatever the server answers, a reconciliation never creates, deletes or patches an \<open>Agent\<close>
  outside its status; every status patch keeps the conditions as they are, and either records one of
  the phases \<open>Pending\<close>, \<open>Running\<close>, \<open>Stopped\<close>, \<open>Failed\<close>, \<open>Updating\<close> together with the generation just
  read, or sets the service name. So the condition that \<open>setCondition\<close> prepares after a failed
  creation never reaches the server, and no status ever says \<open>Restoring\<close>.
\<close>

theorem reconcile_write_discipline:
  assumes "(q, oc) \<in> set (sent (Reconcile r k) w)"
  shows "reconcile_may q"
  using emits_sent [OF may_Reconcile assms] by simp

definition ref_paused :: Agent where
  "ref_paused = update_spec (\<lambda>s. s\<lparr>spec_Paused := True\<rparr>) ref_agent"

lemma ref_paused_simps [simp]:
  "agent_key ref_paused = (''default'', ''a'')" "agent_Name ref_paused = ''a''"
  "agent_Namespace ref_paused = ''default''" "meta_Finalizers (agent_Meta ref_paused) = [agentFinalizer]"
  "meta_DeletionTimestamp (agent_Meta ref_paused) = None" "spec_Paused (agent_Spec ref_paused)"
  by (simp_all add: ref_paused_def agent_key_def)

lemma ref_paused_reconcile:
  "\<exists>a. sent (Reconcile ref_reconciler (''default'', ''a'')) (ref_world (ref_cluster ref_paused [])) =
     [(GetAgent (''default'', ''a''), Done), (ListPods ''default'' (pod_selector ref_paused), Done),
      (PatchAgentStatus ref_paused a, Done)] \<and> status_Phase (agent_Status a) = AgentPhaseStopped"
  using ref_cluster_simps(1) [of ref_paused]
  by (simp add: sent_def reconcile_defs monad_simps ref_kube_reads ref_kube_writes agent_key_def)

theorem reconcile_write_discipline_witness:
  "\<exists>a. reconcile_may (PatchAgentStatus ref_paused a) \<and> (PatchAgentStatus ref_paused a, Done) \<in>
     set (sent (Reconcile ref_reconciler (''default'', ''a'')) (ref_world (ref_cluster ref_paused [])))"
proof -
  obtain a where "(PatchAgentStatus ref_paused a, Done) \<in> set (sent (Reconcile ref_reconciler
      (''default'', ''a'')) (ref_world (ref_cluster ref_paused [])))"
    using ref_paused_reconcile by (metis list.set_intros)
  from reconcile_write_discipline [OF this] this show ?thesis by blast
qed

section \<open>Deletion\<close>

text \<open>How the deletion runs, and what its last step sends and starts.\<close>

lemma run_deletion:
  fixes w :: "('k, 'h, 'c) world" and r :: "('k, 'h) AgentReconciler"
  assumes "get_agent (r_Client r) k (kube w) = (Inr agent, s)"
    and "\<not> IsZero (meta_DeletionTimestamp (agent_Meta agent))"
    and "list_pods (r_Client r) (agent_Namespace agent) (pod_selector agent) s = (x, s1)"
  defines "u \<equiv> recorded (ListPods (agent_Namespace agent) (pod_selector agent)) x s1
      (recorded (GetAgent k) (Inr agent :: kerr + Agent) s w)"
  shows "run_state (Reconcile r k) w =
     (case x of Inl e \<Rightarrow> ((no_result, Some (wrapf ''listing pods: '' e)), u)
      | Inr ps \<Rightarrow> (case find pod_live ps of
           None \<Rightarrow> run_state (remove_finalizer_and_resurrect r agent) u
         | Some pod \<Rightarrow> (case delete_pod (r_Client r) pod s1 of (y, s2) \<Rightarrow>
             let u' = recorded (DeletePod pod) y s2 u in
             case y of Inr _ \<Rightarrow> run_state (remove_finalizer_and_resurrect r agent) u'
             | Inl e \<Rightarrow> if IsNotFound e then run_state (remove_finalizer_and_resurrect r agent) u'
                       else ((no_result, Some (wrapf ''deleting agent pod: '' e)), u'))))"
  using assms(2,3) run_Reconcile [OF assms(1)]
  by (auto simp: u_def reconcile_agent_def handleDeletion_def run_findAgentPod delete_pod_if_there_def
      monad_simps Let_def recorded_def split: sum.splits option.splits prod.splits)

lemma run_removal:
  fixes u :: "('k, 'h, 'c) world" and r :: "('k, 'h) AgentReconciler" and agent :: Agent
  defines "oc \<equiv> outcome_of (fst (update_agent (r_Client r) (r_RemoveFinalizer r agent agentFinalizer) (kube u)))"
  shows "calls (snd (run_state (remove_finalizer_and_resurrect r agent) u)) =
      calls u @ [(UpdateAgent (r_RemoveFinalizer r agent agentFinalizer), oc)]"
    and "spawned (snd (run_state (remove_finalizer_and_resurrect r agent) u)) = spawned u @
      (if oc = Done \<and> \<not> spec_SelfHealingDisabled (agent_Spec agent) then [resurrection_of agent] else [])"
  by (auto simp: remove_finalizer_and_resurrect_def monad_simps oc_def split: sum.splits)

definition ref_deleted :: Agent where
  "ref_deleted = ref_agent\<lparr>agent_Meta := (agent_Meta ref_agent)\<lparr>meta_DeletionTimestamp := Some 7\<rparr>\<rparr>"

lemma ref_deleted_simps [simp]:
  "agent_key ref_deleted = (''default'', ''a'')" "agent_Name ref_deleted = ''a''"
  "agent_Namespace ref_deleted = ''default''" "meta_Finalizers (agent_Meta ref_deleted) = [agentFinalizer]"
  "meta_DeletionTimestamp (agent_Meta ref_deleted) = Some 7"
  "\<not> spec_SelfHealingDisabled (agent_Spec ref_deleted)"
  by (simp_all add: ref_deleted_def agent_key_def empty_spec_def)



end
