(* ===== verification/Controller_Pods.thy ===== *)
theory Controller_Pods
  imports Agent_Controller
begin

text \<open>
  What the reconciler's pure helpers promise: which pods it recognises as its own and as current,
  which service names it computes, and what it does with the service it finds.
\<close>

section \<open>Pods\<close>

text \<open>
  C33. The pod that \<open>buildPod\<close> makes for an agent is found again by the agent's own selector exactly
  when \<open>spec.podLabels\<close> does not give the owner label or the managed-by label another value. It counts as
  out of date for a later state of the agent exactly when the generation differs, unless
  \<open>spec.podAnnotations\<close> sets the generation annotation, in which case that value decides. So an agent
  that sets it to anything but its own generation has its pod recreated at every reconciliation.
\<close>

theorem built_pod_found_and_current:
  "(matches (pod_selector a) (pod_Labels (buildPod a)) \<longleftrightarrow>
     entries (spec_PodLabels (agent_Spec a)) podOwnerLabel \<in> {None, Some (agent_Name a)} \<and>
     entries (spec_PodLabels (agent_Spec a)) managedByLabel \<in> {None, Some managedByValue}) \<and>
   (specChanged a' (buildPod a) \<longleftrightarrow>
     (case entries (spec_PodAnnotations (agent_Spec a)) generationKey of
        None \<Rightarrow> agent_Generation a' \<noteq> agent_Generation a
      | Some v \<Rightarrow> v \<noteq> int_str (agent_Generation a')))"
  by (auto simp: matches_def pod_selector_def buildPod_def Let_def specChanged_def index_def map_add_def
      split: option.splits)

section \<open>Service names\<close>

definition starts_with_digit :: "string \<Rightarrow> bool" where
  "starts_with_digit s \<longleftrightarrow> (\<exists>c cs. s = c # cs \<and> (48 :: nat) \<le> of_char c \<and> of_char c \<le> (57 :: nat))"

lemma serviceNameFor_cases:
  "serviceNameFor s = (if starts_with_digit s then ''agt-'' @ s else s)"
  by (cases s) (auto simp: serviceNameFor_def starts_with_digit_def)

lemma no_digit_agt: "\<not> starts_with_digit (''agt-'' @ s)"
  by (auto simp: starts_with_digit_def)

text \<open>
  A service name never starts with a digit, but two agents share one exactly when one of them is
  called like the other with \<open>agt-\<close> in front and that other name starts with a digit.
\<close>

lemma service_name_collisions:
  "\<not> starts_with_digit (serviceNameFor m) \<and>
   (serviceNameFor m = serviceNameFor n \<longleftrightarrow>
      m = n \<or> (starts_with_digit n \<and> m = ''agt-'' @ n) \<or> (starts_with_digit m \<and> n = ''agt-'' @ m))"
  using no_digit_agt [of m] no_digit_agt [of n] by (auto simp: serviceNameFor_cases)

section \<open>Services\<close>


definition ref_port_agent :: Agent where
  "ref_port_agent = update_spec (\<lambda>s. s\<lparr>spec_ServicePort := 80\<rparr>) ref_agent"


end
