(* ===== verification/Deep_Copy.thy ===== *)
theory Deep_Copy
  imports Agent_Types "HOL-Library.Sublist"
begin

text \<open>
  The deep copies of \<open>api/v1alpha1/deepcopy_extra.go\<close> and \<open>zz_generated.deepcopy.go\<close>, on an explicit heap. The
  rest of the development treats objects as values; the theorem of this theory is what makes that right for
  copies: \<open>DeepCopy\<close> yields an equal value that shares no memory with the original.

  A slice, a map and a pointer are addresses of cells. A slice is the whole of its array; spare capacity is not
  modelled. The structs of Kubernetes, with the memory they refer to, are not code of the repository: they are
  the parameter \<open>'o\<close>, with their own \<open>DeepCopyInto\<close>.
\<close>

section \<open>The heap\<close>

record 'o GoSpec =
  g_Image :: string
  g_ImagePullPolicy :: string
  g_ImagePullSecrets :: "nat option"
  g_Env :: "nat option"
  g_EnvFrom :: "nat option"
  g_Resources :: 'o
  g_ServiceAccountName :: string
  g_Command :: "nat option"
  g_Args :: "nat option"
  g_Volumes :: "nat option"
  g_VolumeMounts :: "nat option"
  g_RestartPolicy :: string
  g_PodLabels :: "nat option"
  g_PodAnnotations :: "nat option"
  g_Paused :: bool
  g_SelfHealingDisabled :: bool
  g_ServicePort :: int
  g_ServiceProtocol :: string
  g_IdleTimeout :: int

record GoStatus =
  g_Phase :: string
  g_PodName :: string
  g_PodIP :: string
  g_Message :: string
  g_ObservedGeneration :: int
  g_LastUpdated :: "nat option"
  g_Conditions :: "nat option"
  g_RestoredAt :: "nat option"
  g_RestoredFrom :: string
  g_ServiceName :: string

record 'o GoAgent =
  g_Meta :: 'o
  g_Spec :: "'o GoSpec"
  g_Status :: GoStatus

datatype 'o cell =
    CStrings (strings_of: "string list")
  | CFlat (flat_of: "k8s_value list") \<comment> \<open>structs without pointers, as \<open>LocalObjectReference\<close>\<close>
  | CMap (map_of_cell: "string \<rightharpoonup> string")
  | CTime (time_of: int)
  | CConds (conds_of: "AgentCondition list")
  | CObjs (objs_of: "'o list")
  | CAgents (agents_of: "'o GoAgent list")
  | CInner k8s_value \<comment> \<open>memory that Kubernetes structs refer to\<close>

type_synonym 'o heap = "'o cell list"

definition new_cell :: "'o cell \<Rightarrow> ('o heap, nat) state" where
  "new_cell c = State (\<lambda>h. (length h, h @ [c]))"

definition cell_at :: "nat \<Rightarrow> ('o heap, 'o cell) state" where
  "cell_at p = State (\<lambda>h. (h ! p, h))"

definition put_cell :: "nat \<Rightarrow> 'o cell \<Rightarrow> ('o heap, unit) state" where
  "put_cell p c = State (\<lambda>h. ((), h[p := c]))"

lemma run_heap [simp]:
  "run_state (new_cell c) h = (length h, h @ [c])" "run_state (cell_at p) h = (h ! p, h)"
  "run_state (put_cell p c) h = ((), h[p := c])"
  by (simp_all add: new_cell_def cell_at_def put_cell_def)

section \<open>Copying arrays, maps and pointers\<close>

text \<open>
  \<open>make\<close> and \<open>copy\<close> of an array of values, \<open>make\<close> and a loop over the keys of a map, and \<open>DeepCopy\<close> of a time: a
  new cell with the content of the old one.
\<close>

definition copy_cell :: "nat option \<Rightarrow> ('o heap, nat option) state" where
  "copy_cell r = (case r of
     None \<Rightarrow> State_Monad.return None
   | Some p \<Rightarrow> do { c \<leftarrow> cell_at p; q \<leftarrow> new_cell c; State_Monad.return (Some q) })"

text \<open>Arrays of structs, with the zero value of their type.\<close>

record ('o, 'e) arr =
  a_make :: "'e list \<Rightarrow> 'o cell"
  a_elems :: "'o cell \<Rightarrow> 'e list"
  a_zero :: 'e

text \<open>\<open>for i := range *in { (*in)[i].DeepCopyInto(&(*out)[i]) }\<close>.\<close>

primrec copy_loop ::
  "('o, 'e) arr \<Rightarrow> ('e \<Rightarrow> ('o heap, 'e) state) \<Rightarrow> nat \<Rightarrow> nat \<Rightarrow> nat list \<Rightarrow> ('o heap, unit) state" where
  "copy_loop A cp p q [] = State_Monad.return ()"
| "copy_loop A cp p q (i # is) = do {
     c \<leftarrow> cell_at p;
     y \<leftarrow> cp (a_elems A c ! i);
     d \<leftarrow> cell_at q;
     put_cell q (a_make A ((a_elems A d)[i := y]));
     copy_loop A cp p q is }"

definition copy_array ::
  "('o, 'e) arr \<Rightarrow> ('e \<Rightarrow> ('o heap, 'e) state) \<Rightarrow> nat option \<Rightarrow> ('o heap, nat option) state" where
  "copy_array A cp r = (case r of
     None \<Rightarrow> State_Monad.return None
   | Some p \<Rightarrow> do {
       c \<leftarrow> cell_at p;
       let n = length (a_elems A c);
       q \<leftarrow> new_cell (a_make A (replicate n (a_zero A)));
       copy_loop A cp p q [0..<n];
       State_Monad.return (Some q) })"

section \<open>The copies\<close>

text \<open>
  The structs of Kubernetes: their \<open>DeepCopyInto\<close>, their zero value, the addresses they refer to, and what
  they mean as values of the model.
\<close>

record ('o, 'v) KObjects =
  k_copy :: "'o \<Rightarrow> ('o heap, 'o) state"
  k_zero :: 'o
  k_refs :: "'o heap \<Rightarrow> 'o \<Rightarrow> nat set"
  k_view :: "'o heap \<Rightarrow> 'o \<Rightarrow> 'v"
  k_env :: "'v \<Rightarrow> EnvVar"
  k_value :: "'v \<Rightarrow> k8s_value"
  k_meta :: "'v \<Rightarrow> ObjectMeta"

definition objs :: "('o, 'v) KObjects \<Rightarrow> ('o, 'o) arr" where
  "objs K = \<lparr>a_make = CObjs, a_elems = objs_of, a_zero = k_zero K\<rparr>"

text \<open>\<open>metav1.Time\<close> is copied by assignment.\<close>

definition DeepCopyInto_condition :: "AgentCondition \<Rightarrow> ('o heap, AgentCondition) state" where
  "DeepCopyInto_condition c = State_Monad.return c"

definition DeepCopyInto_event :: "LifecycleEvent \<Rightarrow> ('o heap, LifecycleEvent) state" where
  "DeepCopyInto_event e = State_Monad.return e"

definition conds :: "('o, AgentCondition) arr" where
  "conds = \<lparr>a_make = CConds, a_elems = conds_of, a_zero = \<lparr>cond_Type = '''', cond_Status = '''',
     cond_LastTransitionTime = zero_time, cond_Reason = '''', cond_Message = ''''\<rparr>\<rparr>"

definition DeepCopyInto_spec :: "('o, 'v) KObjects \<Rightarrow> 'o GoSpec \<Rightarrow> ('o heap, 'o GoSpec) state" where
  "DeepCopyInto_spec K g = do {
     secrets \<leftarrow> copy_cell (g_ImagePullSecrets g);
     env \<leftarrow> copy_array (objs K) (k_copy K) (g_Env g);
     envFrom \<leftarrow> copy_array (objs K) (k_copy K) (g_EnvFrom g);
     resources \<leftarrow> k_copy K (g_Resources g);
     command \<leftarrow> copy_cell (g_Command g);
     args \<leftarrow> copy_cell (g_Args g);
     volumes \<leftarrow> copy_array (objs K) (k_copy K) (g_Volumes g);
     volumeMounts \<leftarrow> copy_array (objs K) (k_copy K) (g_VolumeMounts g);
     podLabels \<leftarrow> copy_cell (g_PodLabels g);
     podAnnotations \<leftarrow> copy_cell (g_PodAnnotations g);
     State_Monad.return (g\<lparr>g_ImagePullSecrets := secrets, g_Env := env, g_EnvFrom := envFrom,
       g_Resources := resources, g_Command := command, g_Args := args, g_Volumes := volumes,
       g_VolumeMounts := volumeMounts, g_PodLabels := podLabels, g_PodAnnotations := podAnnotations\<rparr>) }"

definition DeepCopyInto_status :: "GoStatus \<Rightarrow> ('o heap, GoStatus) state" where
  "DeepCopyInto_status st = do {
     lastUpdated \<leftarrow> copy_cell (g_LastUpdated st);
     conditions \<leftarrow> copy_array conds DeepCopyInto_condition (g_Conditions st);
     restoredAt \<leftarrow> copy_cell (g_RestoredAt st);
     State_Monad.return (st\<lparr>g_LastUpdated := lastUpdated, g_Conditions := conditions, g_RestoredAt := restoredAt\<rparr>) }"

definition DeepCopyInto_agent :: "('o, 'v) KObjects \<Rightarrow> 'o GoAgent \<Rightarrow> ('o heap, 'o GoAgent) state" where
  "DeepCopyInto_agent K a = do {
     meta \<leftarrow> k_copy K (g_Meta a);
     spec \<leftarrow> DeepCopyInto_spec K (g_Spec a);
     status \<leftarrow> DeepCopyInto_status (g_Status a);
     State_Monad.return (a\<lparr>g_Meta := meta, g_Spec := spec, g_Status := status\<rparr>) }"

text \<open>\<open>DeepCopy\<close> of any of the types: nil for nil, else a new struct that \<open>DeepCopyInto\<close> fills.\<close>

definition DeepCopy :: "('a \<Rightarrow> ('o heap, 'a) state) \<Rightarrow> 'a option \<Rightarrow> ('o heap, 'a option) state" where
  "DeepCopy into x = (case x of
     None \<Rightarrow> State_Monad.return None
   | Some a \<Rightarrow> do { b \<leftarrow> into a; State_Monad.return (Some b) })"

text \<open>The zero value of an \<open>Agent\<close>, and \<open>AgentList\<close>, of which the items are kept.\<close>

definition zero_agent :: "('o, 'v) KObjects \<Rightarrow> 'o GoAgent" where
  "zero_agent K =
     \<lparr>g_Meta = k_zero K,
      g_Spec = \<lparr>g_Image = '''', g_ImagePullPolicy = '''', g_ImagePullSecrets = None, g_Env = None, g_EnvFrom = None,
        g_Resources = k_zero K, g_ServiceAccountName = '''', g_Command = None, g_Args = None, g_Volumes = None,
        g_VolumeMounts = None, g_RestartPolicy = '''', g_PodLabels = None, g_PodAnnotations = None, g_Paused = False,
        g_SelfHealingDisabled = False, g_ServicePort = 0, g_ServiceProtocol = '''', g_IdleTimeout = 0\<rparr>,
      g_Status = \<lparr>g_Phase = '''', g_PodName = '''', g_PodIP = '''', g_Message = '''', g_ObservedGeneration = 0,
        g_LastUpdated = None, g_Conditions = None, g_RestoredAt = None, g_RestoredFrom = '''', g_ServiceName = ''''\<rparr>\<rparr>"

definition DeepCopyInto_list :: "('o, 'v) KObjects \<Rightarrow> nat option \<Rightarrow> ('o heap, nat option) state" where
  "DeepCopyInto_list K items =
     copy_array \<lparr>a_make = CAgents, a_elems = agents_of, a_zero = zero_agent K\<rparr> (DeepCopyInto_agent K) items"

text \<open>\<open>DeepCopy\<close> of each type, and \<open>DeepCopyObject\<close>, which turns a nil pointer into a nil interface.\<close>

definition AgentCondition_DeepCopy :: "AgentCondition option \<Rightarrow> ('o heap, AgentCondition option) state" where
  "AgentCondition_DeepCopy = DeepCopy DeepCopyInto_condition"

definition LifecycleEvent_DeepCopy :: "LifecycleEvent option \<Rightarrow> ('o heap, LifecycleEvent option) state" where
  "LifecycleEvent_DeepCopy = DeepCopy DeepCopyInto_event"

definition AgentSpec_DeepCopy :: "('o, 'v) KObjects \<Rightarrow> 'o GoSpec option \<Rightarrow> ('o heap, 'o GoSpec option) state" where
  "AgentSpec_DeepCopy K = DeepCopy (DeepCopyInto_spec K)"

definition AgentStatus_DeepCopy :: "GoStatus option \<Rightarrow> ('o heap, GoStatus option) state" where
  "AgentStatus_DeepCopy = DeepCopy DeepCopyInto_status"

definition Agent_DeepCopy :: "('o, 'v) KObjects \<Rightarrow> 'o GoAgent option \<Rightarrow> ('o heap, 'o GoAgent option) state" where
  "Agent_DeepCopy K = DeepCopy (DeepCopyInto_agent K)"

definition AgentList_DeepCopy ::
  "('o, 'v) KObjects \<Rightarrow> nat option option \<Rightarrow> ('o heap, nat option option) state" where
  "AgentList_DeepCopy K = DeepCopy (DeepCopyInto_list K)"

definition Agent_DeepCopyObject :: "('o, 'v) KObjects \<Rightarrow> 'o GoAgent option \<Rightarrow> ('o heap, 'o GoAgent option) state" where
  "Agent_DeepCopyObject K x = do {
     c \<leftarrow> Agent_DeepCopy K x;
     if c \<noteq> None then State_Monad.return c else State_Monad.return None }"

definition AgentList_DeepCopyObject ::
  "('o, 'v) KObjects \<Rightarrow> nat option option \<Rightarrow> ('o heap, nat option option) state" where
  "AgentList_DeepCopyObject K x = do {
     c \<leftarrow> AgentList_DeepCopy K x;
     if c \<noteq> None then State_Monad.return c else State_Monad.return None }"

lemmas deep_copy_defs = AgentCondition_DeepCopy_def LifecycleEvent_DeepCopy_def AgentSpec_DeepCopy_def
  AgentStatus_DeepCopy_def Agent_DeepCopy_def AgentList_DeepCopy_def Agent_DeepCopyObject_def AgentList_DeepCopyObject_def

section \<open>Views and footprints\<close>

text \<open>
  \<open>D h x\<close> is the value that \<open>x\<close> denotes in the heap \<open>h\<close>, \<open>F h x\<close> the set of addresses that it is read from.
\<close>

definition local_view :: "('o heap \<Rightarrow> 'e \<Rightarrow> 'v) \<Rightarrow> ('o heap \<Rightarrow> 'e \<Rightarrow> nat set) \<Rightarrow> bool" where
  "local_view D F \<longleftrightarrow> (\<forall>h h' x. (\<forall>i \<in> F h x. i < length h \<and> i < length h' \<and> h' ! i = h ! i) \<longrightarrow>
     D h' x = D h x \<and> F h' x = F h x)"

abbreviation valid :: "('o heap \<Rightarrow> 'e \<Rightarrow> nat set) \<Rightarrow> 'o heap \<Rightarrow> 'e \<Rightarrow> bool" where
  "valid F h x \<equiv> F h x \<subseteq> {..<length h}"

text \<open>\<open>y\<close> in \<open>h\<close> is a copy of what \<open>x\<close> was in \<open>h0\<close>, in memory that is new since then.\<close>

definition copied ::
  "'o heap \<Rightarrow> ('o heap \<Rightarrow> 'e \<Rightarrow> 'v) \<Rightarrow> ('o heap \<Rightarrow> 'e \<Rightarrow> nat set) \<Rightarrow> 'e \<Rightarrow> 'e \<Rightarrow> 'o heap \<Rightarrow> bool" where
  "copied h0 D F x y h \<longleftrightarrow> D h y = D h0 x \<and> F h y \<subseteq> {length h0..<length h}"

text \<open>From every heap that extends \<open>h0\<close>, \<open>m\<close> only adds cells and ends with \<open>Q\<close>.\<close>

definition copying :: "'o heap \<Rightarrow> ('a \<Rightarrow> 'o heap \<Rightarrow> bool) \<Rightarrow> ('o heap, 'a) state \<Rightarrow> bool" where
  "copying h0 Q m \<longleftrightarrow> (\<forall>h. prefix h0 h \<longrightarrow>
     prefix h (snd (run_state m h)) \<and> Q (fst (run_state m h)) (snd (run_state m h)))"

definition copies ::
  "('o heap \<Rightarrow> 'e \<Rightarrow> 'v) \<Rightarrow> ('o heap \<Rightarrow> 'e \<Rightarrow> nat set) \<Rightarrow> ('e \<Rightarrow> ('o heap, 'e) state) \<Rightarrow> bool" where
  "copies D F cp \<longleftrightarrow> (\<forall>h x. valid F h x \<longrightarrow> (let (y, h') = run_state (cp x) h in prefix h h' \<and> copied h D F x y h'))"

lemma copiesI: "(\<And>h x. valid F h x \<Longrightarrow> copying h (copied h D F x) (cp x)) \<Longrightarrow> copies D F cp"
  by (simp add: copies_def copying_def Let_def case_prod_beta)

lemma copies_run:
  "copies D F cp \<Longrightarrow> valid F h x \<Longrightarrow> run_state (cp x) h = (y, h') \<Longrightarrow> prefix h h' \<and> copied h D F x y h'"
  unfolding copies_def by fastforce

lemma prefix_nth: "prefix h h' \<Longrightarrow> i < length h \<Longrightarrow> i < length h' \<and> h' ! i = h ! i"
  by (auto simp: prefix_def nth_append)

lemma local_prefix:
  assumes "local_view D F" "valid F h x" "prefix h h'"
  shows "D h' x = D h x" "F h' x = F h x"
proof -
  have "\<forall>i \<in> F h x. i < length h \<and> i < length h' \<and> h' ! i = h ! i"
    using assms(2) prefix_nth [OF assms(3)] by auto
  then show "D h' x = D h x" "F h' x = F h x" using assms(1) unfolding local_view_def by blast+
qed

lemma copied_mono:
  assumes "local_view D F" "copied h0 D F x y h" "prefix h h'"
  shows "copied h0 D F x y h'"
proof -
  have "valid F h y" using assms(2) by (auto simp: copied_def)
  from local_prefix [OF assms(1) this assms(3)] show ?thesis
    using assms(2) prefix_length_le [OF assms(3)] by (auto simp: copied_def)
qed

lemma copiesD:
  assumes "copies D F cp" "local_view D F" "valid F h0 x"
  shows "copying h0 (copied h0 D F x) (cp x)"
  unfolding copying_def
proof (intro allI impI)
  fix h assume h: "prefix h0 h"
  note same = local_prefix [OF assms(2,3) h]
  have "valid F h x" using same(2) assms(3) prefix_length_le [OF h] by auto
  then have "prefix h (snd (run_state (cp x) h)) \<and> copied h D F x (fst (run_state (cp x) h)) (snd (run_state (cp x) h))"
    using assms(1) by (simp add: copies_def Let_def case_prod_beta)
  then show "prefix h (snd (run_state (cp x) h)) \<and> copied h0 D F x (fst (run_state (cp x) h)) (snd (run_state (cp x) h))"
    using same(1) prefix_length_le [OF h] unfolding copied_def by fastforce
qed

lemma copying_ret: "(\<And>h. prefix h0 h \<Longrightarrow> R x h) \<Longrightarrow> copying h0 R (State_Monad.return x)"
  by (simp add: copying_def)

lemma copying_bind:
  assumes "copies D F cp" and "local_view D F" and "valid F h0 x"
    and f: "\<And>y. copying h0 (\<lambda>z h. copied h0 D F x y h \<longrightarrow> R z h) (f y)"
  shows "copying h0 R (State_Monad.bind (cp x) f)"
  unfolding copying_def
proof (intro allI impI)
  fix h assume h: "prefix h0 h"
  obtain y h1 where y: "run_state (cp x) h = (y, h1)" by fastforce
  then have h1: "prefix h h1" "copied h0 D F x y h1"
    using copiesD [OF assms(1-3)] h by (auto simp: copying_def)
  obtain z h2 where z: "run_state (f y) h1 = (z, h2)" by fastforce
  have "prefix h0 h1" using h h1(1) by (rule prefix_order.trans)
  then have h2: "prefix h1 h2" "copied h0 D F x y h2 \<longrightarrow> R z h2"
    using f [of y] z by (auto simp: copying_def)
  have "R z h2" using h2(2) copied_mono [OF assms(2) h1(2) h2(1)] by blast
  moreover have "prefix h h2" using h1(1) h2(1) by (rule prefix_order.trans)
  ultimately show "prefix h (snd (run_state (State_Monad.bind (cp x) f) h)) \<and>
      R (fst (run_state (State_Monad.bind (cp x) f) h)) (snd (run_state (State_Monad.bind (cp x) f) h))"
    using y z by simp
qed

section \<open>The parts\<close>

definition cell_view :: "'o heap \<Rightarrow> nat option \<Rightarrow> 'o cell option" where
  "cell_view h r = map_option (\<lambda>p. h ! p) r"

definition cell_refs :: "'o heap \<Rightarrow> nat option \<Rightarrow> nat set" where
  "cell_refs h r = set_option r"

lemma local_cell: "local_view cell_view cell_refs"
  by (auto simp: local_view_def cell_view_def cell_refs_def intro: option.map_cong0)

lemma copies_cell: "copies cell_view cell_refs copy_cell"
  by (auto simp: copies_def copying_def copied_def cell_view_def cell_refs_def copy_cell_def prefix_def nth_append
      split: option.split)

definition arr_view ::
  "('o, 'e) arr \<Rightarrow> ('o heap \<Rightarrow> 'e \<Rightarrow> 'v) \<Rightarrow> 'o heap \<Rightarrow> nat option \<Rightarrow> 'v list option" where
  "arr_view A D h r = map_option (\<lambda>p. map (D h) (a_elems A (h ! p))) r"

definition arr_refs ::
  "('o, 'e) arr \<Rightarrow> ('o heap \<Rightarrow> 'e \<Rightarrow> nat set) \<Rightarrow> 'o heap \<Rightarrow> nat option \<Rightarrow> nat set" where
  "arr_refs A F h r = (case r of None \<Rightarrow> {} | Some p \<Rightarrow> insert p (\<Union>x \<in> set (a_elems A (h ! p)). F h x))"

lemma local_arr:
  fixes A :: "('o, 'e) arr"
  shows "local_view D F \<Longrightarrow> local_view (arr_view A D) (arr_refs A F)"
  unfolding local_view_def
proof (intro allI impI)
  fix h h' :: "'o heap" and r
  assume L: "\<forall>h h' x. (\<forall>i \<in> F h x. i < length h \<and> i < length h' \<and> h' ! i = h ! i) \<longrightarrow> D h' x = D h x \<and> F h' x = F h x"
    and r: "\<forall>i \<in> arr_refs A F h r. i < length h \<and> i < length h' \<and> h' ! i = h ! i"
  show "arr_view A D h' r = arr_view A D h r \<and> arr_refs A F h' r = arr_refs A F h r"
  proof (cases r)
    case (Some p)
    have p: "h' ! p = h ! p" using r Some by (simp add: arr_refs_def)
    have "\<forall>i \<in> F h x. i < length h \<and> i < length h' \<and> h' ! i = h ! i" if "x \<in> set (a_elems A (h ! p))" for x
      using r Some that by (auto simp: arr_refs_def)
    then have "D h' x = D h x \<and> F h' x = F h x" if "x \<in> set (a_elems A (h ! p))" for x
      using that L by metis
    then have "map (D h') (a_elems A (h ! p)) = map (D h) (a_elems A (h ! p))"
      and "(\<Union>x \<in> set (a_elems A (h ! p)). F h' x) = (\<Union>x \<in> set (a_elems A (h ! p)). F h x)"
      by (auto cong: map_cong)
    then show ?thesis by (simp add: Some p arr_view_def arr_refs_def)
  qed (simp add: arr_view_def arr_refs_def)
qed

text \<open>
  The loop, started on \<open>h\<close> with a new array at \<open>length h\<close>: after \<open>n\<close> rounds the first \<open>n\<close> elements are copies, in memory
  beyond the array.
\<close>

definition loop_inv ::
  "('o, 'e) arr \<Rightarrow> ('o heap \<Rightarrow> 'e \<Rightarrow> 'v) \<Rightarrow> ('o heap \<Rightarrow> 'e \<Rightarrow> nat set) \<Rightarrow> 'o heap \<Rightarrow> 'e list \<Rightarrow> nat \<Rightarrow> 'o heap \<Rightarrow> bool" where
  "loop_inv A D F h xs n g \<longleftrightarrow> prefix h g \<and> length h < length g \<and>
     (\<exists>ys. g ! length h = a_make A ys \<and> length ys = length xs \<and>
        (\<forall>j < n. D g (ys ! j) = D h (xs ! j) \<and> F g (ys ! j) \<subseteq> {Suc (length h)..<length g}))"

lemma prefix_update: "prefix h g \<Longrightarrow> length h \<le> q \<Longrightarrow> prefix h (g[q := c])"
  by (auto simp: prefix_def list_update_append)

lemma loop_step:
  assumes A: "\<And>xs. a_elems A (a_make A xs) = xs" and cp: "copies D F cp" and L: "local_view D F"
    and p: "p < length h" "a_elems A (h ! p) = xs" "\<forall>x \<in> set xs. valid F h x"
    and n: "n < length xs" and inv: "loop_inv A D F h xs n g"
  shows "\<exists>g2. loop_inv A D F h xs (Suc n) g2 \<and>
    (\<forall>is. run_state (copy_loop A cp p (length h) (n # is)) g = run_state (copy_loop A cp p (length h) is) g2)"
proof -
  let ?q = "length h"
  obtain ys where g: "prefix h g" "?q < length g" "g ! ?q = a_make A ys" "length ys = length xs"
    and ys: "\<forall>j < n. D g (ys ! j) = D h (xs ! j) \<and> F g (ys ! j) \<subseteq> {Suc ?q..<length g}"
    using inv unfolding loop_inv_def by blast
  have v: "valid F h (xs ! n)" using p(3) n by simp
  note same = local_prefix [OF L v g(1)]
  have "valid F g (xs ! n)" using same(2) v g(2) by auto
  then obtain y g1 where y: "run_state (cp (xs ! n)) g = (y, g1)" "prefix g g1" "D g1 y = D h (xs ! n)"
    "F g1 y \<subseteq> {length g..<length g1}"
    using cp same(1) unfolding copies_def copied_def Let_def by (metis (mono_tags, lifting) case_prod_beta prod.collapse)
  have len: "length g \<le> length g1" using prefix_length_le [OF y(2)] .
  let ?g2 = "g1[?q := a_make A (ys[n := y])]"
  have hg1: "prefix h g1" using g(1) y(2) by (rule prefix_order.trans)
  have old: "D ?g2 (ys ! j) = D h (xs ! j) \<and> F ?g2 (ys ! j) \<subseteq> {Suc ?q..<length g1}" if "j < n" for j
  proof -
    have "\<forall>i \<in> F g (ys ! j). i < length g \<and> i < length ?g2 \<and> ?g2 ! i = g ! i"
      using ys that len prefix_nth [OF y(2)] by fastforce
    then have "D ?g2 (ys ! j) = D g (ys ! j) \<and> F ?g2 (ys ! j) = F g (ys ! j)" using L unfolding local_view_def by blast
    then show ?thesis using ys that len by fastforce
  qed
  have "\<forall>i \<in> F g1 y. i < length g1 \<and> i < length ?g2 \<and> ?g2 ! i = g1 ! i" using y(4) g(2) by auto
  then have "D ?g2 y = D g1 y \<and> F ?g2 y = F g1 y" using L unfolding local_view_def by blast
  then have new: "D ?g2 y = D h (xs ! n) \<and> F ?g2 y \<subseteq> {Suc ?q..<length g1}" using y(3,4) g(2) by auto
  have "D ?g2 (ys[n := y] ! j) = D h (xs ! j) \<and> F ?g2 (ys[n := y] ! j) \<subseteq> {Suc ?q..<length ?g2}" if "j < Suc n" for j
    using that old [of j] new n g(4) by (cases "j = n") simp_all
  then have "loop_inv A D F h xs (Suc n) ?g2"
    unfolding loop_inv_def using g(2,4) len prefix_update [OF hg1 le_refl]
    by (intro conjI exI [of _ "ys[n := y]"] allI impI) simp_all
  moreover have "g ! p = h ! p" using prefix_nth [OF g(1) p(1)] by simp
  moreover have "g1 ! ?q = a_make A ys" using prefix_nth [OF y(2) g(2)] g(3) by simp
  ultimately show ?thesis using y(1) p(2) A by (intro exI [of _ ?g2]) simp
qed

lemma loop_runs:
  assumes "\<And>xs. a_elems A (a_make A xs) = xs" "copies D F cp" "local_view D F"
    and "p < length h" "a_elems A (h ! p) = xs" "\<forall>x \<in> set xs. valid F h x"
  shows "n \<le> length xs \<Longrightarrow> loop_inv A D F h xs n g \<Longrightarrow>
    loop_inv A D F h xs (length xs) (snd (run_state (copy_loop A cp p (length h) [n..<length xs]) g))"
proof (induction "length xs - n" arbitrary: n g)
  case (Suc k)
  then have n: "n < length xs" by simp
  obtain g2 where "loop_inv A D F h xs (Suc n) g2"
    "run_state (copy_loop A cp p (length h) (n # [Suc n..<length xs])) g = run_state (copy_loop A cp p (length h) [Suc n..<length xs]) g2"
    using loop_step [OF assms n Suc.prems(2)] by blast
  then show ?case using Suc.hyps n by (simp add: upt_conv_Cons del: copy_loop.simps)
qed simp

lemma copies_arr:
  assumes "\<And>xs. a_elems A (a_make A xs) = xs" "copies D F cp" "local_view D F"
  shows "copies (arr_view A D) (arr_refs A F) (copy_array A cp)"
  unfolding copies_def
proof (intro allI impI)
  fix h r assume v: "valid (arr_refs A F) h r"
  show "let (y, h') = run_state (copy_array A cp r) h in prefix h h' \<and> copied h (arr_view A D) (arr_refs A F) r y h'"
  proof (cases r)
    case (Some p)
    let ?xs = "a_elems A (h ! p)"
    have p: "p < length h" "\<forall>x \<in> set ?xs. valid F h x" using v Some by (auto simp: arr_refs_def)
    let ?g0 = "h @ [a_make A (replicate (length ?xs) (a_zero A))]"
    have "loop_inv A D F h ?xs 0 ?g0" by (auto simp: loop_inv_def intro!: exI [of _ "replicate (length ?xs) (a_zero A)"])
    from loop_runs [OF assms p(1) refl p(2) _ this] obtain g where
      g: "g = snd (run_state (copy_loop A cp p (length h) [0..<length ?xs]) ?g0)" and "loop_inv A D F h ?xs (length ?xs) g"
      by simp
    then obtain ys where "prefix h g" "length h < length g" "g ! length h = a_make A ys" and len: "length ys = length ?xs"
      and ys: "\<forall>j < length ?xs. D g (ys ! j) = D h (?xs ! j) \<and> F g (ys ! j) \<subseteq> {Suc (length h)..<length g}"
      unfolding loop_inv_def by blast
    moreover have "map (D g) ys = map (D h) ?xs" using len ys by (intro nth_equalityI) simp_all
    moreover have "(\<Union>x \<in> set ys. F g x) \<subseteq> {length h..<length g}" using len ys by (fastforce simp: set_conv_nth)
    ultimately show ?thesis
      using g assms(1) by (simp add: Some copy_array_def Let_def copied_def arr_view_def arr_refs_def case_prod_beta)
  qed (simp add: copy_array_def copied_def arr_view_def arr_refs_def)
qed

section \<open>What a copied object means\<close>

definition spec_of :: "('o, 'v) KObjects \<Rightarrow> 'o heap \<Rightarrow> 'o GoSpec \<Rightarrow> AgentSpec" where
  "spec_of K h g = (let array = arr_view (objs K) (k_view K) h in
     \<lparr>spec_Image = g_Image g, spec_ImagePullPolicy = g_ImagePullPolicy g,
      spec_ImagePullSecrets = map_option flat_of (cell_view h (g_ImagePullSecrets g)),
      spec_Env = map_option (map (k_env K)) (array (g_Env g)),
      spec_EnvFrom = map_option (map (k_value K)) (array (g_EnvFrom g)),
      spec_Resources = k_value K (k_view K h (g_Resources g)),
      spec_ServiceAccountName = g_ServiceAccountName g,
      spec_Command = map_option strings_of (cell_view h (g_Command g)),
      spec_Args = map_option strings_of (cell_view h (g_Args g)),
      spec_Volumes = map_option (map (k_value K)) (array (g_Volumes g)),
      spec_VolumeMounts = map_option (map (k_value K)) (array (g_VolumeMounts g)),
      spec_RestartPolicy = g_RestartPolicy g,
      spec_PodLabels = map_option map_of_cell (cell_view h (g_PodLabels g)),
      spec_PodAnnotations = map_option map_of_cell (cell_view h (g_PodAnnotations g)),
      spec_Paused = g_Paused g, spec_SelfHealingDisabled = g_SelfHealingDisabled g,
      spec_ServicePort = g_ServicePort g, spec_ServiceProtocol = g_ServiceProtocol g,
      spec_IdleTimeout = g_IdleTimeout g\<rparr>)"

definition spec_refs :: "('o, 'v) KObjects \<Rightarrow> 'o heap \<Rightarrow> 'o GoSpec \<Rightarrow> nat set" where
  "spec_refs K h g = (let array = arr_refs (objs K) (k_refs K) h in
     cell_refs h (g_ImagePullSecrets g) \<union> array (g_Env g) \<union> array (g_EnvFrom g) \<union> k_refs K h (g_Resources g) \<union>
     cell_refs h (g_Command g) \<union> cell_refs h (g_Args g) \<union> array (g_Volumes g) \<union> array (g_VolumeMounts g) \<union>
     cell_refs h (g_PodLabels g) \<union> cell_refs h (g_PodAnnotations g))"

definition status_of :: "'o heap \<Rightarrow> GoStatus \<Rightarrow> AgentStatus" where
  "status_of h g =
     \<lparr>status_Phase = g_Phase g, status_PodName = g_PodName g, status_PodIP = g_PodIP g, status_Message = g_Message g,
      status_ObservedGeneration = g_ObservedGeneration g,
      status_LastUpdated = map_option time_of (cell_view h (g_LastUpdated g)),
      status_Conditions = (case arr_view conds (\<lambda>h c. c) h (g_Conditions g) of None \<Rightarrow> [] | Some cs \<Rightarrow> cs),
      status_RestoredAt = map_option time_of (cell_view h (g_RestoredAt g)),
      status_RestoredFrom = g_RestoredFrom g, status_ServiceName = g_ServiceName g\<rparr>"

definition status_refs :: "'o heap \<Rightarrow> GoStatus \<Rightarrow> nat set" where
  "status_refs h g = cell_refs h (g_LastUpdated g) \<union> arr_refs conds (\<lambda>h c. {}) h (g_Conditions g) \<union>
     cell_refs h (g_RestoredAt g)"

definition agent_of :: "('o, 'v) KObjects \<Rightarrow> 'o heap \<Rightarrow> 'o GoAgent \<Rightarrow> Agent" where
  "agent_of K h a = \<lparr>agent_Meta = k_meta K (k_view K h (g_Meta a)), agent_Spec = spec_of K h (g_Spec a),
     agent_Status = status_of h (g_Status a)\<rparr>"

definition agent_refs :: "('o, 'v) KObjects \<Rightarrow> 'o heap \<Rightarrow> 'o GoAgent \<Rightarrow> nat set" where
  "agent_refs K h a = k_refs K h (g_Meta a) \<union> spec_refs K h (g_Spec a) \<union> status_refs h (g_Status a)"

section \<open>The contract of the Kubernetes structs, and the copies\<close>

locale k8s_copies =
  fixes K :: "('o, 'v) KObjects"
  assumes local_objects: "local_view (k_view K) (k_refs K)"
    and copies_objects: "copies (k_view K) (k_refs K) (k_copy K)"

lemma localD:
  "local_view D F \<Longrightarrow> \<forall>i \<in> F h x. i < length h \<and> i < length h' \<and> h' ! i = h ! i \<Longrightarrow> D h' x = D h x \<and> F h' x = F h x"
  unfolding local_view_def by blast

lemma local_conds: "local_view (arr_view conds (\<lambda>h c. c)) (arr_refs conds (\<lambda>h c. {}))"
  by (rule local_arr) (simp add: local_view_def)

lemma copies_conds: "copies (arr_view conds (\<lambda>h c. c)) (arr_refs conds (\<lambda>h c. {})) (copy_array conds DeepCopyInto_condition)"
  by (rule copies_arr) (simp_all add: conds_def copies_def copied_def DeepCopyInto_condition_def local_view_def)

lemma local_status: "local_view status_of status_refs"
  unfolding local_view_def
proof (intro allI impI)
  fix h h' :: "'o heap" and g
  assume ok: "\<forall>i \<in> status_refs h g. i < length h \<and> i < length h' \<and> h' ! i = h ! i"
  note parts = localD [OF local_cell, of h _ h'] localD [OF local_conds, of h _ h']
  show "status_of h' g = status_of h g \<and> status_refs h' g = status_refs h g"
    using ok parts by (simp add: status_of_def status_refs_def)
qed

context k8s_copies
begin

lemma local_objs: "local_view (arr_view (objs K) (k_view K)) (arr_refs (objs K) (k_refs K))"
  by (rule local_arr [OF local_objects])

lemma copies_objs: "copies (arr_view (objs K) (k_view K)) (arr_refs (objs K) (k_refs K)) (copy_array (objs K) (k_copy K))"
  by (rule copies_arr [OF _ copies_objects local_objects]) (simp add: objs_def)

lemma local_spec: "local_view (spec_of K) (spec_refs K)"
  unfolding local_view_def
proof (intro allI impI)
  fix h h' :: "'o heap" and g
  assume ok: "\<forall>i \<in> spec_refs K h g. i < length h \<and> i < length h' \<and> h' ! i = h ! i"
  note parts = localD [OF local_cell, of h _ h'] localD [OF local_objs, of h _ h'] localD [OF local_objects, of h _ h']
  show "spec_of K h' g = spec_of K h g \<and> spec_refs K h' g = spec_refs K h g"
    using ok parts by (simp add: spec_of_def spec_refs_def Let_def ball_Un)
qed

lemma copies_spec: "copies (spec_of K) (spec_refs K) (DeepCopyInto_spec K)"
proof (rule copiesI)
  fix h g assume "valid (spec_refs K) h g"
  then have v: "valid cell_refs h (g_ImagePullSecrets g)" "valid cell_refs h (g_Command g)" "valid cell_refs h (g_Args g)"
    "valid cell_refs h (g_PodLabels g)" "valid cell_refs h (g_PodAnnotations g)"
    "valid (arr_refs (objs K) (k_refs K)) h (g_Env g)" "valid (arr_refs (objs K) (k_refs K)) h (g_EnvFrom g)"
    "valid (arr_refs (objs K) (k_refs K)) h (g_Volumes g)" "valid (arr_refs (objs K) (k_refs K)) h (g_VolumeMounts g)"
    "valid (k_refs K) h (g_Resources g)"
    by (simp_all add: spec_refs_def Let_def)
  show "copying h (copied h (spec_of K) (spec_refs K) g) (DeepCopyInto_spec K g)"
    unfolding DeepCopyInto_spec_def
    by (intro copying_bind [OF copies_cell local_cell] copying_bind [OF copies_objs local_objs]
        copying_bind [OF copies_objects local_objects] copying_ret v)
      (simp add: copied_def spec_of_def spec_refs_def Let_def)
qed

end

lemma copies_status: "copies status_of status_refs DeepCopyInto_status"
proof (rule copiesI)
  fix h :: "'o heap" and g assume "valid status_refs h g"
  then have v: "valid cell_refs h (g_LastUpdated g)" "valid cell_refs h (g_RestoredAt g)"
    "valid (arr_refs conds (\<lambda>h c. {})) h (g_Conditions g)"
    by (simp_all add: status_refs_def)
  show "copying h (copied h status_of status_refs g) (DeepCopyInto_status g)"
    unfolding DeepCopyInto_status_def
    by (intro copying_bind [OF copies_cell local_cell] copying_bind [OF copies_conds local_conds] copying_ret v)
      (simp add: copied_def status_of_def status_refs_def)
qed

context k8s_copies
begin

lemma local_agent: "local_view (agent_of K) (agent_refs K)"
  unfolding local_view_def
proof (intro allI impI)
  fix h h' :: "'o heap" and a
  assume ok: "\<forall>i \<in> agent_refs K h a. i < length h \<and> i < length h' \<and> h' ! i = h ! i"
  note parts = localD [OF local_objects, of h _ h'] localD [OF local_spec, of h _ h'] localD [OF local_status, of h _ h']
  show "agent_of K h' a = agent_of K h a \<and> agent_refs K h' a = agent_refs K h a"
    using ok parts by (simp add: agent_of_def agent_refs_def ball_Un)
qed

lemma copies_agent: "copies (agent_of K) (agent_refs K) (DeepCopyInto_agent K)"
proof (rule copiesI)
  fix h a assume "valid (agent_refs K) h a"
  then have v: "valid (k_refs K) h (g_Meta a)" "valid (spec_refs K) h (g_Spec a)" "valid status_refs h (g_Status a)"
    by (simp_all add: agent_refs_def)
  show "copying h (copied h (agent_of K) (agent_refs K) a) (DeepCopyInto_agent K a)"
    unfolding DeepCopyInto_agent_def
    by (intro copying_bind [OF copies_objects local_objects] copying_bind [OF copies_spec local_spec]
        copying_bind [OF copies_status local_status] copying_ret v)
      (simp add: copied_def agent_of_def agent_refs_def)
qed

end

text \<open>Writing through an object can change the cells it refers to and use new ones.\<close>

definition changes_only :: "nat set \<Rightarrow> 'o heap \<Rightarrow> 'o heap \<Rightarrow> bool" where
  "changes_only S h h' \<longleftrightarrow> length h \<le> length h' \<and> (\<forall>i < length h. i \<notin> S \<longrightarrow> h' ! i = h ! i)"

definition isolated ::
  "('o heap \<Rightarrow> 'e \<Rightarrow> 'v) \<Rightarrow> ('o heap \<Rightarrow> 'e \<Rightarrow> nat set) \<Rightarrow> 'o heap \<Rightarrow> 'e \<Rightarrow> 'e \<times> 'o heap \<Rightarrow> bool" where
  "isolated D F h x yh \<longleftrightarrow> (case yh of (y, h1) \<Rightarrow> D h1 y = D h x \<and> D h1 x = D h x \<and> F h1 x \<inter> F h1 y = {} \<and>
     (\<forall>h2. changes_only (F h1 y) h1 h2 \<longrightarrow> D h2 x = D h x) \<and> (\<forall>h2. changes_only (F h1 x) h1 h2 \<longrightarrow> D h2 y = D h x))"

lemma changes_keep:
  assumes "local_view D F" "valid F h x" "changes_only S h h2" "S \<inter> F h x = {}"
  shows "D h2 x = D h x"
proof -
  have "\<forall>i \<in> F h x. i < length h \<and> i < length h2 \<and> h2 ! i = h ! i"
    using assms(2-4) by (fastforce simp: changes_only_def)
  from localD [OF assms(1) this] show ?thesis by blast
qed

lemma copies_isolated:
  assumes cp: "copies D F cp" and L: "local_view D F" and v: "valid F h x"
  shows "isolated D F h x (run_state (cp x) h)"
proof -
  obtain y h1 where y: "run_state (cp x) h = (y, h1)" by fastforce
  then have h1: "prefix h h1" "D h1 y = D h x" "F h1 y \<subseteq> {length h..<length h1}"
    using copies_run [OF cp v] by (auto simp: copied_def)
  note same = local_prefix [OF L v h1(1)]
  have "F h1 x \<inter> F h1 y = {}" using same(2) v h1(3) by fastforce
  moreover have "valid F h1 x" using same(2) v prefix_length_le [OF h1(1)] by auto
  moreover have "valid F h1 y" using h1(3) by auto
  ultimately show ?thesis
    using y h1(2) same(1) changes_keep [OF L, of h1 x] changes_keep [OF L, of h1 y]
    by (auto simp: isolated_def Int_commute)
qed

section \<open>A concrete instance\<close>

text \<open>An \<open>EnvVar\<close> or another struct with one pointer, and an \<open>ObjectMeta\<close> with its map of annotations.\<close>

datatype kobj = KStruct string string "nat option" | KMeta ObjectMeta "nat option"

datatype kview = VStruct string string "k8s_value option" | VMeta ObjectMeta

fun inner_of :: "'o cell \<Rightarrow> k8s_value" where
  "inner_of (CInner v) = v"
| "inner_of _ = K8sValue ''''"

fun ref_view :: "kobj heap \<Rightarrow> kobj \<Rightarrow> kview" where
  "ref_view h (KStruct n v r) = VStruct n v (map_option inner_of (cell_view h r))"
| "ref_view h (KMeta m r) = VMeta (m\<lparr>meta_Annotations := map_option map_of_cell (cell_view h r)\<rparr>)"

fun ref_copy :: "kobj \<Rightarrow> (kobj heap, kobj) state" where
  "ref_copy (KStruct n v r) = do { q \<leftarrow> copy_cell r; State_Monad.return (KStruct n v q) }"
| "ref_copy (KMeta m r) = do { q \<leftarrow> copy_cell r; State_Monad.return (KMeta m q) }"

fun ref_refs :: "kobj heap \<Rightarrow> kobj \<Rightarrow> nat set" where
  "ref_refs h (KStruct n v r) = cell_refs h r"
| "ref_refs h (KMeta m r) = cell_refs h r"

fun ref_env :: "kview \<Rightarrow> EnvVar" where
  "ref_env (VStruct n v x) = \<lparr>env_Name = n, env_Value = v, env_ValueFrom = x\<rparr>"
| "ref_env (VMeta m) = \<lparr>env_Name = '''', env_Value = '''', env_ValueFrom = None\<rparr>"

fun ref_value :: "kview \<Rightarrow> k8s_value" where
  "ref_value (VStruct n v x) = K8sValue n"
| "ref_value (VMeta m) = K8sValue (meta_Name m)"

fun ref_meta :: "kview \<Rightarrow> ObjectMeta" where
  "ref_meta (VStruct n v x) = empty_meta"
| "ref_meta (VMeta m) = m"

definition ref_objects :: "(kobj, kview) KObjects" where
  "ref_objects = \<lparr>k_copy = ref_copy, k_zero = KStruct '''' '''' None, k_refs = ref_refs, k_view = ref_view,
     k_env = ref_env, k_value = ref_value, k_meta = ref_meta\<rparr>"

lemma local_ref: "local_view ref_view ref_refs"
  unfolding local_view_def
proof (intro allI impI)
  fix h h' x
  assume ok: "\<forall>i \<in> ref_refs h x. i < length h \<and> i < length h' \<and> h' ! i = h ! i"
  show "ref_view h' x = ref_view h x \<and> ref_refs h' x = ref_refs h x"
    using ok localD [OF local_cell, of h _ h'] by (cases x) simp_all
qed

lemma copies_ref: "copies ref_view ref_refs ref_copy"
proof (rule copiesI)
  fix h x assume "valid ref_refs h x"
  then show "copying h (copied h ref_view ref_refs x) (ref_copy x)"
    by (cases x) (auto intro!: copying_bind [OF copies_cell local_cell] copying_ret simp: copied_def)
qed

interpretation ref_objects: k8s_copies ref_objects
  by unfold_locales (simp_all add: ref_objects_def local_ref copies_ref)

section \<open>Properties\<close>

text \<open>
  C19. A deep copy of an agent, or of the items of a list of agents, is equal to the original, leaves it as it
  is and shares no memory with it: whatever is later written through the copy, the original keeps its
  value, and the other way round. \<open>DeepCopy\<close> and \<open>DeepCopyObject\<close> of the two types return that copy, and for a nil
  pointer nil.
\<close>

theorem deep_copies_isolated:
  fixes K :: "('o, 'v) KObjects"
  assumes "k8s_copies K"
  defines "list_arr \<equiv> \<lparr>a_make = CAgents, a_elems = agents_of, a_zero = zero_agent K\<rparr>"
  shows "(valid (agent_refs K) h a \<longrightarrow>
      (\<exists>b h1. run_state (Agent_DeepCopy K (Some a)) h = (Some b, h1) \<and>
         run_state (Agent_DeepCopyObject K (Some a)) h = (Some b, h1) \<and>
         isolated (agent_of K) (agent_refs K) h a (b, h1))) \<and>
    (valid (arr_refs list_arr (agent_refs K)) h items \<longrightarrow>
      (\<exists>q h1. run_state (AgentList_DeepCopy K (Some items)) h = (Some q, h1) \<and>
         run_state (AgentList_DeepCopyObject K (Some items)) h = (Some q, h1) \<and>
         isolated (arr_view list_arr (agent_of K)) (arr_refs list_arr (agent_refs K)) h items (q, h1))) \<and>
    run_state (Agent_DeepCopyObject K None) h = (None, h) \<and> run_state (AgentList_DeepCopyObject K None) h = (None, h)"
proof -
  note agent = k8s_copies.copies_agent [OF assms(1)] k8s_copies.local_agent [OF assms(1)]
  have "copies (arr_view list_arr (agent_of K)) (arr_refs list_arr (agent_refs K)) (DeepCopyInto_list K)"
    unfolding DeepCopyInto_list_def list_arr_def by (rule copies_arr [OF _ agent]) simp
  moreover have "local_view (arr_view list_arr (agent_of K)) (arr_refs list_arr (agent_refs K))"
    by (rule local_arr [OF agent(2)])
  moreover obtain b h1 where "run_state (DeepCopyInto_agent K a) h = (b, h1)" by fastforce
  moreover obtain q h2 where "run_state (DeepCopyInto_list K items) h = (q, h2)" by fastforce
  ultimately show ?thesis
    using copies_isolated [OF agent, of h a] copies_isolated [of _ _ "DeepCopyInto_list K" h items]
    by (auto simp: DeepCopy_def deep_copy_defs)
qed

theorem deep_copies_isolated_witness:
  "\<exists>b h1. run_state (Agent_DeepCopy ref_objects (Some ((zero_agent ref_objects)\<lparr>g_Meta := KMeta empty_meta (Some 0)\<rparr>)))
       [CMap Map.empty] = (Some b, h1) \<and>
     run_state (Agent_DeepCopyObject ref_objects (Some ((zero_agent ref_objects)\<lparr>g_Meta := KMeta empty_meta (Some 0)\<rparr>)))
       [CMap Map.empty] = (Some b, h1) \<and>
     isolated (agent_of ref_objects) (agent_refs ref_objects) [CMap Map.empty]
       ((zero_agent ref_objects)\<lparr>g_Meta := KMeta empty_meta (Some 0)\<rparr>) (b, h1)"
  using deep_copies_isolated [OF ref_objects.k8s_copies_axioms, of "[CMap Map.empty]"
      "(zero_agent ref_objects)\<lparr>g_Meta := KMeta empty_meta (Some 0)\<rparr>", THEN conjunct1]
  by (simp add: agent_refs_def spec_refs_def status_refs_def zero_agent_def ref_objects_def cell_refs_def arr_refs_def Let_def)

end
