(* ===== verification/Run_Logic.thy ===== *)
theory Run_Logic
  imports Kube_Client
begin

text \<open>
  Two more properties of programs that compose like \<open>emits\<close>: what a program can return, from any state and
  for any client (\<open>yields\<close>), and that it leaves the cache as it is (\<open>keeps_cache\<close>).
\<close>

named_theorems yields_intros "rules for the results of a program"
named_theorems keeps_intros "rules for programs that leave the cache as it is"

section \<open>Results\<close>

definition yields :: "('a \<Rightarrow> bool) \<Rightarrow> ('k, 'h, 'c, 'a) prog \<Rightarrow> bool" where
  "yields P m \<longleftrightarrow> (\<forall>w. P (fst (run_state m w)))"

lemma yieldsD: "yields P m \<Longrightarrow> P (fst (run_state m w))"
  by (simp add: yields_def)

lemma yields_ret [yields_intros]: "P x \<Longrightarrow> yields P (State_Monad.return x)"
  by (simp add: yields_def)

lemma yields_bind [yields_intros]: "(\<And>a. yields P (f a)) \<Longrightarrow> yields P (State_Monad.bind m f)"
  by (simp add: yields_def split: prod.splits)

lemma yields_bind_result: "yields Q m \<Longrightarrow> (\<And>a. Q a \<Longrightarrow> yields P (f a)) \<Longrightarrow> yields P (State_Monad.bind m f)"
  by (simp add: yields_def split: prod.splits) (metis fst_conv)

lemma yields_if [yields_intros]:
  "(b \<Longrightarrow> yields P m) \<Longrightarrow> (\<not> b \<Longrightarrow> yields P n) \<Longrightarrow> yields P (if b then m else n)"
  by simp

lemma yields_sum [yields_intros]:
  "(\<And>e. x = Inl e \<Longrightarrow> yields P (f e)) \<Longrightarrow> (\<And>a. x = Inr a \<Longrightarrow> yields P (g a)) \<Longrightarrow>
   yields P (case x of Inl e \<Rightarrow> f e | Inr a \<Rightarrow> g a)"
  by (cases x) auto

lemma yields_option [yields_intros]:
  "(x = None \<Longrightarrow> yields P m) \<Longrightarrow> (\<And>a. x = Some a \<Longrightarrow> yields P (g a)) \<Longrightarrow>
   yields P (case x of None \<Rightarrow> m | Some a \<Rightarrow> g a)"
  by (cases x) auto

lemma yields_prod [yields_intros]:
  "(\<And>a b. x = (a, b) \<Longrightarrow> yields P (f a b)) \<Longrightarrow> yields P (case x of (a, b) \<Rightarrow> f a b)"
  by (cases x) auto

section \<open>The cache as it is\<close>

definition keeps_cache :: "('k, 'h, 'c, 'a) prog \<Rightarrow> bool" where
  "keeps_cache m \<longleftrightarrow> (\<forall>w. cach (snd (run_state m w)) = cach w)"

lemma keepsD: "keeps_cache m \<Longrightarrow> cach (snd (run_state m w)) = cach w"
  by (simp add: keeps_cache_def)

lemma keeps_ret [keeps_intros]: "keeps_cache (State_Monad.return x)"
  by (simp add: keeps_cache_def)

lemma keeps_bind [keeps_intros]:
  "keeps_cache m \<Longrightarrow> (\<And>a. keeps_cache (f a)) \<Longrightarrow> keeps_cache (State_Monad.bind m f)"
  by (simp add: keeps_cache_def split: prod.splits) (metis snd_conv)

lemma keeps_prims [keeps_intros]:
  "keeps_cache (request q f)" "keeps_cache Now" "keeps_cache (Sleep d)" "keeps_cache (emit_event e)"
  "keeps_cache (spawn r)" "keeps_cache (on_hist g)"
  by (simp_all add: keeps_cache_def monad_simps)

lemma keeps_client [keeps_intros]:
  "keeps_cache (Get_agent c k)" "keeps_cache (List_agents c ns few)" "keeps_cache (Create_agent c a)"
  "keeps_cache (Update_agent c a)" "keeps_cache (Patch_agent c b a)"
  by (simp_all add: client_defs keeps_prims)

lemma keeps_if [keeps_intros]:
  "(b \<Longrightarrow> keeps_cache m) \<Longrightarrow> (\<not> b \<Longrightarrow> keeps_cache n) \<Longrightarrow> keeps_cache (if b then m else n)"
  by simp

lemma keeps_sum [keeps_intros]:
  "(\<And>e. x = Inl e \<Longrightarrow> keeps_cache (f e)) \<Longrightarrow> (\<And>a. x = Inr a \<Longrightarrow> keeps_cache (g a)) \<Longrightarrow>
   keeps_cache (case x of Inl e \<Rightarrow> f e | Inr a \<Rightarrow> g a)"
  by (cases x) auto

lemma keeps_option [keeps_intros]:
  "(x = None \<Longrightarrow> keeps_cache m) \<Longrightarrow> (\<And>a. x = Some a \<Longrightarrow> keeps_cache (g a)) \<Longrightarrow>
   keeps_cache (case x of None \<Rightarrow> m | Some a \<Rightarrow> g a)"
  by (cases x) auto

lemma keeps_prod [keeps_intros]:
  "(\<And>a b. x = (a, b) \<Longrightarrow> keeps_cache (f a b)) \<Longrightarrow> keeps_cache (case x of (a, b) \<Rightarrow> f a b)"
  by (cases x) auto

section \<open>Hoare triples\<close>

text \<open>What holds of the result and the state after a run, if \<open>P\<close> holds before it; and invariants.\<close>

definition runs :: "(('k, 'h, 'c) world \<Rightarrow> bool) \<Rightarrow> ('k, 'h, 'c, 'a) prog \<Rightarrow>
    ('a \<Rightarrow> ('k, 'h, 'c) world \<Rightarrow> bool) \<Rightarrow> bool" where
  "runs P m Q \<longleftrightarrow> (\<forall>w. P w \<longrightarrow> Q (fst (run_state m w)) (snd (run_state m w)))"

abbreviation stays :: "(('k, 'h, 'c) world \<Rightarrow> bool) \<Rightarrow> ('k, 'h, 'c, 'a) prog \<Rightarrow> bool" where
  "stays P m \<equiv> runs P m (\<lambda>_. P)"

named_theorems stays_intros "rules for programs that keep an invariant"

lemma runsI: "(\<And>w. P w \<Longrightarrow> Q (fst (run_state m w)) (snd (run_state m w))) \<Longrightarrow> runs P m Q"
  by (simp add: runs_def)

lemma runsD: "runs P m Q \<Longrightarrow> P w \<Longrightarrow> Q (fst (run_state m w)) (snd (run_state m w))"
  by (simp add: runs_def)

lemma runs_bind: "runs P m Q \<Longrightarrow> (\<And>a. runs (Q a) (f a) R) \<Longrightarrow> runs P (State_Monad.bind m f) R"
  by (simp add: runs_def split: prod.splits) (metis fst_conv snd_conv)

lemma runs_pre: "runs P m Q \<Longrightarrow> (\<And>w. P' w \<Longrightarrow> P w) \<Longrightarrow> runs P' m Q"
  by (simp add: runs_def)

lemma runs_post: "runs P m Q \<Longrightarrow> (\<And>a w. Q a w \<Longrightarrow> Q' a w) \<Longrightarrow> runs P m Q'"
  by (simp add: runs_def)

lemma runs_fact: "runs (\<lambda>w. P w \<and> \<phi>) m Q \<longleftrightarrow> (\<phi> \<longrightarrow> runs P m Q)"
  by (auto simp: runs_def)

lemma stays_ret [stays_intros]: "stays P (State_Monad.return x)"
  by (simp add: runs_def)

lemma stays_bind [stays_intros]: "stays P m \<Longrightarrow> (\<And>a. stays P (f a)) \<Longrightarrow> stays P (State_Monad.bind m f)"
  by (rule runs_bind)

lemma stays_if [stays_intros]:
  "(b \<Longrightarrow> stays P m) \<Longrightarrow> (\<not> b \<Longrightarrow> stays P n) \<Longrightarrow> stays P (if b then m else n)"
  by simp

lemma stays_sum [stays_intros]:
  "(\<And>e. x = Inl e \<Longrightarrow> stays P (f e)) \<Longrightarrow> (\<And>a. x = Inr a \<Longrightarrow> stays P (g a)) \<Longrightarrow>
   stays P (case x of Inl e \<Rightarrow> f e | Inr a \<Rightarrow> g a)"
  by (cases x) auto

lemma stays_option [stays_intros]:
  "(x = None \<Longrightarrow> stays P m) \<Longrightarrow> (\<And>a. x = Some a \<Longrightarrow> stays P (g a)) \<Longrightarrow>
   stays P (case x of None \<Rightarrow> m | Some a \<Rightarrow> g a)"
  by (cases x) auto

lemma stays_prod [stays_intros]:
  "(\<And>a b. x = (a, b) \<Longrightarrow> stays P (f a b)) \<Longrightarrow> stays P (case x of (a, b) \<Rightarrow> f a b)"
  by (cases x) auto

text \<open>An invariant that looks at nothing but the cluster and the started goroutines.\<close>

definition about_kube :: "(('k, 'h, 'c) world \<Rightarrow> bool) \<Rightarrow> bool" where
  "about_kube P \<longleftrightarrow> (\<forall>w w'. kube w' = kube w \<longrightarrow> spawned w' = spawned w \<longrightarrow> P w' = P w)"

lemma stays_silent:
  assumes "about_kube P"
  shows "stays P Now" "stays P (Sleep d)" "stays P (emit_event e)" "stays P (on_hist g)" "stays P (on_cach h)"
proof -
  have eq: "P w \<Longrightarrow> kube w' = kube w \<Longrightarrow> spawned w' = spawned w \<Longrightarrow> P w'" for w w'
    using assms unfolding about_kube_def by blast
  show "stays P Now" "stays P (Sleep d)" "stays P (emit_event e)" "stays P (on_hist g)" "stays P (on_cach h)"
    by (rule runsI; erule eq; simp add: monad_simps)+
qed

section \<open>Replaying the requests\<close>

text \<open>What one request does to the cluster.\<close>

fun after_call :: "'k Client \<Rightarrow> kcall \<Rightarrow> 'k \<Rightarrow> 'k" where
  "after_call C (GetAgent n) k = snd (get_agent C n k)"
| "after_call C (GetService n) k = snd (get_service C n k)"
| "after_call C (ListAgents ns few) k = snd (list_agents C ns few k)"
| "after_call C (ListPods ns sel) k = snd (list_pods C ns sel k)"
| "after_call C (CreateAgent a) k = snd (create_agent C a k)"
| "after_call C (CreatePod p) k = snd (create_pod C p k)"
| "after_call C (CreateService s) k = snd (create_service C s k)"
| "after_call C (UpdateAgent a) k = snd (update_agent C a k)"
| "after_call C (PatchAgent b m) k = snd (patch_agent C b m k)"
| "after_call C (PatchAgentStatus b m) k = snd (patch_agent_status C b m k)"
| "after_call C (PatchService b m) k = snd (patch_service C b m k)"
| "after_call C (DeleteAgent a) k = snd (delete_agent C a k)"
| "after_call C (DeletePod p) k = snd (delete_pod C p k)"
| "after_call C (DeleteService s) k = snd (delete_service C s k)"
| "after_call C (SleepFor d) k = k"

text \<open>The cluster after a run is the one that the recorded requests lead to, one after the other.\<close>

definition replayed :: "'k Client \<Rightarrow> (kcall \<times> outcome) list \<Rightarrow> 'k \<Rightarrow> 'k" where
  "replayed C l = fold (\<lambda>x. after_call C (fst x)) l"

lemma replayed_simps [simp]:
  "replayed C [] k = k" "replayed C (x # l) k = replayed C l (after_call C (fst x) k)"
  "replayed C (l @ l') k = replayed C l' (replayed C l k)"
  by (simp_all add: replayed_def)

definition replays :: "'k Client \<Rightarrow> ('k, 'h, 'c, 'a) prog \<Rightarrow> bool" where
  "replays C m \<longleftrightarrow> (\<forall>w. \<exists>l. calls (snd (run_state m w)) = calls w @ l \<and> kube (snd (run_state m w)) = replayed C l (kube w))"

named_theorems replays_intros "rules for programs whose requests go to one client"

lemma replays_ret [replays_intros]: "replays C (State_Monad.return x)"
  by (simp add: replays_def)

lemma replays_bind [replays_intros]:
  assumes m: "replays C m" and f: "\<And>a. replays C (f a)"
  shows "replays C (State_Monad.bind m f)"
  unfolding replays_def
proof
  fix w
  obtain a w1 where r: "run_state m w = (a, w1)" by fastforce
  obtain l1 where l1: "calls w1 = calls w @ l1" "kube w1 = replayed C l1 (kube w)"
    using m r unfolding replays_def by (metis snd_conv)
  obtain l2 where "calls (snd (run_state (f a) w1)) = calls w1 @ l2" "kube (snd (run_state (f a) w1)) = replayed C l2 (kube w1)"
    using f unfolding replays_def by blast
  with l1 r show "\<exists>l. calls (snd (run_state (State_Monad.bind m f) w)) = calls w @ l \<and>
      kube (snd (run_state (State_Monad.bind m f) w)) = replayed C l (kube w)"
    by (intro exI [of _ "l1 @ l2"]) auto
qed

lemma replays_silent [replays_intros]:
  "replays C Now" "replays C (Sleep d)" "replays C (emit_event e)" "replays C (spawn r)" "replays C (on_hist g)"
  "replays C (on_cach h)"
  by (auto simp: replays_def monad_simps)

lemma replays_client [replays_intros]:
  "replays C (Get_agent C n)" "replays C (List_agents C ns few)" "replays C (Patch_agent C b m)"
  by (auto simp: replays_def monad_simps)

lemma replays_cases [replays_intros]:
  "(b \<Longrightarrow> replays C m) \<Longrightarrow> (\<not> b \<Longrightarrow> replays C n) \<Longrightarrow> replays C (if b then m else n)"
  "(\<And>e. x = Inl e \<Longrightarrow> replays C (f e)) \<Longrightarrow> (\<And>a. x = Inr a \<Longrightarrow> replays C (g a)) \<Longrightarrow>
   replays C (case x of Inl e \<Rightarrow> f e | Inr a \<Rightarrow> g a)"
  "(y = None \<Longrightarrow> replays C m) \<Longrightarrow> (\<And>a. y = Some a \<Longrightarrow> replays C (h a)) \<Longrightarrow>
   replays C (case y of None \<Rightarrow> m | Some a \<Rightarrow> h a)"
  by (auto split: sum.split option.split)

lemma replays_sent: "replays C m \<Longrightarrow> kube (snd (run_state m (w\<lparr>calls := []\<rparr>))) = replayed C (sent m w) (kube w)"
  unfolding replays_def sent_def by (metis append_Nil world.select_convs(1) world.select_convs(5) world.surjective world.update_convs(5))

end
