(* ===== verification/Kube_Safety.thy ===== *)
theory Kube_Safety
  imports Agent_Controller Run_Logic
begin

text \<open>
  What holds of an API server whatever fails, and programs that run beside other writers. \<open>kube_safety\<close> says what
  the requests cannot do; a request may be refused, and may take effect although its answer is an error. The
  client \<open>with_others\<close> lets other writers move the cluster before every request.
\<close>

section \<open>Other writers\<close>

text \<open>
  A cluster \<open>b_kube\<close> with a schedule: \<open>b_others i\<close> is what the others do before the \<open>i\<close>-th request from here on.
  \<open>b_seen\<close> records the states that the cluster passes through.
\<close>

record 'k beside =
  b_kube :: 'k
  b_others :: "nat \<Rightarrow> 'k \<Rightarrow> 'k"
  b_seen :: "'k list"

definition disturb :: "('k \<Rightarrow> 'a \<times> 'k) \<Rightarrow> 'k beside \<Rightarrow> 'a \<times> 'k beside" where
  "disturb f s =
     (let k = b_others s 0 (b_kube s) in
      (fst (f k), \<lparr>b_kube = snd (f k), b_others = \<lambda>i. b_others s (Suc i), b_seen = b_seen s @ [k, snd (f k)]\<rparr>))"

lemma disturb_simps [simp]:
  "fst (disturb f s) = fst (f (b_others s 0 (b_kube s)))"
  "b_kube (snd (disturb f s)) = snd (f (b_others s 0 (b_kube s)))"
  "b_others (snd (disturb f s)) = (\<lambda>i. b_others s (Suc i))"
  "b_seen (snd (disturb f s)) = b_seen s @ [b_others s 0 (b_kube s), snd (f (b_others s 0 (b_kube s)))]"
  by (simp_all add: disturb_def Let_def)

definition with_others :: "'k Client \<Rightarrow> 'k beside Client" where
  "with_others C =
     \<lparr>get_agent = \<lambda>n. disturb (get_agent C n), get_service = \<lambda>n. disturb (get_service C n),
      list_agents = \<lambda>ns few. disturb (list_agents C ns few), list_pods = \<lambda>ns sel. disturb (list_pods C ns sel),
      create_agent = \<lambda>a. disturb (create_agent C a), create_pod = \<lambda>p. disturb (create_pod C p),
      create_service = \<lambda>s. disturb (create_service C s), update_agent = \<lambda>a. disturb (update_agent C a),
      patch_agent = \<lambda>b m. disturb (patch_agent C b m),
      patch_agent_status = \<lambda>b m. disturb (patch_agent_status C b m),
      patch_service = \<lambda>b m. disturb (patch_service C b m), delete_agent = \<lambda>a. disturb (delete_agent C a),
      delete_pod = \<lambda>p. disturb (delete_pod C p), delete_service = \<lambda>s. disturb (delete_service C s)\<rparr>"

lemma with_others_simps [simp]:
  "get_agent (with_others C) n = disturb (get_agent C n)" "get_service (with_others C) n = disturb (get_service C n)"
  "list_agents (with_others C) ns few = disturb (list_agents C ns few)"
  "list_pods (with_others C) ns' sel = disturb (list_pods C ns' sel)"
  "create_agent (with_others C) a = disturb (create_agent C a)" "create_pod (with_others C) p = disturb (create_pod C p)"
  "create_service (with_others C) s = disturb (create_service C s)"
  "update_agent (with_others C) a = disturb (update_agent C a)"
  "patch_agent (with_others C) b m = disturb (patch_agent C b m)"
  "patch_agent_status (with_others C) b m = disturb (patch_agent_status C b m)"
  "patch_service (with_others C) b' m' = disturb (patch_service C b' m')"
  "delete_agent (with_others C) a = disturb (delete_agent C a)" "delete_pod (with_others C) p = disturb (delete_pod C p)"
  "delete_service (with_others C) s = disturb (delete_service C s)"
  by (simp_all add: with_others_def)

section \<open>The server\<close>

fun writes_pods :: "kcall \<Rightarrow> bool" where
  "writes_pods (CreatePod p) = True"
| "writes_pods (DeletePod p) = True"
| "writes_pods q = False"

fun writes_agents :: "kcall \<Rightarrow> bool" where
  "writes_agents (CreateAgent a) = True"
| "writes_agents (UpdateAgent a) = True"
| "writes_agents (PatchAgent b m) = True"
| "writes_agents (PatchAgentStatus b m) = True"
| "writes_agents (DeleteAgent a) = True"
| "writes_agents q = False"

text \<open>The spec of an agent after a request that writes agents, if the agent was written.\<close>

fun written_spec :: "kcall \<Rightarrow> AgentSpec option \<Rightarrow> AgentSpec \<Rightarrow> bool" where
  "written_spec (CreateAgent a) old sp \<longleftrightarrow> sp = agent_Spec a"
| "written_spec (UpdateAgent a) old sp \<longleftrightarrow> sp = agent_Spec a"
| "written_spec (PatchAgent b m) old sp \<longleftrightarrow>
     (case old of None \<Rightarrow> False | Some s \<Rightarrow> sp = merged_spec (agent_Spec b) (agent_Spec m) s)"
| "written_spec q old sp \<longleftrightarrow> old = Some sp"

locale kube_safety =
  fixes C :: "'k Client"
    and agents :: "'k \<Rightarrow> nn \<Rightarrow> Agent option"
    and pods :: "'k \<Rightarrow> Pod set"
  assumes stored_key: "agents k n = Some a \<Longrightarrow> agent_key a = n"
    and get_agent_stored: "get_agent C n k = (Inr a, k') \<Longrightarrow> agents k n = Some a"
    and list_agents_stored: "list_agents C ns few k = (Inr items, k') \<Longrightarrow> a \<in> set items \<Longrightarrow> agents k (agent_key a) = Some a"
    and list_pods_complete: "list_pods C x sel k = (Inr ps, k') \<Longrightarrow>
      {p \<in> pods k. meta_Namespace (pod_Meta p) = x \<and> matches sel (pod_Labels p)} \<subseteq> set ps"
    and agents_kept: "\<not> writes_agents q \<Longrightarrow> agents (after_call C q k) = agents k"
    and pods_kept: "\<not> writes_pods q \<Longrightarrow> pods (after_call C q k) = pods k"
    and agents_written: "agents (after_call C q k) n = Some a' \<Longrightarrow> agents k n = Some a' \<or>
      written_spec q (map_option agent_Spec (agents k n)) (agent_Spec a')"
    and pod_created: "\<exists>p'. meta_Namespace (pod_Meta p') = meta_Namespace (pod_Meta p) \<and> pod_Labels p' = pod_Labels p \<and>
      pods (after_call C (CreatePod p) k) \<subseteq> insert p' (pods k)"
    and pod_deleted: "p' \<in> pods (after_call C (DeletePod p) k) \<Longrightarrow> pod_live p' \<Longrightarrow> p' \<in> pods k"

section \<open>The reference server\<close>

lemma ref_agents_after:
  "\<not> writes_agents q \<Longrightarrow> ref_agents (after_call ref_kube q k) = ref_agents k"
  "\<not> writes_pods q \<Longrightarrow> ref_pods (after_call ref_kube q k) = ref_pods k"
  by (cases q; auto simp: ref_kube_def ref_pods_def Let_def split: option.splits)+

lemma ref_agents_written:
  assumes "ref_agents (after_call ref_kube q k) n = Some a'"
  shows "ref_agents k n = Some a' \<or> written_spec q (map_option agent_Spec (ref_agents k n)) (agent_Spec a')"
  using assms
  by (cases q) (auto simp: ref_kube_def Let_def created_agent_def updated_agent_def
      split: option.splits if_splits)

interpretation ref_safe: kube_safety ref_kube ref_agents ref_pods
proof (unfold_locales, goal_cases)
  case (3 ns few k items k' a)
  then show ?case
    by (cases few) (auto simp: ref_kube_def List.map_filter_def ref_agents_key dest!: in_set_takeD)
next
  case (6 q k)
  then show ?case by (rule ref_agents_after)
next
  case (7 q k n a')
  then show ?case by (rule ref_agents_written)
next
  case (8 p k)
  then show ?case
    by (intro exI [of _ "named_pod (cl_pods k) p"]) (auto simp: ref_kube_def ref_pods_def Let_def)
qed (auto simp: ref_kube_reads ref_kube_writes ref_agents_key ref_agents_after ref_pods_def split: option.splits if_splits)

end
