(* ===== verification/Interference.thy ===== *)
theory Interference
  imports Kube_Safety Run_Logic
begin

text \<open>
  The reconciler beside other writers that may act before each of its requests. What is proved is in the style
  of rely and guarantee: the others are only assumed not to create pods and not to store an agent whose
  \<open>spec.podLabels\<close> sets the owner label, and then no agent ever has two live pods, whatever fails.
\<close>

section \<open>The invariant and what the others may do\<close>

definition keeps_owner :: "AgentSpec \<Rightarrow> bool" where
  "keeps_owner sp \<longleftrightarrow> entries (spec_PodLabels sp) podOwnerLabel = None"

text \<open>The names of the live pods that \<open>findAgentPod\<close> looks for.\<close>

definition owned_by :: "nn \<Rightarrow> Pod \<Rightarrow> bool" where
  "owned_by n p \<longleftrightarrow> meta_Namespace (pod_Meta p) = fst n \<and>
     matches [(podOwnerLabel, snd n), (managedByLabel, managedByValue)] (pod_Labels p)"

definition live_names :: "Pod set \<Rightarrow> nn \<Rightarrow> string set" where
  "live_names ps n = pod_Name ` {p \<in> ps. owned_by n p \<and> pod_live p}"

definition one_pod_each :: "Pod set \<Rightarrow> bool" where
  "one_pod_each ps \<longleftrightarrow> (\<forall>n x y. x \<in> live_names ps n \<longrightarrow> y \<in> live_names ps n \<longrightarrow> x = y)"

definition owners_kept :: "(nn \<Rightarrow> Agent option) \<Rightarrow> bool" where
  "owners_kept as \<longleftrightarrow> (\<forall>a \<in> ran as. keeps_owner (agent_Spec a))"

lemma owners_keptD: "owners_kept as \<Longrightarrow> as n = Some a \<Longrightarrow> keeps_owner (agent_Spec a)"
  by (auto simp: owners_kept_def intro: ranI)

text \<open>The requests of everybody but the reconciler.\<close>

fun benign :: "kcall \<Rightarrow> bool" where
  "benign (CreatePod p) = False"
| "benign (CreateAgent a) \<longleftrightarrow> keeps_owner (agent_Spec a)"
| "benign (UpdateAgent a) \<longleftrightarrow> keeps_owner (agent_Spec a)"
| "benign (PatchAgent b m) \<longleftrightarrow> spec_PodLabels (agent_Spec m) = spec_PodLabels (agent_Spec b)"
| "benign _ = True"

lemma live_names_mono:
  "(\<And>p. p \<in> ps \<Longrightarrow> owned_by n p \<Longrightarrow> pod_live p \<Longrightarrow> p \<in> qs) \<Longrightarrow> live_names ps n \<subseteq> live_names qs n"
  by (auto simp: live_names_def)

lemma live_names_insert:
  "ps \<subseteq> insert p qs \<Longrightarrow> live_names ps n \<subseteq> (if owned_by n p then {pod_Name p} else {}) \<union> live_names qs n"
  by (auto simp: live_names_def)

lemma one_pod_eachD: "one_pod_each ps \<Longrightarrow> x \<in> live_names ps n \<Longrightarrow> y \<in> live_names ps n \<Longrightarrow> x = y"
  unfolding one_pod_each_def by blast

lemma one_pod_each_mono:
  "one_pod_each ps \<Longrightarrow> (\<And>n. live_names qs n \<subseteq> live_names ps n) \<Longrightarrow> one_pod_each qs"
  unfolding one_pod_each_def by blast

lemma keeps_owner_merged:
  "spec_PodLabels m = spec_PodLabels b \<Longrightarrow> keeps_owner (merged_spec b m s) \<longleftrightarrow> keeps_owner s"
  by (simp add: keeps_owner_def merged_spec_def)

context kube_safety
begin

text \<open>The rely condition: no live pod comes up, and owner labels stay as they should be.\<close>

definition calm :: "'k \<Rightarrow> 'k \<Rightarrow> bool" where
  "calm k k' \<longleftrightarrow> (owners_kept (agents k) \<longrightarrow> owners_kept (agents k')) \<and>
     (\<forall>n. live_names (pods k') n \<subseteq> live_names (pods k) n)"

lemma calm_refl [simp]: "calm k k"
  by (simp add: calm_def)

lemma calm_names: "calm k k' \<Longrightarrow> live_names (pods k') n \<subseteq> live_names (pods k) n"
  unfolding calm_def by blast

lemma calm_trans: "calm k k' \<Longrightarrow> calm k' k'' \<Longrightarrow> calm k k''"
  unfolding calm_def by blast

lemma written_owner:
  "benign q \<Longrightarrow> written_spec q old sp \<Longrightarrow> (\<And>s. old = Some s \<Longrightarrow> keeps_owner s) \<Longrightarrow> keeps_owner sp"
  by (cases q) (auto simp: keeps_owner_merged split: option.splits)

lemma benign_calm:
  assumes "benign q"
  shows "calm k (after_call C q k)"
proof -
  have "owners_kept (agents (after_call C q k))" if "owners_kept (agents k)"
    unfolding owners_kept_def
  proof
    fix a assume "a \<in> ran (agents (after_call C q k))"
    then obtain n where "agents (after_call C q k) n = Some a" by (auto simp: ran_def)
    from agents_written [OF this] show "keeps_owner (agent_Spec a)"
    proof
      assume "written_spec q (map_option agent_Spec (agents k n)) (agent_Spec a)"
      then show ?thesis using owners_keptD [OF that, of n] by (elim written_owner [OF assms]) auto
    qed (rule owners_keptD [OF that])
  qed
  moreover have "live_names (pods (after_call C q k)) n \<subseteq> live_names (pods k) n" for n
  proof (cases "writes_pods q")
    case True
    then obtain p where "q = DeletePod p" using assms by (cases q) auto
    then show ?thesis using pod_deleted by (intro live_names_mono) blast
  qed (simp add: pods_kept)
  ultimately show ?thesis by (simp add: calm_def)
qed

end

section \<open>The reconciler\<close>

text \<open>
  A reconciler whose client is that of the server, with the others in between. Of the \<open>controllerutil\<close>
  functions it is assumed that they change only the metadata they are named after.
\<close>

locale reconciler_beside = kube_safety C agents pods
  for C :: "'k Client" and agents pods +
  fixes r :: "('k beside, 'h) AgentReconciler"
  assumes client: "r_Client r = with_others C"
    and own_pod_keeps: "r_OwnPod r a p = Inr p' \<Longrightarrow>
      meta_Namespace (pod_Meta p') = meta_Namespace (pod_Meta p) \<and> pod_Labels p' = pod_Labels p"
    and finalizers_keep: "agent_Spec (r_AddFinalizer r a f) = agent_Spec a"
      "agent_Spec (r_RemoveFinalizer r a f) = agent_Spec a"
begin

definition safe :: "'k \<Rightarrow> bool" where
  "safe k \<longleftrightarrow> owners_kept (agents k) \<and> one_pod_each (pods k)"

text \<open>The others are calm, all states so far were safe, and what was started will recreate no misleading agent.\<close>

definition good :: "('k beside, 'h, 'c) world \<Rightarrow> bool" where
  "good w \<longleftrightarrow> safe (b_kube (kube w)) \<and> (\<forall>k \<in> set (b_seen (kube w)). safe k) \<and>
     (\<forall>i k. calm k (b_others (kube w) i k)) \<and> (\<forall>rs \<in> set (spawned w). keeps_owner (res_spec rs))"

lemma safe_calm: "safe k \<Longrightarrow> calm k k' \<Longrightarrow> safe k'"
  unfolding safe_def calm_def using one_pod_each_mono by blast

lemma about_good: "about_kube good"
  by (simp add: about_kube_def good_def)

lemmas good_silent [stays_intros] = stays_silent [OF about_good]

text \<open>One request: the others first, then the server.\<close>

lemma runs_request:
  assumes "\<And>w. P w \<Longrightarrow> good w"
    and "\<And>w k. P w \<Longrightarrow> calm (b_kube (kube w)) k \<Longrightarrow> safe k \<Longrightarrow> safe (snd (f k)) \<and> R (fst (f k)) (snd (f k))"
  shows "runs P (request q (disturb f) :: ('k beside, 'h, 'c, kerr + 'a) prog) (\<lambda>x w. good w \<and> R x (b_kube (kube w)))"
proof (rule runsI)
  fix w :: "('k beside, 'h, 'c) world" assume P: "P w"
  let ?k = "b_others (kube w) 0 (b_kube (kube w))"
  have g: "good w" using assms(1) P .
  then have c: "calm (b_kube (kube w)) ?k" by (simp add: good_def)
  then have k: "safe ?k" using g safe_calm by (auto simp: good_def)
  from assms(2) [OF P c k] g k
  show "good (snd (run_state (request q (disturb f)) w)) \<and>
      R (fst (run_state (request q (disturb f)) w)) (b_kube (kube (snd (run_state (request q (disturb f)) w))))"
    by (auto simp: monad_simps good_def)
qed

lemma stays_request:
  assumes "\<And>k. snd (f k) = after_call C q k" and "benign q"
  shows "stays good (request q (disturb f) :: ('k beside, 'h, 'c, kerr + 'a) prog)"
proof -
  have "runs good (request q (disturb f)) (\<lambda>x w. good w \<and> True)"
    using assms(1) safe_calm [OF _ benign_calm [OF assms(2)]] by (intro runs_request) auto
  then show ?thesis by simp
qed

lemma stays_requests [stays_intros]:
  "stays good (Get_service (r_Client r) n)"
  "stays good (Delete_pod (r_Client r) p)" "stays good (Create_service (r_Client r) s)"
  "stays good (Patch_service (r_Client r) s' s)" "stays good (Delete_service (r_Client r) s)"
  "stays good (Patch_status (r_Client r) b m)"
  "keeps_owner (agent_Spec a) \<Longrightarrow> stays good (Update_agent (r_Client r) a)"
  by (simp_all add: client_defs client stays_request)

text \<open>What the reads tell.\<close>

lemma runs_Get_agent:
  "runs good (Get_agent (r_Client r) n)
     (\<lambda>x w. good w \<and> (\<forall>a. x = Inr a \<longrightarrow> keeps_owner (agent_Spec a) \<and> agent_key a = n))"
  unfolding client_defs client with_others_simps
proof (intro runs_request)
  fix w :: "('k beside, 'h, 'c) world" and k assume "safe k"
  moreover have "calm k (snd (get_agent C n k))" using benign_calm [of "GetAgent n" k] by simp
  ultimately show "safe (snd (get_agent C n k)) \<and>
      (\<forall>a. fst (get_agent C n k) = Inr a \<longrightarrow> keeps_owner (agent_Spec a) \<and> agent_key a = n)"
    using get_agent_stored [of n k] stored_key owners_keptD safe_calm unfolding safe_def by (metis prod.collapse)
qed

lemma owned_by_selector:
  "owned_by (agent_key a) p \<longleftrightarrow> meta_Namespace (pod_Meta p) = agent_Namespace a \<and> matches (pod_selector a) (pod_Labels p)"
  by (simp add: owned_by_def agent_key_def pod_selector_def)

lemma runs_List_pods:
  "runs good (List_pods (r_Client r) (agent_Namespace a) (pod_selector a))
     (\<lambda>x w. good w \<and> (\<forall>ps. x = Inr ps \<longrightarrow> find pod_live ps = None \<longrightarrow>
        live_names (pods (b_kube (kube w))) (agent_key a) = {}))"
  unfolding client_defs client with_others_simps
proof (intro runs_request)
  fix w :: "('k beside, 'h, 'c) world" and k assume k: "safe k"
  let ?r = "list_pods C (agent_Namespace a) (pod_selector a) k"
  have same: "pods (snd ?r) = pods k" and calm: "calm k (snd ?r)"
    using pods_kept [of "ListPods (agent_Namespace a) (pod_selector a)" k]
      benign_calm [of "ListPods (agent_Namespace a) (pod_selector a)" k] by simp_all
  have "live_names (pods k) (agent_key a) = {}" if "fst ?r = Inr ps" "find pod_live ps = None" for ps
  proof -
    have "?r = (Inr ps, snd ?r)" using that(1) by (metis prod.collapse)
    from list_pods_complete [OF this] that(2) show ?thesis
      by (auto simp: live_names_def owned_by_selector find_None_iff)
  qed
  with same safe_calm [OF k calm] show "safe (snd ?r) \<and> (\<forall>ps. fst ?r = Inr ps \<longrightarrow> find pod_live ps = None \<longrightarrow>
      live_names (pods (snd ?r)) (agent_key a) = {})" by simp
qed

lemma runs_findAgentPod:
  "runs good (findAgentPod r a)
     (\<lambda>x w. good w \<and> (x = Inr None \<longrightarrow> live_names (pods (b_kube (kube w))) (agent_key a) = {}))"
  unfolding findAgentPod_def
  by (rule runs_bind [OF runs_List_pods]) (auto simp: runs_def split: sum.split)

text \<open>Creating the pod when there is none.\<close>

lemma built_owner:
  assumes "keeps_owner (agent_Spec a)" and "r_OwnPod r a (buildPod a) = Inr p" and "owned_by n p"
  shows "n = agent_key a"
proof -
  have "entries (pod_Labels (buildPod a)) podOwnerLabel = Some (agent_Name a)"
    using assms(1) by (simp add: keeps_owner_def buildPod_def Let_def map_add_def)
  moreover have "meta_Namespace (pod_Meta (buildPod a)) = agent_Namespace a"
    by (simp add: buildPod_def Let_def)
  ultimately show ?thesis
    using own_pod_keeps [OF assms(2)] assms(3) by (auto simp: owned_by_def matches_def agent_key_def prod_eq_iff)
qed

lemma runs_createPod:
  assumes a: "keeps_owner (agent_Spec a)"
  shows "runs (\<lambda>w. good w \<and> live_names (pods (b_kube (kube w))) (agent_key a) = {}) (createPod r a) (\<lambda>_. good)"
proof (cases "r_OwnPod r a (buildPod a)")
  case (Inl e)
  then show ?thesis by (simp add: createPod_def runs_def)
next
  case (Inr p)
  have "runs (\<lambda>w. good w \<and> live_names (pods (b_kube (kube w))) (agent_key a) = {})
      (Create_pod (r_Client r) p) (\<lambda>_ w. good w \<and> True)"
    unfolding client_defs client with_others_simps
  proof (intro runs_request conjI)
    fix w :: "('k beside, 'h, 'c) world" and k
    assume "good w \<and> live_names (pods (b_kube (kube w))) (agent_key a) = {}"
      and "calm (b_kube (kube w)) k" and k: "safe k"
    then have none: "live_names (pods k) (agent_key a) = {}" using calm_names by blast
    let ?k = "snd (create_pod C p k)"
    obtain p' where p': "meta_Namespace (pod_Meta p') = meta_Namespace (pod_Meta p)" "pod_Labels p' = pod_Labels p"
      "pods ?k \<subseteq> insert p' (pods k)" using pod_created [of p k] by auto
    have "owned_by n p' \<Longrightarrow> n = agent_key a" for n
      using built_owner [OF a Inr] p'(1,2) by (simp add: owned_by_def)
    then have names: "live_names (pods ?k) n \<subseteq> (if n = agent_key a then {pod_Name p'} else {}) \<union> live_names (pods k) n" for n
      using live_names_insert [OF p'(3), of n] by (auto split: if_splits)
    have "x = y" if "x \<in> live_names (pods ?k) n" "y \<in> live_names (pods ?k) n" for n x y
      using subsetD [OF names that(1)] subsetD [OF names that(2)] none k one_pod_eachD [of "pods k" x n y]
      by (cases "n = agent_key a") (simp_all add: safe_def)
    moreover have "agents ?k = agents k" using agents_kept [of "CreatePod p" k] by simp
    ultimately show "safe ?k" using k unfolding safe_def one_pod_each_def by metis
  qed simp_all
  then show ?thesis
    using Inr by (simp add: createPod_def) (rule runs_bind, assumption, simp add: stays_ret)
qed

text \<open>All the branches.\<close>

lemma stays_helpers [stays_intros]:
  "stays good timestamp" "stays good (stamped m)" "stays good (Eventf a ty re msg)" "stays good (appendHistory r a ty re msg)"
  "stays good (announce r a ty re m)" "stays good (setCondition a ty st re msg)" "stays good (delete_pod_if_there r p)"
  "stays good (updateStatus r a ph n msg)" "stays good (set_ServiceName r a n)"
  unfolding announce_def stamped_def timestamp_def Eventf_def appendHistory_def append_event_def setCondition_def
    delete_pod_if_there_def updateStatus_def set_ServiceName_def patch_status_of_def
  by (intro stays_intros)+

lemma stays_reconcileService [stays_intros]: "stays good (reconcileService r a)"
  unfolding reconcileService_def drop_service_of_def create_service_for_def update_service_for_def
  by (intro stays_intros)

lemma stays_spawn [stays_intros]: "keeps_owner (res_spec rs) \<Longrightarrow> stays good (spawn rs)"
  by (rule runsI) (auto simp: good_def monad_simps)

lemma stays_branches [stays_intros]:
  "stays good (report_creation r a failed)" "stays good (reconcile_paused r a found)"
  "stays good (reconcile_drift r a p)" "stays good (reconcile_sync r a p)"
  unfolding report_creation_def reconcile_paused_def reconcile_drift_def reconcile_sync_def Let_def
  by (intro stays_intros)+

lemma stays_findAgentPod: "stays good (findAgentPod r a)"
  by (rule runs_post [OF runs_findAgentPod]) simp

lemma stays_removal:
  "keeps_owner (agent_Spec a) \<Longrightarrow> stays good (handleDeletion r a)"
  "keeps_owner (agent_Spec a) \<Longrightarrow> stays good (add_finalizer r a)"
  unfolding handleDeletion_def remove_finalizer_and_resurrect_def add_finalizer_def
  by (intro stays_intros stays_findAgentPod; simp add: finalizers_keep resurrection_of_def)+

lemma runs_reconcile_found:
  assumes "keeps_owner (agent_Spec a)"
  shows "runs (\<lambda>w. good w \<and> (found = None \<longrightarrow> live_names (pods (b_kube (kube w))) (agent_key a) = {}))
    (reconcile_found r a found) (\<lambda>_. good)"
proof -
  have missing: "runs (\<lambda>w. good w \<and> live_names (pods (b_kube (kube w))) (agent_key a) = {})
      (reconcile_missing r a) (\<lambda>_. good)"
    unfolding reconcile_missing_def by (rule runs_bind [OF runs_createPod [OF assms] stays_branches(1)])
  show ?thesis
  proof (cases "found = None \<and> \<not> spec_Paused (agent_Spec a)")
    case True
    then show ?thesis using missing by (simp add: reconcile_found_def)
  next
    case False
    then have "stays good (reconcile_found r a found)"
      by (auto simp: reconcile_found_def intro!: stays_branches split: option.split)
    then show ?thesis by (rule runs_pre) simp
  qed
qed

lemma stays_Reconcile: "stays good (Reconcile r n)"
proof -
  have agent: "stays good (reconcile_agent r a)" if a: "keeps_owner (agent_Spec a)" for a
  proof -
    have "runs good (do {
        found \<leftarrow> findAgentPod r a;
        case found of Inl e \<Rightarrow> ret (no_result, Some e) | Inr found \<Rightarrow> reconcile_found r a found }) (\<lambda>_. good)"
    proof (rule runs_bind [OF runs_findAgentPod])
      fix x
      show "runs (\<lambda>w. good w \<and> (x = Inr None \<longrightarrow> live_names (pods (b_kube (kube w))) (agent_key a) = {}))
          (case x of Inl e \<Rightarrow> ret (no_result, Some e) | Inr found \<Rightarrow> reconcile_found r a found) (\<lambda>_. good)"
        using runs_reconcile_found [OF a] by (cases x) (auto simp: runs_def)
    qed
    then show ?thesis unfolding reconcile_agent_def by (intro stays_if stays_removal a)
  qed
  show ?thesis
    unfolding Reconcile_def
    by (rule runs_bind [OF runs_Get_agent]) (use agent in \<open>auto simp: runs_fact stays_ret split: sum.split\<close>)
qed

end

section \<open>The system\<close>

text \<open>
  The steps of everybody but the reconciler: a request of the REST handlers, the watcher, a resurrection or a
  user, refused or not, or a move of the cluster itself (the kubelet, the garbage collector), in which specs stay
  and live pods at most go.
\<close>

inductive other_step ::
  "'k Client \<Rightarrow> ('k \<Rightarrow> nn \<Rightarrow> Agent option) \<Rightarrow> ('k \<Rightarrow> Pod set) \<Rightarrow> 'k \<Rightarrow> 'k \<Rightarrow> bool"
  for C :: "'k Client" and agents pods where
  request: "benign q \<Longrightarrow> other_step C agents pods k (after_call C q k)"
| move: "(\<And>n a'. agents k' n = Some a' \<Longrightarrow> \<exists>a. agents k n = Some a \<and> agent_Spec a' = agent_Spec a) \<Longrightarrow>
    (\<And>n. live_names (pods k') n \<subseteq> live_names (pods k) n) \<Longrightarrow> other_step C agents pods k k'"

definition beside :: "('k, 'h) AgentReconciler \<Rightarrow> ('k beside, 'h) AgentReconciler" where
  "beside r = \<lparr>r_Client = with_others (r_Client r), r_History = r_History r,
     r_ContainsFinalizer = r_ContainsFinalizer r, r_AddFinalizer = r_AddFinalizer r,
     r_RemoveFinalizer = r_RemoveFinalizer r, r_OwnPod = r_OwnPod r, r_OwnService = r_OwnService r\<rparr>"

lemma beside_simps [simp]:
  "r_Client (beside r) = with_others (r_Client r)" "r_History (beside r) = r_History r"
  "r_ContainsFinalizer (beside r) = r_ContainsFinalizer r" "r_AddFinalizer (beside r) = r_AddFinalizer r"
  "r_RemoveFinalizer (beside r) = r_RemoveFinalizer r" "r_OwnPod (beside r) = r_OwnPod r"
  "r_OwnService (beside r) = r_OwnService r"
  by (simp_all add: beside_def)

text \<open>A run that starts in the cluster \<open>k\<close>, with any number of steps of the others before each request.\<close>

definition run_from :: "'k Client \<Rightarrow> ('k \<Rightarrow> nn \<Rightarrow> Agent option) \<Rightarrow> ('k \<Rightarrow> Pod set) \<Rightarrow> 'k \<Rightarrow>
    ('k beside, 'h, 'c) world \<Rightarrow> bool" where
  "run_from C agents pods k w \<longleftrightarrow> b_kube (kube w) = k \<and> b_seen (kube w) = [] \<and> spawned w = [] \<and>
     (\<forall>i k. (other_step C agents pods)\<^sup>*\<^sup>* k (b_others (kube w) i k))"

text \<open>
  controller-runtime runs the reconciliations of one controller one after the other (\<open>MaxConcurrentReconciles\<close> is
  1 by default), so a state between two of them is reached by whole reconciliations and steps of the others.
\<close>

inductive reached :: "('k, 'h) AgentReconciler \<Rightarrow> ('k \<Rightarrow> nn \<Rightarrow> Agent option) \<Rightarrow> ('k \<Rightarrow> Pod set) \<Rightarrow> 'k \<Rightarrow> 'k \<Rightarrow> bool"
  for r :: "('k, 'h) AgentReconciler" and agents pods k0 where
  start: "reached r agents pods k0 k0"
| other: "reached r agents pods k0 k \<Longrightarrow> other_step (r_Client r) agents pods k k' \<Longrightarrow> reached r agents pods k0 k'"
| reconcile: "reached r agents pods k0 k \<Longrightarrow> run_from (r_Client r) agents pods k (w :: ('k beside, 'h, unit) world) \<Longrightarrow>
    reached r agents pods k0 (b_kube (kube (snd (run_state (Reconcile (beside r) n) w))))"

inductive_cases reached_cases: "reached r agents pods k0 k"

locale reconciled_cluster = reconciler_beside "r_Client r" agents pods "beside r"
  for r :: "('k, 'h) AgentReconciler" and agents pods
begin

lemma other_step_calm: "other_step (r_Client r) agents pods k k' \<Longrightarrow> calm k k'"
proof (induction rule: other_step.induct)
  case (move k' k)
  have "owners_kept (agents k')" if "owners_kept (agents k)"
    using move(1) owners_keptD [OF that] unfolding owners_kept_def ran_def by fastforce
  with move(2) show ?case by (simp add: calm_def)
qed (rule benign_calm)

lemma other_steps_calm: "(other_step (r_Client r) agents pods)\<^sup>*\<^sup>* k k' \<Longrightarrow> calm k k'"
  by (induction rule: rtranclp_induct) (auto intro: calm_trans other_step_calm)

lemma run_from_good: "run_from (r_Client r) agents pods k w \<Longrightarrow> safe k \<Longrightarrow> good w"
  by (auto simp: run_from_def good_def other_steps_calm)

lemma run_good: "run_from (r_Client r) agents pods k w \<Longrightarrow> safe k \<Longrightarrow> good (snd (run_state (Reconcile (beside r) n) w))"
  using runsD [OF stays_Reconcile run_from_good] .

lemma reached_safe:
  assumes "reached r agents pods k0 k" and "safe k0"
  shows "safe k"
  using assms(1)
proof induction
  case (other k k')
  then show ?case using safe_calm other_step_calm by blast
next
  case (reconcile k w n)
  then show ?case using run_good [of k w n] by (simp add: good_def)
qed (rule assms(2))

lemma at_most_one:
  assumes "owners_kept (agents k0)" and "one_pod_each (pods k0)"
    and "reached r agents pods k0 k" and "run_from (r_Client r) agents pods k w"
  shows "one_pod_each (pods k) \<and>
    (\<forall>k' \<in> set (b_seen (kube (snd (run_state (Reconcile (beside r) n) w)))). one_pod_each (pods k')) \<and>
    (\<forall>rs \<in> set (spawned (snd (run_state (Reconcile (beside r) n) w))). keeps_owner (res_spec rs))"
proof -
  have "safe k" using reached_safe [OF assms(3)] assms(1,2) by (simp add: safe_def)
  then show ?thesis using run_good [OF assms(4)] by (simp add: safe_def good_def)
qed

end

lemma ref_reconciled_cluster: "reconciled_cluster ref_reconciler ref_agents ref_pods"
  unfolding reconciled_cluster_def reconciler_beside_def reconciler_beside_axioms_def
  using ref_safe.kube_safety_axioms by (auto simp: with_finalizers_def)

interpretation ref_cluster: reconciled_cluster ref_reconciler ref_agents ref_pods
  by (rule ref_reconciled_cluster)

section \<open>Properties\<close>


definition ref_beside_world :: "(nat \<Rightarrow> cluster \<Rightarrow> cluster) \<Rightarrow> cluster \<Rightarrow> (cluster beside, InMemoryHistory, unit) world" where
  "ref_beside_world e k = \<lparr>kube = \<lparr>b_kube = k, b_others = e, b_seen = []\<rparr>, hist = NewInMemoryHistory 1000, cach = (),
     clock = (\<lambda>n. int n * Second), calls = [], evts = [], spawned = []\<rparr>"

text \<open>Somebody pauses the agent after the reconciler has listed its pods.\<close>

definition ref_meddler :: "nat \<Rightarrow> cluster \<Rightarrow> cluster" where
  "ref_meddler i k = (if i = 2 then after_call ref_kube (PatchAgent ref_agent ref_paused) k else k)"

lemma ref_meddler_step:
  "(other_step ref_kube ref_agents ref_pods)\<^sup>*\<^sup>* k (ref_meddler i k)"
proof -
  have "benign (PatchAgent ref_agent ref_paused)" by (simp add: ref_paused_def)
  from r_into_rtranclp [of "other_step ref_kube ref_agents ref_pods", OF other_step.request [OF this]]
  show ?thesis by (simp add: ref_meddler_def)
qed

lemma ref_beside_run:
  "cl_pods (b_kube (kube (snd (run_state (Reconcile (beside ref_reconciler) (''default'', ''a''))
     (ref_beside_world ref_meddler (ref_cluster ref_agent [])))))) \<noteq> []"
  using ref_cluster_simps(1) [of ref_agent]
  by (simp add: ref_beside_world_def reconcile_defs monad_simps ref_kube_reads ref_create_pod empty_meta_def
      buildPod_def Let_def empty_spec_def ref_meddler_def)

lemma ref_owners: "owners_kept (ref_agents (ref_cluster ref_agent []))"
  by (auto simp: owners_kept_def ran_def ref_cluster_def ref_agents_def keeps_owner_def empty_spec_def split: if_splits)


end
