(* ===== verification/Idle_Watcher.thy ===== *)
theory Idle_Watcher
  imports Ref_Kube Mem_Cache Redis_Cache
begin

text \<open>
  \<open>internal/idle/watcher.go\<close>: the idle watcher. What it relies on of the cache is the locale
  \<open>activity_cache\<close>, the contract \<open>cache_store\<close> together with a bound on how much a stored time can be
  off when it is read back: 0 for \<open>InMemoryCache\<close>, 256 ns for \<open>RedisCache\<close>.

  \<open>Start\<close> calls \<open>check\<close> at every tick until its context is cancelled; the theorems are about one
  \<open>check\<close>, for any state of the cluster and the cache, so about every tick.
\<close>

section \<open>The watcher\<close>

abbreviation ActivityKey :: string where "ActivityKey \<equiv> ''_idle_last_activity''"
abbreviation stoppedAtKey :: string where "stoppedAtKey \<equiv> ''orchestrator.dev/stopped-at''"
abbreviation stopReasonKey :: string where "stopReasonKey \<equiv> ''orchestrator.dev/stop-reason''"

record ('k, 'c) Watcher =
  w_Client :: "'k Client"
  w_Cache :: "'c CacheStore"
  w_GlobalTimeout :: int
  w_CheckInterval :: int

text \<open>\<open>Start\<close> replaces an interval that is not positive.\<close>

definition tick_interval :: "('k, 'c) Watcher \<Rightarrow> int" where
  "tick_interval w = (if w_CheckInterval w \<le> 0 then 30 * Second else w_CheckInterval w)"

text \<open>\<open>Set\<close> makes up to two clock readings of its own after the one that is stored.\<close>

definition TouchActivity :: "('k, 'c) Watcher \<Rightarrow> string \<Rightarrow> string \<Rightarrow> ('k, 'h, 'c, unit) prog" where
  "TouchActivity wt namespace name = do {
     t \<leftarrow> Now; t1 \<leftarrow> Now; t2 \<leftarrow> Now;
     on_cach (\<lambda>c. ((), cs_Set (w_Cache wt) namespace name ActivityKey (VInt64 (wrap64 t)) 0 (t1, t2) c)) }"

text \<open>
  \<open>int64(v)\<close> of a \<open>float64\<close> truncates; outside the range of \<open>int64\<close> the result is the one of amd64.
\<close>

definition int64_of_float :: "rat \<Rightarrow> int" where
  "int64_of_float q = (let i = (if 0 \<le> q then \<lfloor>q\<rfloor> else \<lceil>q\<rceil>) in if in_int64 i then i else - (2 ^ 63))"

fun nanos_of :: "gval \<Rightarrow> int option" where
  "nanos_of (VInt64 i) = Some i"
| "nanos_of (VFloat64 q) = Some (int64_of_float q)"
| "nanos_of _ = None"

definition pauseAgent :: "('k, 'c) Watcher \<Rightarrow> Agent \<Rightarrow> ('k, 'h, 'c, unit) prog" where
  "pauseAgent wt agent = do {
     t \<leftarrow> Now;
     _ \<leftarrow> Patch_agent (w_Client wt) agent
       (annotate stopReasonKey ''idle-timeout'' (annotate stoppedAtKey (format_rfc3339 t)
         (update_spec (\<lambda>s. s\<lparr>spec_Paused := True\<rparr>) agent)));
     ret () }"

definition effective_timeout :: "('k, 'c) Watcher \<Rightarrow> Agent \<Rightarrow> int" where
  "effective_timeout wt agent =
     (if spec_IdleTimeout (agent_Spec agent) > 0
      then wrap64 (spec_IdleTimeout (agent_Spec agent) * Second) else w_GlobalTimeout wt)"

definition check_agent :: "('k, 'c) Watcher \<Rightarrow> int \<Rightarrow> Agent \<Rightarrow> ('k, 'h, 'c, unit) prog" where
  "check_agent wt now agent =
     (if spec_Paused (agent_Spec agent) then ret ()
      else if effective_timeout wt agent = 0 then ret ()
      else do {
        t \<leftarrow> Now;
        val \<leftarrow> on_cach (cs_Get (w_Cache wt) (agent_Namespace agent) (agent_Name agent) ActivityKey t);
        case Option.bind val nanos_of of
          None \<Rightarrow> TouchActivity wt (agent_Namespace agent) (agent_Name agent)
        | Some lastActivityNano \<Rightarrow>
            if sat64 (now - lastActivityNano) < effective_timeout wt agent then ret ()
            else pauseAgent wt agent })"

fun check_all :: "('k, 'c) Watcher \<Rightarrow> int \<Rightarrow> Agent list \<Rightarrow> ('k, 'h, 'c, unit) prog" where
  "check_all wt now [] = ret ()"
| "check_all wt now (agent # agents) = do { check_agent wt now agent; check_all wt now agents }"

definition check :: "('k, 'c) Watcher \<Rightarrow> ('k, 'h, 'c, unit) prog" where
  "check wt = do {
     x \<leftarrow> List_agents (w_Client wt) None None;
     case x of
       Inl e \<Rightarrow> ret ()
     | Inr items \<Rightarrow> do { now \<leftarrow> Now; check_all wt now items } }"

text \<open>Any number of ticks, the loop of \<open>Start\<close>.\<close>

primrec ticks :: "('k, 'c) Watcher \<Rightarrow> nat \<Rightarrow> ('k, 'h, 'c, unit) prog" where
  "ticks wt 0 = ret ()"
| "ticks wt (Suc n) = do { check wt; ticks wt n }"

section \<open>Pausing\<close>

text \<open>The patch that pauses an agent changes nothing but the flag and the two annotations.\<close>

definition is_pause_of :: "Agent \<Rightarrow> Agent \<Rightarrow> bool" where
  "is_pause_of b a \<longleftrightarrow> agent_Spec a = (agent_Spec b)\<lparr>spec_Paused := True\<rparr> \<and> agent_Status a = agent_Status b \<and>
     agent_key a = agent_key b \<and>
     (\<exists>s. entries (agent_Annotations a) = (entries (agent_Annotations b))
        (stoppedAtKey \<mapsto> s, stopReasonKey \<mapsto> ''idle-timeout''))"

text \<open>The timeout in seconds cannot overflow.\<close>

lemma effective_timeout_exact:
  "in_int32 (spec_IdleTimeout (agent_Spec a)) \<Longrightarrow> effective_timeout wt a =
     (if spec_IdleTimeout (agent_Spec a) > 0 then spec_IdleTimeout (agent_Spec a) * Second else w_GlobalTimeout wt)"
  by (simp add: effective_timeout_def in_int32_def in_int64_def)

lemma run_pauseAgent:
  "\<exists>a oc w'. run_state (pauseAgent wt b) w = ((), w') \<and> calls w' = calls w @ [(PatchAgent b a, oc)] \<and>
     is_pause_of b a \<and> cach w' = cach w"
  by (auto simp: pauseAgent_def monad_simps is_pause_of_def agent_key_def)

lemma run_TouchActivity:
  "run_state (TouchActivity wt ns n) w = ((), w\<lparr>clock := \<lambda>i. clock w (Suc (Suc (Suc i))),
     cach := cs_Set (w_Cache wt) ns n ActivityKey (VInt64 (wrap64 (clock w 0))) 0
       (clock w (Suc 0), clock w (Suc (Suc 0))) (cach w)\<rparr>)"
  by (simp add: TouchActivity_def monad_simps)

text \<open>What a check may send.\<close>

fun watcher_may :: "kcall \<Rightarrow> bool" where
  "watcher_may (ListAgents ns lm) \<longleftrightarrow> ns = None \<and> lm = None"
| "watcher_may (PatchAgent b a) \<longleftrightarrow> \<not> spec_Paused (agent_Spec b) \<and> is_pause_of b a"
| "watcher_may _ = False"

lemma may_pauseAgent: "\<not> spec_Paused (agent_Spec b) \<Longrightarrow> emits watcher_may (pauseAgent wt b)"
proof -
  assume b: "\<not> spec_Paused (agent_Spec b)"
  show ?thesis unfolding emits_def
  proof
    fix w
    obtain a oc w' where "run_state (pauseAgent wt b) w = ((), w')" "calls w' = calls w @ [(PatchAgent b a, oc)]"
      "is_pause_of b a"
      using run_pauseAgent [of wt b w] by blast
    with b show "\<exists>l. calls (snd (run_state (pauseAgent wt b) w)) = calls w @ l \<and> (\<forall>x \<in> set l. watcher_may (fst x))"
      by auto
  qed
qed

lemma may_check_agent: "emits watcher_may (check_agent wt now a)"
  unfolding check_agent_def TouchActivity_def by (intro emits_intros may_pauseAgent)

lemma may_check_all: "emits watcher_may (check_all wt now as)"
  by (induction "as") (auto intro!: emits_intros may_check_agent)

lemma may_check: "emits watcher_may (check wt)"
  unfolding check_def by (intro emits_intros may_check_all) simp

lemma may_ticks: "emits watcher_may (ticks wt n)"
  by (induction n) (auto intro!: emits_intros may_check)

section \<open>Reading the activity back\<close>

text \<open>
  The times the watcher is about, up to the year 2116. At the very end of the range of \<open>int64\<close> (the year 2262)
  the rounded \<open>float64\<close> can be \<open>2 ^ 63\<close>, which is no \<open>int64\<close> any more.
\<close>

definition activity_time :: "int \<Rightarrow> bool" where
  "activity_time i \<longleftrightarrow> \<bar>i\<bar> < 2 ^ 62"

lemma activity_time_int64: "activity_time i \<Longrightarrow> in_int64 i"
  by (auto simp: activity_time_def in_int64_def)

locale activity_cache = cache_store S seen norm legal ttl_ok invar
  for S :: "'c CacheStore" and seen norm legal ttl_ok invar +
  fixes slack :: int
  assumes norm_activity: "activity_time i \<Longrightarrow> \<exists>j. nanos_of (norm (VInt64 i)) = Some j \<and> \<bar>j - i\<bar> \<le> slack"
    and no_ttl: "ttl_ok 0"

text \<open>From time \<open>u\<close> on, readers find the activity time \<open>j\<close>.\<close>

definition activity_at ::
  "(int \<Rightarrow> 'c \<Rightarrow> string \<Rightarrow> string \<Rightarrow> string \<Rightarrow> Entry option) \<Rightarrow> int \<Rightarrow> 'c \<Rightarrow> nn \<Rightarrow> int \<Rightarrow> bool" where
  "activity_at seen u c n j \<longleftrightarrow>
     (\<forall>t \<ge> u. \<exists>e. seen t c (fst n) (snd n) ActivityKey = Some e \<and> nanos_of (entry_Value e) = Some j)"

lemma activity_at_mono: "activity_at seen u c n j \<Longrightarrow> u \<le> u' \<Longrightarrow> activity_at seen u' c n j"
  by (simp add: activity_at_def)

context activity_cache
begin

lemma activity_after_touch:
  assumes "invar c" and "activity_time i"
  shows "\<exists>j. activity_at seen t1 (cs_Set S ns n ActivityKey (VInt64 i) 0 (t1, t2) c) (ns, n) j \<and> \<bar>j - i\<bar> \<le> slack"
proof -
  obtain j where j: "nanos_of (norm (VInt64 i)) = Some j" "\<bar>j - i\<bar> \<le> slack"
    using norm_activity [OF assms(2)] by blast
  have "map_option entry_Value (seen t (cs_Set S ns n ActivityKey (VInt64 i) 0 (t1, t2) c) ns n ActivityKey) =
      Some (norm (VInt64 i))" if "t1 \<le> t" for t
    using assms(1) that by (simp add: set_same no_ttl)
  then have "activity_at seen t1 (cs_Set S ns n ActivityKey (VInt64 i) 0 (t1, t2) c) (ns, n) j"
    unfolding activity_at_def using j(1) by (auto simp: map_option_eq_Some) metis
  with j(2) show ?thesis by blast
qed

text \<open>The state of a run in which the activity of \<open>n\<close> is \<open>j\<close> and the clock does not go back.\<close>

definition tracking :: "nn \<Rightarrow> int \<Rightarrow> ('k, 'h, 'c) world \<Rightarrow> bool" where
  "tracking n j w \<longleftrightarrow> mono (clock w) \<and> invar (cach w) \<and> legal (fst n) (snd n) \<and>
     activity_at seen (clock w 0) (cach w) n j"

lemma tracking_touch_other:
  assumes "tracking n j w" and "w_Cache wt = S" and "legal ns' n'" and "(ns', n') \<noteq> n"
  shows "tracking n j (snd (run_state (TouchActivity wt ns' n') w))"
proof -
  have le: "clock w 0 \<le> t" "clock w 1 \<le> t" if "clock w 3 \<le> t" for t
    using assms(1) that monoD [of "clock w" 0 3] monoD [of "clock w" 1 3] by (auto simp: tracking_def)
  have "seen t (cs_Set S ns' n' ActivityKey v 0 (clock w 1, clock w 2) (cach w)) (fst n) (snd n) ActivityKey =
      seen t (cach w) (fst n) (snd n) ActivityKey" if "clock w 3 \<le> t" for t v
    using assms le(2) [OF that] by (intro set_other) (auto simp: tracking_def)
  with assms le show ?thesis
    by (simp add: run_TouchActivity tracking_def activity_at_def invar_set numeral_3_eq_3 numeral_2_eq_2
        mono_def)
qed

lemma tracking_get:
  assumes "tracking n j w" and "w_Cache wt = S"
  shows "\<exists>val w'. run_state (State_Monad.bind Now (\<lambda>t. on_cach (cs_Get (w_Cache wt) ns' n' ActivityKey t))) w = (val, w') \<and>
    tracking n j w' \<and> calls w' = calls w \<and> ((ns', n') = n \<longrightarrow> Option.bind val nanos_of = Some j)"
proof -
  let ?t = "clock w 0"
  let ?w' = "w\<lparr>clock := \<lambda>i. clock w (Suc i), cach := snd (cs_Get S ns' n' ActivityKey ?t (cach w))\<rparr>"
  have inv: "invar (cach w)" and m: "mono (clock w)" using assms(1) by (simp_all add: tracking_def)
  have le: "?t \<le> t" if "clock w (Suc 0) \<le> t" for t
    using monoD [OF m, of 0 "Suc 0"] that by simp
  have "tracking n j ?w'"
    using assms(1) le by (auto simp: tracking_def activity_at_def invar_get get_keeps mono_def)
  moreover have "Option.bind (fst (cs_Get S ns' n' ActivityKey ?t (cach w))) nanos_of = Some j" if "(ns', n') = n"
    using assms(1) that by (auto simp: tracking_def activity_at_def get [OF inv])
  ultimately show ?thesis using assms(2) by (simp add: monad_simps)
qed

lemma tracking_pause:
  assumes "tracking n j w"
  shows "\<exists>a oc w'. run_state (pauseAgent wt b) w = ((), w') \<and> calls w' = calls w @ [(PatchAgent b a, oc)] \<and> tracking n j w'"
proof -
  have m: "mono (clock w)" using assms by (simp add: tracking_def)
  have le: "clock w 0 \<le> t" if "clock w (Suc 0) \<le> t" for t
    using monoD [OF m, of 0 "Suc 0"] that by simp
  show ?thesis
    using assms le by (auto simp: pauseAgent_def monad_simps tracking_def activity_at_def mono_def)
qed

text \<open>The decision about one agent.\<close>

definition overdue :: "('k, 'c) Watcher \<Rightarrow> int \<Rightarrow> int \<Rightarrow> Agent \<Rightarrow> bool" where
  "overdue wt now j b \<longleftrightarrow> \<not> spec_Paused (agent_Spec b) \<and> effective_timeout wt b \<noteq> 0 \<and>
     effective_timeout wt b \<le> sat64 (now - j)"

lemma check_agent_tracking:
  assumes "tracking n j w" and "w_Cache wt = S" and "legal (agent_Namespace b) (agent_Name b)"
  shows "\<exists>l w'. run_state (check_agent wt now b) w = ((), w') \<and> tracking n j w' \<and> calls w' = calls w @ l \<and>
    (agent_key b = n \<longrightarrow> (if overdue wt now j b then \<exists>a oc. l = [(PatchAgent b a, oc)] else l = [])) \<and>
    (\<forall>b' a oc. (PatchAgent b' a, oc) \<in> set l \<longrightarrow> b' = b)"
proof (cases "spec_Paused (agent_Spec b) \<or> effective_timeout wt b = 0")
  case True
  then show ?thesis using assms(1) by (auto simp: check_agent_def overdue_def)
next
  case False
  obtain val w1 where w1: "run_state (State_Monad.bind Now (\<lambda>t. on_cach (cs_Get (w_Cache wt)
      (agent_Namespace b) (agent_Name b) ActivityKey t))) w = (val, w1)" "tracking n j w1" "calls w1 = calls w"
    "agent_key b = n \<longrightarrow> Option.bind val nanos_of = Some j"
    using tracking_get [OF assms(1,2), of "agent_Namespace b" "agent_Name b"] by (auto simp: agent_key_def)
  have run: "run_state (check_agent wt now b) w = run_state (case Option.bind val nanos_of of
      None \<Rightarrow> TouchActivity wt (agent_Namespace b) (agent_Name b)
    | Some i \<Rightarrow> if sat64 (now - i) < effective_timeout wt b then ret () else pauseAgent wt b) w1"
    using False w1(1) by (auto simp: check_agent_def split: prod.splits)
  show ?thesis
  proof (cases "Option.bind val nanos_of")
    case None
    then have "agent_key b \<noteq> n" using w1(4) by auto
    then have "tracking n j (snd (run_state (TouchActivity wt (agent_Namespace b) (agent_Name b)) w1))"
      using tracking_touch_other [OF w1(2) assms(2,3)] by (simp add: agent_key_def)
    then show ?thesis
      using None run w1(3) \<open>agent_key b \<noteq> n\<close> by (simp add: run_TouchActivity)
  next
    case (Some i)
    obtain a oc w2 where w2: "run_state (pauseAgent wt b) w1 = ((), w2)" "calls w2 = calls w1 @ [(PatchAgent b a, oc)]"
      "tracking n j w2"
      using tracking_pause [OF w1(2)] by blast
    have "agent_key b = n \<longrightarrow> i = j" using w1(4) Some by auto
    then show ?thesis
      using Some run w1(2,3) w2 False by (auto simp: overdue_def)
  qed
qed

lemma check_all_tracking:
  assumes "tracking n j w" and "w_Cache wt = S" and "\<forall>b \<in> set bs. legal (agent_Namespace b) (agent_Name b)"
  shows "\<exists>l. calls (snd (run_state (check_all wt now bs) w)) = calls w @ l \<and>
    tracking n j (snd (run_state (check_all wt now bs) w)) \<and>
    (\<forall>b a oc. (PatchAgent b a, oc) \<in> set l \<longrightarrow> b \<in> set bs \<and> (agent_key b = n \<longrightarrow> overdue wt now j b)) \<and>
    (\<forall>b \<in> set bs. agent_key b = n \<and> overdue wt now j b \<longrightarrow> (\<exists>a oc. (PatchAgent b a, oc) \<in> set l))"
  using assms
proof (induction bs arbitrary: w)
  case Nil
  then show ?case by simp
next
  case (Cons b bs)
  obtain l1 w1 where w1: "run_state (check_agent wt now b) w = ((), w1)" "tracking n j w1" "calls w1 = calls w @ l1"
    "agent_key b = n \<longrightarrow> (if overdue wt now j b then \<exists>a oc. l1 = [(PatchAgent b a, oc)] else l1 = [])"
    "\<forall>b' a oc. (PatchAgent b' a, oc) \<in> set l1 \<longrightarrow> b' = b"
    using check_agent_tracking [OF Cons.prems(1,2), of b now] Cons.prems(3) by auto
  obtain l2 where l2: "calls (snd (run_state (check_all wt now bs) w1)) = calls w1 @ l2"
    "tracking n j (snd (run_state (check_all wt now bs) w1))"
    "\<forall>b a oc. (PatchAgent b a, oc) \<in> set l2 \<longrightarrow> b \<in> set bs \<and> (agent_key b = n \<longrightarrow> overdue wt now j b)"
    "\<forall>b \<in> set bs. agent_key b = n \<and> overdue wt now j b \<longrightarrow> (\<exists>a oc. (PatchAgent b a, oc) \<in> set l2)"
    using Cons.IH [OF w1(2) Cons.prems(2)] Cons.prems(3) by auto
  have mine: "agent_key b = n \<longrightarrow> overdue wt now j b" if "(PatchAgent b a, oc) \<in> set l1" for a oc
    using w1(4) that by (auto split: if_splits)
  have own: "agent_key b = n \<and> overdue wt now j b \<longrightarrow> (\<exists>a oc. (PatchAgent b a, oc) \<in> set l1)"
    using w1(4) by auto
  show ?case
  proof (intro exI [of _ "l1 @ l2"] conjI allI impI ballI)
    show "calls (snd (run_state (check_all wt now (b # bs)) w)) = calls w @ l1 @ l2"
      using w1(1,3) l2(1) by simp
    show "tracking n j (snd (run_state (check_all wt now (b # bs)) w))" using w1(1) l2(2) by simp
  next
    fix b' a oc assume "(PatchAgent b' a, oc) \<in> set (l1 @ l2)"
    then consider "(PatchAgent b' a, oc) \<in> set l1" | "(PatchAgent b' a, oc) \<in> set l2" by auto
    then show "b' \<in> set (b # bs)"
    proof cases
      case 1
      with w1(5) have "b' = b" by blast
      then show ?thesis by simp
    next
      case 2
      with l2(3) have "b' \<in> set bs" by blast
      then show ?thesis by simp
    qed
  next
    fix b' a oc assume "(PatchAgent b' a, oc) \<in> set (l1 @ l2)" "agent_key b' = n"
    then show "overdue wt now j b'" using w1(5) l2(3) mine by (metis Un_iff set_append)
  next
    fix b' assume "b' \<in> set (b # bs)" "agent_key b' = n \<and> overdue wt now j b'"
    then show "\<exists>a oc. (PatchAgent b' a, oc) \<in> set (l1 @ l2)"
      using own l2(4) by (metis Un_iff set_ConsD set_append)
  qed
qed

lemma check_tracking:
  assumes "tracking n j w" and "w_Cache wt = S"
    and items: "fst (list_agents (w_Client wt) None None (kube w)) = Inr bs"
    and "\<forall>b \<in> set bs. legal (agent_Namespace b) (agent_Name b)"
  shows "(\<forall>b a oc. (PatchAgent b a, oc) \<in> set (sent (check wt) w) \<longrightarrow>
      b \<in> set bs \<and> (agent_key b = n \<longrightarrow> overdue wt (clock w 0) j b)) \<and>
    (\<forall>b \<in> set bs. agent_key b = n \<and> overdue wt (clock w 0) j b \<longrightarrow>
      (\<exists>a oc. (PatchAgent b a, oc) \<in> set (sent (check wt) w)))"
proof -
  let ?w1 = "w\<lparr>kube := snd (list_agents (w_Client wt) None None (kube w)), calls := [(ListAgents None None, Done)],
     clock := \<lambda>n. clock w (Suc n)\<rparr>"
  have m: "mono (clock w)" using assms(1) by (simp add: tracking_def)
  have le: "clock w 0 \<le> t" if "clock w (Suc 0) \<le> t" for t
    using monoD [OF m, of 0 "Suc 0"] that by simp
  have "tracking n j ?w1"
    using assms(1) le by (auto simp: tracking_def activity_at_def mono_def)
  from check_all_tracking [OF this assms(2,4), of "clock w 0"]
  obtain l where l: "calls (snd (run_state (check_all wt (clock w 0) bs) ?w1)) = (ListAgents None None, Done) # l"
    "\<forall>b a oc. (PatchAgent b a, oc) \<in> set l \<longrightarrow> b \<in> set bs \<and> (agent_key b = n \<longrightarrow> overdue wt (clock w 0) j b)"
    "\<forall>b \<in> set bs. agent_key b = n \<and> overdue wt (clock w 0) j b \<longrightarrow> (\<exists>a oc. (PatchAgent b a, oc) \<in> set l)"
    by auto
  have "sent (check wt) w = (ListAgents None None, Done) # l"
    using l(1) items by (simp add: sent_def check_def monad_simps)
  with l(2,3) show ?thesis by auto
qed

lemma sat64_mono_less: "x < t \<Longrightarrow> 0 < t \<Longrightarrow> sat64 x < t"
  by (auto simp: sat64_def)

lemma touched_not_overdue:
  assumes "\<bar>j - i\<bar> \<le> slack" and "i \<le> now" and "now - i + slack < effective_timeout wt b"
  shows "\<not> overdue wt now j b"
proof -
  have "now - j < effective_timeout wt b" "0 < effective_timeout wt b" using assms by linarith+
  then have "sat64 (now - j) < effective_timeout wt b" by (rule sat64_mono_less)
  then show ?thesis by (simp add: overdue_def)
qed

lemma touched_then_tracking:
  assumes "invar (cach w)" and "w_Cache wt = S" and "legal ns n" and "activity_time (clock w 0)"
    and "cach w2 = cach (snd (run_state (TouchActivity wt ns n) w))" and "mono (clock w2)"
    and "clock w 1 \<le> clock w2 0"
  shows "\<exists>j. tracking (ns, n) j w2 \<and> \<bar>j - clock w 0\<bar> \<le> slack"
proof -
  obtain j where j: "activity_at seen (clock w 1) (cach w2) (ns, n) j" "\<bar>j - clock w 0\<bar> \<le> slack"
    using activity_after_touch [OF assms(1,4), of "clock w 1" ns n "clock w 2"] assms(2,4,5)
    by (auto simp: run_TouchActivity numeral_2_eq_2 activity_time_int64)
  moreover have "invar (cach w2)"
    using assms(1,2,5) by (simp add: run_TouchActivity invar_set)
  ultimately show ?thesis
    using assms(3,6,7) by (auto simp: tracking_def intro: activity_at_mono)
qed

end

section \<open>The two caches\<close>

lemma int64_of_float_int: "in_int64 i \<Longrightarrow> int64_of_float (of_int i) = i"
  by (simp add: int64_of_float_def Let_def)

interpretation mem_activity: activity_cache mem_store mc_seen id slash_free "\<lambda>_. True" mc_inv 0
  by unfold_locales simp_all

lemma mem_activity_cache: "activity_cache mem_store mc_seen id slash_free (\<lambda>_. True) mc_inv 0"
  by unfold_locales

lemma redis_norm_activity:
  "activity_time i \<Longrightarrow> \<exists>j. nanos_of (json_norm (VInt64 i)) = Some j \<and> \<bar>j - i\<bar> \<le> 256"
proof -
  assume i: "activity_time i"
  then have "\<bar>i\<bar> < 2 ^ (53 + 9)" by (simp add: activity_time_def)
  then have "2 * \<bar>f64_of_int i - i\<bar> \<le> 2 ^ 9" by (rule f64_of_int_error_bits)
  then have e: "\<bar>f64_of_int i - i\<bar> \<le> 256" by simp
  then have "in_int64 (f64_of_int i)" using i by (auto simp: activity_time_def in_int64_def)
  with e show ?thesis by (simp add: json_norm_def int64_of_float_int)
qed

sublocale redis_server \<subseteq> redis_activity: activity_cache "redis_store R" "redis_seen rv" json_norm
  redis_legal redis_ttl_ok good 256
  by unfold_locales (simp_all add: redis_norm_activity redis_ttl_ok_def in_int64_def)

context redis_server
begin

lemma activity: "activity_cache (redis_store R) (redis_seen rv) json_norm redis_legal redis_ttl_ok good 256"
  by unfold_locales

end

lemmas redis_activity_cache = redis_server.activity

section \<open>A concrete watcher\<close>

definition ref_watcher :: "(cluster, InMemoryCache) Watcher" where
  "ref_watcher = \<lparr>w_Client = ref_kube, w_Cache = mem_store, w_GlobalTimeout = 60 * Second,
     w_CheckInterval = 30 * Second\<rparr>"

lemma ref_watcher_simps [simp]:
  "w_Client ref_watcher = ref_kube" "w_Cache ref_watcher = mem_store" "w_GlobalTimeout ref_watcher = 60 * Second"
  by (simp_all add: ref_watcher_def)

text \<open>A world whose clock starts at \<open>t\<close> and advances by a millisecond with every reading.\<close>

definition clock_world :: "cluster \<Rightarrow> 'h \<Rightarrow> 'c \<Rightarrow> int \<Rightarrow> (cluster, 'h, 'c) world" where
  "clock_world k h c t = \<lparr>kube = k, hist = h, cach = c, clock = (\<lambda>n. t + int n * Millisecond),
     calls = [], evts = [], spawned = []\<rparr>"

lemma clock_world_simps [simp]:
  "kube (clock_world k h c t) = k" "cach (clock_world k h c t) = c" "hist (clock_world k h c t) = h"
  "clock (clock_world k h c t) = (\<lambda>n. t + int n * Millisecond)" "calls (clock_world k h c t) = []"
  "mono (clock (clock_world k h c t))"
  by (simp_all add: clock_world_def mono_def)

definition idle_agent :: Agent where
  "idle_agent = \<lparr>agent_Meta = empty_meta\<lparr>meta_Name := ''a'', meta_Namespace := ''default''\<rparr>,
     agent_Spec = empty_spec, agent_Status = empty_status\<rparr>"

lemma idle_agent_simps [simp]:
  "agent_key idle_agent = (''default'', ''a'')" "agent_Name idle_agent = ''a''"
  "agent_Namespace idle_agent = ''default''" "effective_timeout ref_watcher idle_agent = 60 * Second"
  "\<not> spec_Paused (agent_Spec idle_agent)"
  by (simp_all add: idle_agent_def agent_key_def effective_timeout_def empty_spec_def)

section \<open>Properties\<close>

text \<open>
  Over any number of ticks and whatever the server answers, the watcher only lists agents and
  patches agents that were not paused when listed; such a patch sets \<open>spec.paused\<close> and the two annotations that say
  when and why, and changes nothing else.
\<close>

lemma watcher_write_discipline:
  assumes "(q, oc) \<in> set (sent (ticks wt n) w)"
  shows "watcher_may q"
  using emits_sent [OF may_ticks assms] by simp

lemma watcher_write_discipline_example:
  "watcher_may (ListAgents None None) \<and> (ListAgents None None, Done) \<in>
     set (sent (ticks ref_watcher 1) (clock_world empty_cluster () NewInMemoryCache 0))"
proof -
  have "(ListAgents None None, Done) \<in> set (sent (ticks ref_watcher 1) (clock_world empty_cluster () NewInMemoryCache 0))"
    by (simp add: sent_def check_def monad_simps ref_kube_def empty_cluster_def List.map_filter_simps)
  from watcher_write_discipline [OF this] this show ?thesis by blast
qed

text \<open>
  On any cache that keeps the contract, for an agent whose recorded activity is \<open>j\<close>: a check
  pauses it exactly when it is listed as not paused, has a timeout, and the time since \<open>j\<close> has
  reached that timeout; no entry that the check itself writes for other agents interferes.
\<close>

lemma idle_agents_are_paused:
  fixes w :: "('k, 'h, 'c) world"
  assumes "activity_cache (w_Cache wt) seen back legal ttl_ok invar slack"
    and "invar (cach w)" and "mono (clock w)"
    and "activity_at seen (clock w 0) (cach w) (agent_key b) j"
    and "fst (list_agents (w_Client wt) None None (kube w)) = Inr bs" and "b \<in> set bs"
    and "\<forall>b \<in> set bs. legal (agent_Namespace b) (agent_Name b)"
  shows "(\<exists>a oc. (PatchAgent b a, oc) \<in> set (sent (check wt) w)) \<longleftrightarrow>
    \<not> spec_Paused (agent_Spec b) \<and> effective_timeout wt b \<noteq> 0 \<and>
    effective_timeout wt b \<le> sat64 (clock w 0 - j)"
proof -
  have "activity_cache.tracking seen legal invar (agent_key b) j w"
    using assms by (simp add: activity_cache.tracking_def [OF assms(1)] agent_key_def)
  from activity_cache.check_tracking [OF assms(1) this refl assms(5,7)] assms(6) show ?thesis
    unfolding activity_cache.overdue_def [OF assms(1)] by blast
qed

text \<open>
  On any cache that keeps the contract, an agent that was touched is not paused by a later check
  as long as the time since the touch, plus the error of the cache (0 in memory, 256 ns through
  Redis), is below its timeout, whatever else the check finds.
\<close>

lemma touched_agent_stays_awake:
  fixes w w2 :: "('k, 'h, 'c) world"
  assumes "activity_cache (w_Cache wt) seen back legal ttl_ok invar slack"
    and "invar (cach w)" and "legal ns n" and "activity_time (clock w 0)"
    and "cach w2 = cach (snd (run_state (TouchActivity wt ns n) w))"
    and "mono (clock w2)" and "clock w 0 \<le> clock w2 0" and "clock w 1 \<le> clock w2 0"
    and "fst (list_agents (w_Client wt) None None (kube w2)) = Inr bs"
    and "\<forall>b \<in> set bs. legal (agent_Namespace b) (agent_Name b)"
    and "agent_key b = (ns, n)" and "clock w2 0 - clock w 0 + slack < effective_timeout wt b"
  shows "(PatchAgent b a, oc) \<notin> set (sent (check wt) w2)"
proof -
  obtain j where j: "activity_cache.tracking seen legal invar (ns, n) j w2" "\<bar>j - clock w 0\<bar> \<le> slack"
    using activity_cache.touched_then_tracking [OF assms(1,2) refl assms(3-6,8)] by blast
  have "\<not> activity_cache.overdue wt (clock w2 0) j b"
    using activity_cache.touched_not_overdue [OF assms(1) j(2) assms(7,12)] .
  then show ?thesis
    using activity_cache.check_tracking [OF assms(1) j(1) refl assms(9,10)] assms(11) by blast
qed

text \<open>Agent \<open>a\<close> touched at time 0 by a watcher over the in-memory cache.\<close>

definition touched_cache :: InMemoryCache where
  "touched_cache = cach (snd (run_state (TouchActivity ref_watcher ''default'' ''a'')
     (clock_world empty_cluster () NewInMemoryCache 0)))"

lemma touched_cache_activity:
  "mc_inv touched_cache" "activity_at mc_seen (61 * Second) touched_cache (''default'', ''a'') 0"
proof -
  show "mc_inv touched_cache"
    by (simp add: touched_cache_def run_TouchActivity mc_inv_Set mc_inv_New)
  obtain j where j: "activity_at mc_seen Millisecond touched_cache (''default'', ''a'') j" "\<bar>j - 0\<bar> \<le> 0"
    using mem_activity.activity_after_touch [OF mc_inv_New, of 0 Millisecond "''default''" "''a''" "2 * Millisecond"]
    by (auto simp: touched_cache_def run_TouchActivity activity_time_def wrap64_def numeral_2_eq_2)
  then show "activity_at mc_seen (61 * Second) touched_cache (''default'', ''a'') 0"
    using activity_at_mono [of mc_seen Millisecond _ _ _ "61 * Second"] by auto
qed

lemma mono_clock: "mono (\<lambda>n. t + int n * Millisecond)"
  by (simp add: mono_def)

lemma touched_agent_stays_awake_example:
  "\<forall>a oc. (PatchAgent idle_agent a, oc) \<notin> set (sent (check ref_watcher)
     (clock_world (ref_cluster idle_agent []) () touched_cache (59 * Second)))"
  by (intro allI, rule touched_agent_stays_awake [where wt = ref_watcher and ns = "''default''" and n = "''a''"
        and w = "clock_world empty_cluster () NewInMemoryCache 0" and bs = "[idle_agent]" and slack = 0,
        unfolded ref_watcher_simps, OF mem_activity_cache])
    (simp_all add: mc_inv_New mono_clock slash_free_def activity_time_def touched_cache_def ref_list_one)

lemma idle_agents_are_paused_example:
  "\<exists>a oc. (PatchAgent idle_agent a, oc) \<in> set (sent (check ref_watcher)
     (clock_world (ref_cluster idle_agent []) () touched_cache (61 * Second)))"
proof -
  let ?w = "clock_world (ref_cluster idle_agent []) () touched_cache (61 * Second)"
  show ?thesis
    using idle_agents_are_paused [where wt = ref_watcher and w = ?w and b = idle_agent and bs = "[idle_agent]"
        and j = 0, unfolded ref_watcher_simps, OF mem_activity_cache] touched_cache_activity
    by (simp add: ref_list_one slash_free_def sat64_def mono_clock)
qed

end
