(* ===== verification/Rest_Server.thy ===== *)
theory Rest_Server
  imports Agent_Controller Idle_Watcher
begin

text \<open>
  What the REST handlers of \<open>internal/rest\<close> share: the server, requests and responses, and the helpers
  of \<open>handlers.go\<close> and \<open>server.go\<close>.

  Gin is not code of the repository. Its router gives a handler the path parameters, and a missing
  parameter is the empty string; \<open>ShouldBindJSON\<close> gives it the decoded body or an error, so a handler
  that reads a body takes \<open>string + 'req\<close> as an argument, the text of the error or the request. What it
  makes of a document is in \<open>Rest_Bodies\<close>.
\<close>

section \<open>Server, requests and responses\<close>

record ('k, 'h, 'c) Server =
  s_Client :: "'k Client"
  s_Cache :: "'c CacheStore"
  s_History :: "'h HistoryStore option"
  s_namespace :: string
  s_idleWatcher :: "('k, 'c) Watcher option"

text \<open>The path parameters and the query of a request, whose parameters may be absent.\<close>

record Request =
  p_namespace :: string
  p_name :: string
  p_field :: string \<comment> \<open>\<open>:field\<close> or \<open>:key\<close>\<close>
  p_query :: "string \<rightharpoonup> string"

definition query :: "Request \<Rightarrow> string \<Rightarrow> string" where
  "query c q = (case p_query c q of None \<Rightarrow> '''' | Some v \<Rightarrow> v)"

definition DefaultQuery :: "Request \<Rightarrow> string \<Rightarrow> string \<Rightarrow> string" where
  "DefaultQuery c q d = (case p_query c q of None \<Rightarrow> d | Some v \<Rightarrow> v)"

record AgentServiceInfo =
  info_Agent :: string
  info_Namespace :: string
  info_Port :: int
  info_Protocol :: string
  info_URL :: string

text \<open>The values of the key \<open>data\<close>, and the fields beside \<open>status\<close> where there is no such key.\<close>

datatype payload =
    PNone
  | PAgent Agent
  | PAgents "Agent list"
  | PServices "AgentServiceInfo list"
  | PHistory string int "LifecycleEvent list"
  | PEnv "EnvVar slice"
  | PEntries "string \<rightharpoonup> Entry"
  | PEntry Entry
  | PFlag string bool
  | PField string string
  | PFieldFlag string string bool
  | PText string \<comment> \<open>a body of type \<open>text/plain\<close>\<close>
  | PKeepalive string string int "string option" \<comment> \<open>\<open>status\<close>, \<open>phase\<close>, \<open>elapsed\<close>, \<open>svcUrl\<close>\<close>

record Response =
  resp_Code :: nat
  resp_Status :: string
  resp_Data :: payload
  resp_Message :: string

definition respondOK :: "payload \<Rightarrow> Response" where
  "respondOK d = \<lparr>resp_Code = 200, resp_Status = ''ok'', resp_Data = d, resp_Message = ''''\<rparr>"

definition respondCreated :: "payload \<Rightarrow> Response" where
  "respondCreated d = \<lparr>resp_Code = 201, resp_Status = ''created'', resp_Data = d, resp_Message = ''''\<rparr>"

definition respondError :: "nat \<Rightarrow> string \<Rightarrow> Response" where
  "respondError code msg = \<lparr>resp_Code = code, resp_Status = ''error'', resp_Data = PNone, resp_Message = msg\<rparr>"

text \<open>\<open>c.JSON(code, gin.H{"status": ..., ...})\<close>.\<close>

definition respondStatus :: "nat \<Rightarrow> string \<Rightarrow> payload \<Rightarrow> Response" where
  "respondStatus code status d = \<lparr>resp_Code = code, resp_Status = status, resp_Data = d, resp_Message = ''''\<rparr>"

lemma respond_simps [simp]:
  "resp_Code (respondOK d) = 200" "resp_Code (respondCreated d) = 201" "resp_Code (respondError code m) = code"
  "resp_Data (respondOK d) = d" "resp_Code (respondStatus code st d) = code"
  by (simp_all add: respondOK_def respondCreated_def respondError_def respondStatus_def)

lemma respondOK_inject [simp]: "respondOK d = respondOK d' \<longleftrightarrow> d = d'"
  by (simp add: respondOK_def)

definition nsName :: "('k, 'h, 'c) Server \<Rightarrow> Request \<Rightarrow> nn" where
  "nsName s c = (if p_namespace c = '''' then s_namespace s else p_namespace c, p_name c)"

text \<open>A duration rounded by \<open>Round(time.Millisecond)\<close>, halves away from zero.\<close>

definition round_ms :: "int \<Rightarrow> int" where
  "round_ms d = sgn d * ((\<bar>d\<bar> + Millisecond div 2) div Millisecond * Millisecond)"

section \<open>Events and history\<close>

text \<open>
  An event on the object and the same event for the history, each with a \<open>ts()\<close> of its own:
  \<open>s.recorder.Eventf(agent, ...)\<close> and \<open>s.appendHistory(ctx, namespace, name, ...)\<close>.
\<close>

definition record_event :: "Agent \<Rightarrow> string \<Rightarrow> string \<Rightarrow> ('k, 'h, 'c, unit) prog" where
  "record_event agent reason message = do {
     m \<leftarrow> stamped message; Eventf agent EventTypeNormal reason m }"

definition record_history ::
  "('k, 'h, 'c) Server \<Rightarrow> nn \<Rightarrow> string \<Rightarrow> string \<Rightarrow> ('k, 'h, 'c, unit) prog" where
  "record_history s n reason message = do {
     m \<leftarrow> stamped message; append_event (s_History s) (fst n) (snd n) EventTypeNormal reason m }"

definition publish ::
  "('k, 'h, 'c) Server \<Rightarrow> Agent \<Rightarrow> nn \<Rightarrow> string \<Rightarrow> string \<Rightarrow> ('k, 'h, 'c, unit) prog" where
  "publish s agent n reason message = do {
     record_event agent reason message; record_history s n reason message }"

text \<open>The three bytes of an em dash, which two of the messages contain.\<close>

definition em_dash :: string where
  "em_dash = [CHR 0xE2, CHR 0x80, CHR 0x94]"

lemma emits_publish [emits_intros]:
  "emits P (record_event a re m)" "emits P (record_history s n re m)" "emits P (publish s a n re m)"
  unfolding record_event_def record_history_def publish_def by (intro emits_intros)+

section \<open>Reading and patching the agent\<close>

text \<open>The opening of the handlers: 404 for a missing agent, 500 for any other error.\<close>

definition with_agent ::
  "('k, 'h, 'c) Server \<Rightarrow> nn \<Rightarrow> (Agent \<Rightarrow> ('k, 'h, 'c, Response) prog) \<Rightarrow> ('k, 'h, 'c, Response) prog" where
  "with_agent s n f = do {
     x \<leftarrow> Get_agent (s_Client s) n;
     case x of
       Inl e \<Rightarrow> ret (if IsNotFound e then respondError 404 ''agent not found'' else respondError 500 (err_msg e))
     | Inr agent \<Rightarrow> f agent }"

text \<open>
  \<open>patch := client.MergeFrom(agent.DeepCopy())\<close>, changes to \<open>agent\<close>, \<open>s.client.Patch(ctx, agent, patch)\<close>; after
  a success the object holds the server's answer.
\<close>

definition with_patch ::
  "('k, 'h, 'c) Server \<Rightarrow> Agent \<Rightarrow> Agent \<Rightarrow> (Agent \<Rightarrow> ('k, 'h, 'c, Response) prog) \<Rightarrow> ('k, 'h, 'c, Response) prog"
where
  "with_patch s base modified f = do {
     x \<leftarrow> Patch_agent (s_Client s) base modified;
     case x of Inl e \<Rightarrow> ret (respondError 500 (err_msg e)) | Inr agent \<Rightarrow> f agent }"

lemma emits_with_agent [emits_intros]:
  "P (GetAgent n) \<Longrightarrow> (\<And>a. emits P (f a)) \<Longrightarrow> emits P (with_agent s n f)"
  unfolding with_agent_def by (intro emits_intros) auto

lemma emits_with_patch [emits_intros]:
  "P (PatchAgent b m) \<Longrightarrow> (\<And>a. emits P (f a)) \<Longrightarrow> emits P (with_patch s b m f)"
  unfolding with_patch_def by (intro emits_intros) auto

text \<open>A time for an annotation: \<open>time.Now().UTC().Format(time.RFC3339)\<close>.\<close>

definition rfc3339_now :: "('k, 'h, 'c, string) prog" where
  "rfc3339_now = do { t \<leftarrow> Now; ret (format_rfc3339 t) }"

lemma emits_rfc3339_now [emits_intros]: "emits P rfc3339_now"
  unfolding rfc3339_now_def by (intro emits_intros)

section \<open>The activity middleware\<close>

text \<open>It runs before every handler of a route under \<open>/:name\<close>.\<close>

definition activityMiddleware ::
  "('k, 'h, 'c) Server \<Rightarrow> Request \<Rightarrow> ('k, 'h, 'c, 'a) prog \<Rightarrow> ('k, 'h, 'c, 'a) prog" where
  "activityMiddleware s c handler = do {
     (case s_idleWatcher s of
        None \<Rightarrow> ret ()
      | Some wt \<Rightarrow>
          let ns = (if p_namespace c = '''' then s_namespace s else p_namespace c) in
          if p_name c \<noteq> '''' then TouchActivity wt ns (p_name c) else ret ());
     handler }"

section \<open>A concrete server\<close>

text \<open>Over the executable API server, with the in-memory stores and the watcher of \<open>Idle_Watcher\<close>.\<close>

definition ref_server :: "(cluster, InMemoryHistory, InMemoryCache) Server" where
  "ref_server = \<lparr>s_Client = ref_kube, s_Cache = mem_store, s_History = Some mem_history,
     s_namespace = ''default'', s_idleWatcher = Some ref_watcher\<rparr>"

lemma ref_server_simps [simp]:
  "s_Client ref_server = ref_kube" "s_Cache ref_server = mem_store" "s_History ref_server = Some mem_history"
  "s_namespace ref_server = ''default''" "s_idleWatcher ref_server = Some ref_watcher"
  by (simp_all add: ref_server_def)

definition ref_request :: "string \<Rightarrow> string \<Rightarrow> Request" where
  "ref_request name field = \<lparr>p_namespace = '''', p_name = name, p_field = field, p_query = (\<lambda>_. None)\<rparr>"

lemma ref_request_simps [simp]:
  "nsName ref_server (ref_request n f) = (''default'', n)" "p_field (ref_request n f) = f"
  "p_name (ref_request n f) = n" "p_namespace (ref_request n f) = ''''" "query (ref_request n f) q = ''''"
  "DefaultQuery (ref_request n f) q d = d"
  by (simp_all add: ref_request_def nsName_def query_def DefaultQuery_def)

end
