(* ===== verification/Env_Vars.thy ===== *)
theory Env_Vars
  imports Agent_Types
begin

text \<open>
  \<open>mergeEnvVars\<close> of \<open>internal/rest/handlers.go\<close>, with its map from names to positions, and the filter of
  \<open>handleDeleteEnvKey\<close>. In a list of environment variables a later entry of a name overrides an
  earlier one, so what a list means is the last entry of every name.
\<close>

section \<open>The code\<close>

text \<open>\<open>for i, e := range result { idx[e.Name] = i }\<close>, from position \<open>i\<close> on.\<close>

fun index_names :: "nat \<Rightarrow> EnvVar list \<Rightarrow> (string \<rightharpoonup> nat) \<Rightarrow> (string \<rightharpoonup> nat)" where
  "index_names i [] idx = idx"
| "index_names i (e # es) idx = index_names (Suc i) es (idx(env_Name e \<mapsto> i))"

fun merge_into :: "(string \<rightharpoonup> nat) \<Rightarrow> EnvVar list \<Rightarrow> EnvVar list \<Rightarrow> EnvVar list" where
  "merge_into idx result [] = result"
| "merge_into idx result (nv # newVars) =
     (case idx (env_Name nv) of
        Some i \<Rightarrow> merge_into idx (result[i := nv]) newVars
      | None \<Rightarrow>
          let result' = result @ [nv]
          in merge_into (idx(env_Name nv \<mapsto> length result' - 1)) result' newVars)"

definition mergeEnvVars :: "EnvVar slice \<Rightarrow> EnvVar slice \<Rightarrow> EnvVar slice" where
  "mergeEnvVars existing newVars =
     (let result = elems existing
      in Some (merge_into (index_names 0 result Map.empty) result (elems newVars)))"

definition delete_env :: "string \<Rightarrow> EnvVar slice \<Rightarrow> EnvVar slice" where
  "delete_env key env = Some (filter (\<lambda>e. env_Name e \<noteq> key) (elems env))"

section \<open>What a list means\<close>

fun env_lookup :: "EnvVar list \<Rightarrow> string \<rightharpoonup> EnvVar" where
  "env_lookup [] = Map.empty"
| "env_lookup (e # es) = [env_Name e \<mapsto> e] ++ env_lookup es"

lemma env_lookup_append [simp]: "env_lookup (xs @ ys) = env_lookup xs ++ env_lookup ys"
  by (induction xs) simp_all

lemma env_lookup_None [simp]: "env_lookup es x = None \<longleftrightarrow> x \<notin> env_Name ` set es"
  by (induction es) (auto simp: map_add_def split: option.splits)

lemma lookup_filter:
  "env_lookup (filter (\<lambda>e. env_Name e \<noteq> key) es) = (env_lookup es)(key := None)"
proof (induction es)
  case (Cons e es)
  have "([env_Name e \<mapsto> e] ++ g)(key := None) =
      (if env_Name e = key then g(key := None) else [env_Name e \<mapsto> e] ++ g(key := None))" for g
    by (auto simp: fun_eq_iff map_add_def split: option.split)
  then show ?case by (simp add: Cons fun_upd_def)
qed (simp add: fun_eq_iff)

lemma map_add_idem [simp]: "(f ++ g) ++ g = f ++ g"
  by (auto simp: map_add_def fun_eq_iff split: option.split)

text \<open>\<open>idx\<close> gives every name in a list the position of its last occurrence.\<close>

definition is_last :: "nat \<Rightarrow> string list \<Rightarrow> string \<Rightarrow> bool" where
  "is_last i ns x \<longleftrightarrow> i < length ns \<and> ns ! i = x \<and> x \<notin> set (drop (Suc i) ns)"

definition indexed :: "(string \<rightharpoonup> nat) \<Rightarrow> string list \<Rightarrow> bool" where
  "indexed idx ns \<longleftrightarrow> dom idx = set ns \<and> (\<forall>x i. idx x = Some i \<longrightarrow> is_last i ns x)"

abbreviation names :: "EnvVar list \<Rightarrow> string list" where "names es \<equiv> map env_Name es"

lemma is_last_snoc: "is_last i ns y \<Longrightarrow> x \<noteq> y \<Longrightarrow> is_last i (ns @ [x]) y"
  by (auto simp: is_last_def nth_append)

lemma indexed_snoc: "indexed idx ns \<Longrightarrow> indexed (idx(x \<mapsto> length ns)) (ns @ [x])"
  by (auto simp: indexed_def is_last_snoc) (simp add: is_last_def)

lemma indexed_index_names:
  "indexed idx (names done) \<Longrightarrow> indexed (index_names (length done) es idx) (names (done @ es))"
proof (induction es arbitrary: idx "done")
  case (Cons e es)
  have "indexed (idx(env_Name e \<mapsto> length done)) (names (done @ [e]))"
    using indexed_snoc [OF Cons.prems, of "env_Name e"] by simp
  from Cons.IH [OF this] show ?case by (simp del: fun_upd_apply)
qed simp

lemma names_update: "is_last i (names es) (env_Name e) \<Longrightarrow> names (es[i := e]) = names es"
proof -
  assume l: "is_last i (names es) (env_Name e)"
  have "names (es[i := e]) = (names es)[i := names es ! i]"
    using l by (simp add: is_last_def map_update)
  then show ?thesis by (simp only: list_update_id)
qed

lemma lookup_update_last:
  "is_last i (names es) (env_Name e) \<Longrightarrow> env_lookup (es[i := e]) = (env_lookup es)(env_Name e \<mapsto> e)"
proof -
  assume l: "is_last i (names es) (env_Name e)"
  then have i: "i < length es" by (simp add: is_last_def)
  have "env_Name e \<notin> set (names (drop (Suc i) es))"
    using l by (simp add: is_last_def drop_map)
  then have later: "env_lookup (drop (Suc i) es) (env_Name e) = None" unfolding env_lookup_None by simp
  have "env_lookup es = env_lookup (take i es @ es ! i # drop (Suc i) es)"
    using i by (simp add: Cons_nth_drop_Suc)
  also have "\<dots> = env_lookup (take i es) ++ [env_Name e \<mapsto> es ! i] ++ env_lookup (drop (Suc i) es)"
    using l i by (simp add: is_last_def)
  finally have e: "env_lookup es = env_lookup (take i es) ++ [env_Name e \<mapsto> es ! i] ++ env_lookup (drop (Suc i) es)" .
  have u: "env_lookup (es[i := e]) = env_lookup (take i es) ++ [env_Name e \<mapsto> e] ++ env_lookup (drop (Suc i) es)"
    using i by (simp add: upd_conv_take_nth_drop)
  show ?thesis unfolding e u
    using later by (auto simp: map_add_def fun_eq_iff simp del: env_lookup_None split: option.split)
qed

lemma merge_into_lookup:
  "indexed idx (names es) \<Longrightarrow> env_lookup (merge_into idx es new) = env_lookup es ++ env_lookup new"
proof (induction new arbitrary: idx es)
  case (Cons nv new)
  show ?case
  proof (cases "idx (env_Name nv)")
    case None
    then show ?thesis
      using Cons.IH [of "idx(env_Name nv \<mapsto> length es)" "es @ [nv]"] indexed_snoc [OF Cons.prems, of "env_Name nv"]
      by (simp add: Let_def del: fun_upd_apply)
  next
    case (Some i)
    then have l: "is_last i (names es) (env_Name nv)" using Cons.prems by (simp add: indexed_def)
    have "indexed idx (names (es[i := nv]))" using Cons.prems by (simp add: names_update [OF l] del: map_update)
    from Cons.IH [OF this] show ?thesis by (simp add: Some lookup_update_last [OF l] del: fun_upd_apply)
  qed
qed simp

text \<open>The names, in order: the old ones, then the new ones at their first occurrence.\<close>

fun fresh_names :: "string list \<Rightarrow> string list \<Rightarrow> string list" where
  "fresh_names ns [] = ns"
| "fresh_names ns (x # xs) = fresh_names (if x \<in> set ns then ns else ns @ [x]) xs"

lemma merge_into_names:
  "indexed idx (names es) \<Longrightarrow> names (merge_into idx es new) = fresh_names (names es) (names new)"
proof (induction new arbitrary: idx es)
  case (Cons nv new)
  show ?case
  proof (cases "idx (env_Name nv)")
    case None
    then have "env_Name nv \<notin> set (names es)" using Cons.prems by (auto simp: indexed_def)
    then show ?thesis
      using None Cons.IH [of "idx(env_Name nv \<mapsto> length es)" "es @ [nv]"] indexed_snoc [OF Cons.prems, of "env_Name nv"]
      by (simp add: Let_def del: fun_upd_apply)
  next
    case (Some i)
    then have l: "is_last i (names es) (env_Name nv)" and m: "env_Name nv \<in> set (names es)"
      using Cons.prems by (auto simp: indexed_def)
    have "indexed idx (names (es[i := nv]))" using Cons.prems by (simp add: names_update [OF l] del: map_update)
    from Cons.IH [OF this] m show ?thesis by (simp add: Some names_update [OF l] del: map_update)
  qed
qed simp

lemma indexed_start: "indexed (index_names 0 es Map.empty) (names es)"
  using indexed_index_names [of Map.empty "[]" es] by (simp add: indexed_def)

lemma distinct_fresh_names: "distinct ns \<Longrightarrow> distinct (fresh_names ns xs)"
  by (induction ns xs rule: fresh_names.induct) auto

lemma set_fresh_names: "set (fresh_names ns xs) = set ns \<union> set xs"
  by (induction ns xs rule: fresh_names.induct) auto

lemma fresh_names_prefix: "\<exists>more. fresh_names ns xs = ns @ more"
  by (induction ns xs rule: fresh_names.induct) auto

lemma fresh_names_known: "set xs \<subseteq> set ns \<Longrightarrow> fresh_names ns xs = ns"
  by (induction ns xs rule: fresh_names.induct) auto

text \<open>
  An entry stays where it is if its name is not among the new ones or if it is not the last one of
  its name.
\<close>

lemma not_last_snoc: "\<not> is_last i ns y \<Longrightarrow> i < length ns \<Longrightarrow> \<not> is_last i (ns @ [x]) y"
  by (auto simp: is_last_def nth_append)

lemma merge_into_keeps:
  "indexed idx (names es) \<Longrightarrow> i < length es \<Longrightarrow>
   env_Name (es ! i) \<notin> set (names new) \<or> \<not> is_last i (names es) (env_Name (es ! i)) \<Longrightarrow>
   merge_into idx es new ! i = es ! i \<and> i < length (merge_into idx es new)"
proof (induction new arbitrary: idx es)
  case (Cons nv new)
  show ?case
  proof (cases "idx (env_Name nv)")
    case None
    have "indexed (idx(env_Name nv \<mapsto> length es)) (names (es @ [nv]))"
      using indexed_snoc [OF Cons.prems(1), of "env_Name nv"] by simp
    from Cons.IH [OF this] Cons.prems(2,3) None not_last_snoc [of i "names es" "env_Name (es ! i)" "env_Name nv"]
    show ?thesis by (auto simp: Let_def nth_append simp del: fun_upd_apply)
  next
    case (Some j)
    then have l: "is_last j (names es) (env_Name nv)" using Cons.prems by (simp add: indexed_def)
    then have "j \<noteq> i" using Cons.prems(2,3) by (auto simp: is_last_def)
    have "indexed idx (names (es[j := nv]))" using Cons.prems by (simp add: names_update [OF l] del: map_update)
    from Cons.IH [OF this] Cons.prems(2,3) \<open>j \<noteq> i\<close> show ?thesis
      by (auto simp: Some names_update [OF l] simp del: map_update)
  qed
qed simp

lemma lookup_last: "is_last i (names es) x \<Longrightarrow> env_lookup es x = Some (es ! i)"
proof -
  assume l: "is_last i (names es) x"
  then have i: "i < length es" by (simp add: is_last_def)
  have "x \<notin> set (names (drop (Suc i) es))" using l by (simp add: is_last_def drop_map)
  then have "env_lookup (drop (Suc i) es) x = None" unfolding env_lookup_None by simp
  moreover have "es = take i es @ es ! i # drop (Suc i) es" using i by (simp add: Cons_nth_drop_Suc)
  then have "env_lookup es = env_lookup (take i es) ++ [env_Name (es ! i) \<mapsto> es ! i] ++ env_lookup (drop (Suc i) es)"
    by (metis append_eq_append_conv2 env_lookup.simps(2) env_lookup_append map_add_assoc)
  ultimately show ?thesis using l i by (simp add: is_last_def map_add_def del: env_lookup_None)
qed

lemma merge_into_same:
  assumes idx: "indexed idx (names es)" and known: "set (names new) \<subseteq> set (names es)"
    and same: "env_lookup es ++ env_lookup new = env_lookup es"
  shows "merge_into idx es new = es"
proof -
  have names: "names (merge_into idx es new) = names es"
    by (simp only: merge_into_names [OF idx] fresh_names_known [OF known])
  then have len: "length (merge_into idx es new) = length es" by (metis length_map)
  show ?thesis
  proof (rule nth_equalityI [OF len])
    fix i assume "i < length (merge_into idx es new)"
    then have i: "i < length es" using len by simp
    show "merge_into idx es new ! i = es ! i"
    proof (cases "is_last i (names es) (env_Name (es ! i))")
      case True
      then have "env_lookup es (env_Name (es ! i)) = Some (es ! i)" by (rule lookup_last)
      moreover have "env_lookup (merge_into idx es new) (env_Name (es ! i)) = Some (merge_into idx es new ! i)"
        using True names by (intro lookup_last) simp
      ultimately show ?thesis by (simp add: merge_into_lookup [OF idx] same)
    next
      case False
      then show ?thesis using merge_into_keeps [OF idx i] by blast
    qed
  qed
qed

section \<open>Properties\<close>

text \<open>
  C34. Merging is an upsert: the merged list means the old one overridden by the new one; its names are the old
  ones in their old order followed by the new ones at their first occurrence, so that no
  duplicate arises, and an old entry whose name is not mentioned keeps its place and value.
\<close>

theorem merge_env_upserts:
  "env_lookup (elems (mergeEnvVars existing newVars)) = env_lookup (elems existing) ++ env_lookup (elems newVars) \<and>
   names (elems (mergeEnvVars existing newVars)) = fresh_names (names (elems existing)) (names (elems newVars)) \<and>
   (\<forall>i. i \<ge> length (elems existing) \<or> env_Name (elems existing ! i) \<in> set (names (elems newVars)) \<or>
      elems (mergeEnvVars existing newVars) ! i = elems existing ! i)"
  using merge_into_lookup [OF indexed_start, of "elems existing" "elems newVars"]
    merge_into_names [OF indexed_start, of "elems existing" "elems newVars"]
    merge_into_keeps [OF indexed_start, of _ "elems existing" "elems newVars"]
  by (simp add: mergeEnvVars_def Let_def not_le) (metis not_le)

text \<open>
  Merging the same variables twice is merging them once; deleting a name removes exactly the
  variables of this name; and deleting a name that was merged into a list without it gives the
  list back.
\<close>

lemma merge_env_idempotent_delete:
  "mergeEnvVars (mergeEnvVars existing newVars) newVars = mergeEnvVars existing newVars \<and>
   env_lookup (elems (delete_env key env)) = (env_lookup (elems env))(key := None) \<and>
   delete_env (env_Name nv) (mergeEnvVars env (Some [nv])) = delete_env (env_Name nv) env"
proof -
  let ?es = "elems existing" and ?new = "elems newVars"
  let ?m = "merge_into (index_names 0 ?es Map.empty) ?es ?new"
  have "merge_into (index_names 0 ?m Map.empty) ?m ?new = ?m"
    using set_fresh_names [of "names ?es" "names ?new"]
    by (intro merge_into_same indexed_start)
      (simp_all add: merge_into_lookup [OF indexed_start] merge_into_names [OF indexed_start] del: set_map)
  then have mm: "mergeEnvVars (mergeEnvVars existing newVars) newVars = mergeEnvVars existing newVars"
    by (simp add: mergeEnvVars_def Let_def)
  have lk: "env_lookup (elems (delete_env key env)) = (env_lookup (elems env))(key := None)"
    by (simp add: delete_env_def lookup_filter)
  have f: "filter (\<lambda>e. env_Name e \<noteq> env_Name nv) (es[i := nv]) = filter (\<lambda>e. env_Name e \<noteq> env_Name nv) es"
    if "is_last i (names es) (env_Name nv)" for i es
  proof -
    let ?P = "\<lambda>e. env_Name e \<noteq> env_Name nv"
    have i: "i < length es" "env_Name (es ! i) = env_Name nv" using that by (auto simp: is_last_def)
    have "filter ?P es = filter ?P (take i es @ es ! i # drop (Suc i) es)"
      using i(1) by (simp add: Cons_nth_drop_Suc)
    also have "\<dots> = filter ?P (es[i := nv])"
      using i(2) by (simp add: upd_conv_take_nth_drop [OF i(1)])
    finally show ?thesis by simp
  qed
  have del: "delete_env (env_Name nv) (mergeEnvVars env (Some [nv])) = delete_env (env_Name nv) env"
  proof (cases "index_names 0 (elems env) Map.empty (env_Name nv)")
    case (Some i)
    then have "is_last i (names (elems env)) (env_Name nv)"
      using indexed_start [of "elems env"] by (simp add: indexed_def)
    from f [OF this] show ?thesis by (simp add: delete_env_def mergeEnvVars_def Let_def Some)
  qed (simp add: delete_env_def mergeEnvVars_def Let_def)
  show ?thesis by (intro conjI mm lk del)
qed

end
