(* ===== verification/Rest_Agents.thy ===== *)
theory Rest_Agents
  imports Rest_Server Env_Vars
begin

text \<open>
  The handlers of \<open>internal/rest/handlers.go\<close> that deal with \<open>Agent\<close> objects: reading, creating,
  updating and deleting them, the lifecycle operations, and the environment variables. The 30-second
  timeout of \<open>apiCtx\<close> is one of the ways in which a call of the client can fail.
\<close>

section \<open>Reading\<close>

definition handleInfo :: "('k, 'h, 'c) Server \<Rightarrow> Request \<Rightarrow> ('k, 'h, 'c, Response) prog" where
  "handleInfo s c = ret (respondOK (PField ''namespace'' (s_namespace s)))"

definition handleHealthz :: "('k, 'h, 'c) Server \<Rightarrow> Request \<Rightarrow> ('k, 'h, 'c, Response) prog" where
  "handleHealthz s c = ret (respondStatus 200 ''ok'' PNone)"

definition handleReadyz :: "('k, 'h, 'c) Server \<Rightarrow> Request \<Rightarrow> ('k, 'h, 'c, Response) prog" where
  "handleReadyz s c = do {
     x \<leftarrow> List_agents (s_Client s) None (Some 1);
     ret (case x of
            Inl e \<Rightarrow> respondError 503 (''k8s api not reachable: '' @ err_msg e)
          | Inr _ \<Rightarrow> respondStatus 200 ''ready'' PNone) }"

text \<open>The address of a service in the cluster's DNS.\<close>

definition service_url :: "string \<Rightarrow> string \<Rightarrow> int \<Rightarrow> string" where
  "service_url name namespace port =
     ''http://'' @ name @ ''.'' @ namespace @ ''.svc.cluster.local:'' @ int_str port"

definition service_info :: "string \<Rightarrow> Agent \<Rightarrow> AgentServiceInfo" where
  "service_info namespace a =
     \<lparr>info_Agent = agent_Name a, info_Namespace = namespace, info_Port = spec_ServicePort (agent_Spec a),
      info_Protocol = (let proto = spec_ServiceProtocol (agent_Spec a) in if proto = '''' then ''TCP'' else proto),
      info_URL = service_url (agent_Name a) namespace (spec_ServicePort (agent_Spec a))\<rparr>"

definition handleListAgentServices :: "('k, 'h, 'c) Server \<Rightarrow> Request \<Rightarrow> ('k, 'h, 'c, Response) prog" where
  "handleListAgentServices s c = do {
     let namespace = fst (nsName s c);
     x \<leftarrow> List_agents (s_Client s) (Some namespace) None;
     ret (case x of
            Inl e \<Rightarrow> respondError 500 (err_msg e)
          | Inr items \<Rightarrow> respondOK (PServices
              (map (service_info namespace) (filter (\<lambda>a. \<not> spec_ServicePort (agent_Spec a) \<le> 0) items)))) }"

definition handleListAgents :: "('k, 'h, 'c) Server \<Rightarrow> Request \<Rightarrow> ('k, 'h, 'c, Response) prog" where
  "handleListAgents s c = do {
     x \<leftarrow> List_agents (s_Client s) (Some (fst (nsName s c))) None;
     ret (case x of Inl e \<Rightarrow> respondError 500 (err_msg e) | Inr items \<Rightarrow> respondOK (PAgents items)) }"

definition handleGetAgent :: "('k, 'h, 'c) Server \<Rightarrow> Request \<Rightarrow> ('k, 'h, 'c, Response) prog" where
  "handleGetAgent s c = with_agent s (nsName s c) (\<lambda>agent. ret (respondOK (PAgent agent)))"

definition handleGetAgentHistory :: "('k, 'h, 'c) Server \<Rightarrow> Request \<Rightarrow> ('k, 'h, 'c, Response) prog" where
  "handleGetAgentHistory s c = (let (namespace, name) = nsName s c in
     with_agent s (namespace, name) (\<lambda>agent. do {
       history \<leftarrow> (case s_History s of
           None \<Rightarrow> ret []
         | Some H \<Rightarrow> do { t \<leftarrow> Now; on_hist (hs_List H namespace name t) });
       ret (respondOK (PHistory name (int (length history)) history)) }))"

definition handleGetEnv :: "('k, 'h, 'c) Server \<Rightarrow> Request \<Rightarrow> ('k, 'h, 'c, Response) prog" where
  "handleGetEnv s c = with_agent s (nsName s c) (\<lambda>agent. ret (respondOK (PEnv (spec_Env (agent_Spec agent)))))"

section \<open>Creating and updating\<close>

text \<open>
  The bodies, after \<open>ShouldBindJSON\<close>. A field of a Kubernetes type that is absent has its zero
  value, a slice or map that is absent is nil.
\<close>

record CreateAgentRequest =
  req_Name :: string
  req_Image :: string
  req_ImagePullPolicy :: string
  req_Env :: "EnvVar slice"
  req_EnvFrom :: "k8s_value slice"
  req_Resources :: k8s_value
  req_Command :: "string slice"
  req_Args :: "string slice"
  req_ServiceAccount :: string
  req_RestartPolicy :: string
  req_PodLabels :: gomap
  req_PodAnnotations :: gomap
  req_Labels :: gomap
  req_Annotations :: gomap
  req_SelfHealingDisabled :: bool
  req_Paused :: bool
  req_ServicePort :: int
  req_ServiceProtocol :: string
  req_IdleTimeout :: int

record UpdateAgentRequest =
  upd_Image :: string
  upd_ImagePullPolicy :: string
  upd_Env :: "EnvVar slice"
  upd_EnvFrom :: "k8s_value slice"
  upd_Resources :: k8s_value
  upd_Command :: "string slice"
  upd_Args :: "string slice"
  upd_ServiceAccount :: string
  upd_RestartPolicy :: string
  upd_PodLabels :: gomap
  upd_PodAnnotations :: gomap
  upd_IdleTimeout :: "int option"

definition requested_agent :: "string \<Rightarrow> CreateAgentRequest \<Rightarrow> Agent" where
  "requested_agent namespace req =
     \<lparr>agent_Meta = empty_meta\<lparr>meta_Name := req_Name req, meta_Namespace := namespace,
        meta_Labels := req_Labels req, meta_Annotations := req_Annotations req\<rparr>,
      agent_Spec = empty_spec
        \<lparr>spec_Image := req_Image req, spec_ImagePullPolicy := req_ImagePullPolicy req, spec_Env := req_Env req,
         spec_EnvFrom := req_EnvFrom req, spec_Resources := req_Resources req, spec_Command := req_Command req,
         spec_Args := req_Args req, spec_ServiceAccountName := req_ServiceAccount req,
         spec_RestartPolicy := req_RestartPolicy req, spec_PodLabels := req_PodLabels req,
         spec_PodAnnotations := req_PodAnnotations req,
         spec_SelfHealingDisabled := req_SelfHealingDisabled req, spec_Paused := req_Paused req,
         spec_ServicePort := req_ServicePort req, spec_ServiceProtocol := req_ServiceProtocol req,
         spec_IdleTimeout := req_IdleTimeout req\<rparr>,
      agent_Status = empty_status\<rparr>"

definition handleCreateAgent ::
  "('k, 'h, 'c) Server \<Rightarrow> Request \<Rightarrow> string + CreateAgentRequest \<Rightarrow> ('k, 'h, 'c, Response) prog" where
  "handleCreateAgent s c body = (case body of
     Inl err \<Rightarrow> ret (respondError 400 (''invalid body: '' @ err))
   | Inr req \<Rightarrow> do {
       x \<leftarrow> Create_agent (s_Client s) (requested_agent (fst (nsName s c)) req);
       case x of
         Inl e \<Rightarrow> ret (if IsAlreadyExists e then respondError 409 ''agent already exists'' else respondError 500 (err_msg e))
       | Inr agent \<Rightarrow> do {
           publish s agent (agent_Namespace agent, agent_Name agent) ''Created''
             (''Agent created via REST API (image: '' @ spec_Image (agent_Spec agent) @ '')'');
           ret (respondCreated (PAgent agent)) } })"

definition apply_update :: "UpdateAgentRequest \<Rightarrow> AgentSpec \<Rightarrow> AgentSpec" where
  "apply_update req sp = sp
     \<lparr>spec_Image := if upd_Image req \<noteq> '''' then upd_Image req else spec_Image sp,
      spec_ImagePullPolicy := if upd_ImagePullPolicy req \<noteq> '''' then upd_ImagePullPolicy req else spec_ImagePullPolicy sp,
      spec_Env := if upd_Env req \<noteq> None then upd_Env req else spec_Env sp,
      spec_EnvFrom := if upd_EnvFrom req \<noteq> None then upd_EnvFrom req else spec_EnvFrom sp,
      spec_Command := if upd_Command req \<noteq> None then upd_Command req else spec_Command sp,
      spec_Args := if upd_Args req \<noteq> None then upd_Args req else spec_Args sp,
      spec_ServiceAccountName := if upd_ServiceAccount req \<noteq> '''' then upd_ServiceAccount req else spec_ServiceAccountName sp,
      spec_RestartPolicy := if upd_RestartPolicy req \<noteq> '''' then upd_RestartPolicy req else spec_RestartPolicy sp,
      spec_PodLabels := if upd_PodLabels req \<noteq> None then upd_PodLabels req else spec_PodLabels sp,
      spec_PodAnnotations := if upd_PodAnnotations req \<noteq> None then upd_PodAnnotations req else spec_PodAnnotations sp,
      spec_IdleTimeout := (case upd_IdleTimeout req of Some n \<Rightarrow> n | None \<Rightarrow> spec_IdleTimeout sp)\<rparr>"

definition handleUpdateAgent ::
  "('k, 'h, 'c) Server \<Rightarrow> Request \<Rightarrow> string + UpdateAgentRequest \<Rightarrow> ('k, 'h, 'c, Response) prog" where
  "handleUpdateAgent s c body = (case body of
     Inl err \<Rightarrow> ret (respondError 400 (''invalid body: '' @ err))
   | Inr req \<Rightarrow> with_agent s (nsName s c) (\<lambda>agent. do {
       x \<leftarrow> Update_agent (s_Client s) (update_spec (apply_update req) agent);
       case x of
         Inl e \<Rightarrow> ret (respondError 500 (err_msg e))
       | Inr agent \<Rightarrow> do {
           publish s agent (nsName s c) ''SpecUpdated'' ''Agent spec updated via REST API'';
           ret (respondOK (PAgent agent)) } }))"

section \<open>Deleting\<close>

abbreviation deleted_message :: string where
  "deleted_message \<equiv> ''Agent permanently deleted via REST API (self-healing was disabled before deletion)''"

text \<open>The part after self-healing is off.\<close>

definition delete_now ::
  "('k, 'h, 'c) Server \<Rightarrow> nn \<Rightarrow> Agent \<Rightarrow> ('k, 'h, 'c, Response) prog" where
  "delete_now s n agent = do {
     record_history s n ''Deleted'' deleted_message;
     x \<leftarrow> Delete_agent (s_Client s) agent;
     case x of
       Inl e \<Rightarrow> ret (respondError 500 (err_msg e))
     | Inr _ \<Rightarrow> do {
         record_event agent ''Deleted'' deleted_message;
         t \<leftarrow> Now;
         on_cach (\<lambda>c. ((), cs_ClearAgent (s_Cache s) (fst n) (snd n) t c));
         ret (respondStatus 200 ''deleted'' (PField ''name'' (snd n))) } }"

definition handleDeleteAgent :: "('k, 'h, 'c) Server \<Rightarrow> Request \<Rightarrow> ('k, 'h, 'c, Response) prog" where
  "handleDeleteAgent s c = with_agent s (nsName s c) (\<lambda>agent.
     if \<not> spec_SelfHealingDisabled (agent_Spec agent) then do {
       x \<leftarrow> Patch_agent (s_Client s) agent (update_spec (\<lambda>sp. sp\<lparr>spec_SelfHealingDisabled := True\<rparr>) agent);
       case x of
         Inl e \<Rightarrow> ret (respondError 500 (''disabling self-healing: '' @ err_msg e))
       | Inr agent \<Rightarrow> delete_now s (nsName s c) agent }
     else delete_now s (nsName s c) agent)"

section \<open>Lifecycle\<close>

abbreviation restartAtKey :: string where "restartAtKey \<equiv> ''orchestrator.dev/restart-at''"
abbreviation startedAtKey :: string where "startedAtKey \<equiv> ''orchestrator.dev/started-at''"
abbreviation wakeReasonKey :: string where "wakeReasonKey \<equiv> ''orchestrator.dev/wake-reason''"

definition handleRestartAgent :: "('k, 'h, 'c) Server \<Rightarrow> Request \<Rightarrow> ('k, 'h, 'c, Response) prog" where
  "handleRestartAgent s c = with_agent s (nsName s c) (\<lambda>agent. do {
     now \<leftarrow> rfc3339_now;
     with_patch s agent (annotate restartAtKey now agent) (\<lambda>agent. do {
       publish s agent (nsName s c) ''Restarted'' ''Agent pod recreation triggered via REST API'';
       ret (respondOK (PFlag ''restarted'' True)) }) })"

definition handleStopAgent :: "('k, 'h, 'c) Server \<Rightarrow> Request \<Rightarrow> ('k, 'h, 'c, Response) prog" where
  "handleStopAgent s c = with_agent s (nsName s c) (\<lambda>agent. do {
     now \<leftarrow> rfc3339_now;
     with_patch s agent (annotate stoppedAtKey now (update_spec (\<lambda>sp. sp\<lparr>spec_Paused := True\<rparr>) agent)) (\<lambda>agent. do {
       publish s agent (nsName s c) ''Stopped''
         ''Agent paused via REST API (spec.paused=true, pod will be deleted)'';
       ret (respondOK (PFlag ''stopped'' True)) }) })"

definition handleStartAgent :: "('k, 'h, 'c) Server \<Rightarrow> Request \<Rightarrow> ('k, 'h, 'c, Response) prog" where
  "handleStartAgent s c = with_agent s (nsName s c) (\<lambda>agent. do {
     now1 \<leftarrow> rfc3339_now;
     now2 \<leftarrow> rfc3339_now;
     with_patch s agent
       (annotate restartAtKey now2 (annotate startedAtKey now1 (update_spec (\<lambda>sp. sp\<lparr>spec_Paused := False\<rparr>) agent)))
       (\<lambda>agent. do {
         publish s agent (nsName s c) ''Started''
           ''Agent resumed via REST API (spec.paused=false, pod recreation triggered)'';
         ret (respondOK (PFlag ''started'' True)) }) })"

definition handleDisableSelfHealing :: "('k, 'h, 'c) Server \<Rightarrow> Request \<Rightarrow> ('k, 'h, 'c, Response) prog" where
  "handleDisableSelfHealing s c = with_agent s (nsName s c) (\<lambda>agent.
     with_patch s agent (update_spec (\<lambda>sp. sp\<lparr>spec_SelfHealingDisabled := True\<rparr>) agent) (\<lambda>agent. do {
       publish s agent (nsName s c) ''SelfHealingDisabled''
         (''Self-healing disabled via REST API '' @ em_dash @ '' agent will NOT be recreated on external deletion'');
       ret (respondOK (PFlag ''selfHealingDisabled'' True)) }))"

definition handleEnableSelfHealing :: "('k, 'h, 'c) Server \<Rightarrow> Request \<Rightarrow> ('k, 'h, 'c, Response) prog" where
  "handleEnableSelfHealing s c = with_agent s (nsName s c) (\<lambda>agent.
     with_patch s agent (update_spec (\<lambda>sp. sp\<lparr>spec_SelfHealingDisabled := False\<rparr>) agent) (\<lambda>agent. do {
       publish s agent (nsName s c) ''SelfHealingEnabled''
         (''Self-healing enabled via REST API '' @ em_dash @ '' agent will be recreated automatically on external deletion'');
       ret (respondOK (PFlag ''selfHealingDisabled'' False)) }))"

section \<open>Environment variables\<close>

text \<open>
  \<open>fmt.Sprintf\<close> of a \<open>[]string\<close> with \<open>%v\<close>, and of a string with \<open>%q\<close>. Of the bytes of a multi-byte
  character \<open>%q\<close> escapes those of characters that do not print; here they stay as they are.
\<close>

definition show_list :: "string list \<Rightarrow> string" where
  "show_list xs = ''['' @ concat (case xs of [] \<Rightarrow> [] | x # xs \<Rightarrow> x # map (\<lambda>y. '' '' @ y) xs) @ '']''"

definition hex_digit :: "nat \<Rightarrow> char" where
  "hex_digit n = (''0123456789abcdef'' ! n)"

definition quote_char :: "char \<Rightarrow> string" where
  "quote_char c = (let n = of_char c :: nat in
     if c = CHR 0x22 \<or> c = CHR 0x5C then [CHR 0x5C, c]
     else if n = 7 then [CHR 0x5C, CHR ''a''] else if n = 8 then [CHR 0x5C, CHR ''b'']
     else if n = 9 then [CHR 0x5C, CHR ''t''] else if n = 10 then [CHR 0x5C, CHR ''n'']
     else if n = 11 then [CHR 0x5C, CHR ''v''] else if n = 12 then [CHR 0x5C, CHR ''f'']
     else if n = 13 then [CHR 0x5C, CHR ''r'']
     else if n < 32 \<or> n = 127 then [CHR 0x5C, CHR ''x'', hex_digit (n div 16), hex_digit (n mod 16)]
     else [c])"

definition quote :: "string \<Rightarrow> string" where
  "quote s = [CHR 0x22] @ concat (map quote_char s) @ [CHR 0x22]"

text \<open>Both request types of the replacing and the merging handler hold just \<open>env\<close>.\<close>

definition set_env :: "EnvVar slice \<Rightarrow> Agent \<Rightarrow> Agent" where
  "set_env env = update_spec (\<lambda>sp. sp\<lparr>spec_Env := env\<rparr>)"

definition handleSetEnv ::
  "('k, 'h, 'c) Server \<Rightarrow> Request \<Rightarrow> string + EnvVar slice \<Rightarrow> ('k, 'h, 'c, Response) prog" where
  "handleSetEnv s c body = (case body of
     Inl err \<Rightarrow> ret (respondError 400 (''invalid body: '' @ err))
   | Inr env \<Rightarrow> with_agent s (nsName s c) (\<lambda>agent.
       with_patch s agent (set_env env agent) (\<lambda>agent. do {
         publish s agent (nsName s c) ''EnvReplaced''
           (''Env vars replaced via REST API ('' @ int_str (int (length (elems env))) @ '' vars, pod recreation triggered)'');
         ret (respondOK (PEnv (spec_Env (agent_Spec agent)))) })))"

definition handleMergeEnv ::
  "('k, 'h, 'c) Server \<Rightarrow> Request \<Rightarrow> string + EnvVar slice \<Rightarrow> ('k, 'h, 'c, Response) prog" where
  "handleMergeEnv s c body = (case body of
     Inl err \<Rightarrow> ret (respondError 400 (''invalid body: '' @ err))
   | Inr env \<Rightarrow> with_agent s (nsName s c) (\<lambda>agent.
       let merged = mergeEnvVars (spec_Env (agent_Spec agent)) env in
       with_patch s agent (set_env merged agent) (\<lambda>agent. do {
         publish s agent (nsName s c) ''EnvMerged''
           (''Env vars merged via REST API (upserted: '' @ show_list (map env_Name (elems env)) @ '', total: ''
            @ int_str (int (length (elems merged))) @ '', pod recreation triggered)'');
         ret (respondOK (PEnv (spec_Env (agent_Spec agent)))) })))"

definition handleDeleteEnvKey :: "('k, 'h, 'c) Server \<Rightarrow> Request \<Rightarrow> ('k, 'h, 'c, Response) prog" where
  "handleDeleteEnvKey s c = with_agent s (nsName s c) (\<lambda>agent.
     with_patch s agent (set_env (delete_env (p_field c) (spec_Env (agent_Spec agent))) agent) (\<lambda>agent. do {
       publish s agent (nsName s c) ''EnvDeleted''
         (''Env var '' @ quote (p_field c) @ '' removed via REST API (pod recreation triggered)'');
       ret (respondOK (PEnv (spec_Env (agent_Spec agent)))) }))"

end
