(* ===== verification/Reconcile_Convergence.thy ===== *)
theory Reconcile_Convergence
  imports Controller_Pods
begin

text \<open>
  The reconciler against a server that answers and that nobody else writes to: \<open>reconciler_env\<close>
  extends \<open>kube_api\<close> with the documented effect of the \<open>controllerutil\<close> helpers. What one
  reconciliation does to the cluster is proved for each branch, and from it that the loop converges.
\<close>

locale reconciler_env = kube_api C agents pods services
  for C :: "'k Client" and agents pods services +
  fixes r :: "('k, 'h) AgentReconciler"
  assumes client: "r_Client r = C"
    and contains: "r_ContainsFinalizer r a f \<longleftrightarrow> f \<in> set (meta_Finalizers (agent_Meta a))"
    and own_pod: "\<exists>u. r_OwnPod r a p = Inr (p\<lparr>pod_Meta := (pod_Meta p)\<lparr>meta_Owner := u\<rparr>\<rparr>)"

text \<open>The agent's pods that are not terminating, and the conditions under which it is looked after.\<close>

definition live_pods :: "Pod set \<Rightarrow> Agent \<Rightarrow> Pod set" where
  "live_pods ps a = {p \<in> ps. meta_Namespace (pod_Meta p) = agent_Namespace a \<and>
     matches (pod_selector a) (pod_Labels p) \<and> pod_live p}"

definition tended :: "Agent \<Rightarrow> bool" where
  "tended a \<longleftrightarrow> IsZero (meta_DeletionTimestamp (agent_Meta a)) \<and>
     agentFinalizer \<in> set (meta_Finalizers (agent_Meta a)) \<and> agent_Name a \<noteq> ''''"

text \<open>Neither the labels nor the generation annotation of the pod are overridden.\<close>

definition plain_pod :: "Agent \<Rightarrow> bool" where
  "plain_pod a \<longleftrightarrow> entries (spec_PodLabels (agent_Spec a)) podOwnerLabel = None \<and>
     entries (spec_PodLabels (agent_Spec a)) managedByLabel = None \<and>
     entries (spec_PodAnnotations (agent_Spec a)) generationKey = None"

text \<open>The same agent up to its status.\<close>

definition same_spec :: "Agent \<Rightarrow> Agent \<Rightarrow> bool" where
  "same_spec a a' \<longleftrightarrow> agent_Meta a' = agent_Meta a \<and> agent_Spec a' = agent_Spec a"

lemma same_spec_refl [simp]: "same_spec a a" by (simp add: same_spec_def)
lemma same_spec_trans: "same_spec a b \<Longrightarrow> same_spec b c \<Longrightarrow> same_spec a c" by (simp add: same_spec_def)

lemma same_spec_cong:
  "same_spec a a' \<Longrightarrow> live_pods ps a' = live_pods ps a" "same_spec a a' \<Longrightarrow> tended a' = tended a"
  "same_spec a a' \<Longrightarrow> plain_pod a' = plain_pod a" "same_spec a a' \<Longrightarrow> specChanged a' p = specChanged a p"
  "same_spec a a' \<Longrightarrow> agent_key a' = agent_key a" "same_spec a a' \<Longrightarrow> buildPod a' = buildPod a"
  by (simp_all add: same_spec_def live_pods_def pod_selector_def tended_def plain_pod_def specChanged_def
      agent_key_def buildPod_def)

text \<open>Either a pod that was there and is up to date, or one with the container that the spec asks for.\<close>

definition kept_or_built :: "Pod set \<Rightarrow> Agent \<Rightarrow> Pod \<Rightarrow> bool" where
  "kept_or_built ps a p \<longleftrightarrow> p \<in> live_pods ps a \<and> \<not> specChanged a p \<or> pod_Containers p = pod_Containers (buildPod a)"

lemma buildPod_simps [simp]:
  "meta_Name (pod_Meta (buildPod a)) = ''''"
  "meta_GenerateName (pod_Meta (buildPod a)) = agent_Name a @ ''-''"
  "meta_DeletionTimestamp (pod_Meta (buildPod a)) = None"
  "meta_Namespace (pod_Meta (buildPod a)) = agent_Namespace a"
  by (simp_all add: buildPod_def Let_def empty_meta_def)

lemma plain_matches: "plain_pod a \<Longrightarrow> matches (pod_selector a) (pod_Labels (buildPod a))"
  by (auto simp: matches_def pod_selector_def buildPod_def Let_def map_add_def plain_pod_def)

lemma plain_current:
  "plain_pod a \<Longrightarrow> pod_Annotations p = pod_Annotations (buildPod a) \<Longrightarrow> \<not> specChanged a p"
  by (auto simp: specChanged_def index_def buildPod_def Let_def map_add_def plain_pod_def)

text \<open>A silent program leaves the cluster alone.\<close>

lemma kube_announce [simp]: "kube (snd (run_state (announce r a ty re m) w)) = kube w"
  by (simp add: announce_def stamped_def timestamp_def Eventf_def appendHistory_def append_event_def
      monad_simps split: option.split)

lemma kube_then_ret [simp]: "kube (snd (case x of (a, s) \<Rightarrow> (c, s))) = kube (snd x)"
  by (simp split: prod.split)

context reconciler_env
begin

lemma run_announce: "\<exists>w'. run_state (announce r a ty re m) w = ((), w') \<and> kube w' = kube w"
  using kube_announce [of r a ty re m w] by (cases "run_state (announce r a ty re m) w") auto

lemma kube_appendHistory: "\<exists>w'. run_state (appendHistory r a ty re m) w = ((), w') \<and> kube w' = kube w"
  by (simp add: appendHistory_def append_event_def monad_simps split: option.split)

lemma run_stamped: "\<exists>s w'. run_state (stamped m) w = (s, w') \<and> kube w' = kube w"
  by (simp add: stamped_def timestamp_def monad_simps)

lemma run_list:
  "\<exists>ps. list_pods C (agent_Namespace a) (pod_selector a) k = (Inr ps, k) \<and>
     find pod_live ps \<in> (if live_pods (pods k) a = {} then {None} else Some ` live_pods (pods k) a)"
proof -
  obtain ps where ps: "list_pods C (agent_Namespace a) (pod_selector a) k = (Inr ps, k)"
    "set ps = {p \<in> pods k. meta_Namespace (pod_Meta p) = agent_Namespace a \<and> matches (pod_selector a) (pod_Labels p)}"
    using list_pods_matching by blast
  then have live: "live_pods (pods k) a = {p \<in> set ps. pod_live p}"
    by (auto simp: live_pods_def)
  have "find pod_live ps \<in> (if live_pods (pods k) a = {} then {None} else Some ` live_pods (pods k) a)"
  proof (cases "find pod_live ps")
    case None
    then show ?thesis using live by (auto simp: find_None_iff)
  next
    case (Some p)
    then have "p \<in> live_pods (pods k) a" using live by (auto simp: find_Some_iff)
    then show ?thesis using Some by auto
  qed
  with ps show ?thesis by blast
qed

lemma run_tended:
  assumes "agents (kube w) n = Some a" and "tended a"
  shows "\<exists>u found. kube u = kube w \<and> run_state (Reconcile r n) w = run_state (reconcile_found r a found) u \<and>
    calls u = calls w @ [(GetAgent n, Done), (ListPods (agent_Namespace a) (pod_selector a), Done)] \<and>
    found \<in> (if live_pods (pods (kube w)) a = {} then {None} else Some ` live_pods (pods (kube w)) a)"
proof -
  let ?w = "recorded (GetAgent n) (Inr a :: kerr + Agent) (kube w) w"
  obtain ps where ps: "list_pods C (agent_Namespace a) (pod_selector a) (kube w) = (Inr ps, kube w)"
    "find pod_live ps \<in> (if live_pods (pods (kube w)) a = {} then {None} else Some ` live_pods (pods (kube w)) a)"
    using run_list by blast
  let ?u = "recorded (ListPods (agent_Namespace a) (pod_selector a)) (Inr ps :: kerr + Pod list) (kube w) ?w"
  have "run_state (Reconcile r n) w = run_state (reconcile_agent r a) ?w"
    using get_agent_found [OF assms(1)] by (intro run_Reconcile) (simp add: client)
  moreover have "run_state (reconcile_agent r a) ?w = run_state (reconcile_found r a (find pod_live ps)) ?u"
    using assms(2) ps(1) run_findAgentPod [of r a ?w "Inr ps" "kube w"]
    by (simp add: reconcile_agent_def tended_def contains client)
  ultimately show ?thesis using ps(2) by (intro exI [of _ ?u] exI) auto
qed

lemma run_updateStatus:
  assumes "agents (kube w) (agent_key a) = Some a"
  shows "\<exists>a' w'. run_state (updateStatus r a phase name msg) w = ((a', None), w') \<and> same_spec a a' \<and>
    status_Phase (agent_Status a') = phase \<and> status_PodName (agent_Status a') = name \<and>
    agents (kube w') = (agents (kube w))(agent_key a \<mapsto> a') \<and> pods (kube w') = pods (kube w)"
proof -
  let ?m = "update_status (\<lambda>s. s\<lparr>status_Phase := phase, status_PodName := name, status_Message := msg,
     status_ObservedGeneration := agent_Generation a, status_LastUpdated := Some (clock w 0)\<rparr>) a"
  have "agent_key ?m = agent_key a" by (simp add: agent_key_def)
  then obtain k' where "patch_agent_status C a ?m (kube w) = (Inr (patched_status a ?m a), k')"
    "agents k' = (agents (kube w))(agent_key a \<mapsto> patched_status a ?m a)" "pods k' = pods (kube w)"
    using patch_status_there [of "kube w" ?m a a] assms by auto
  then show ?thesis
    by (simp add: updateStatus_def patch_status_of_def monad_simps client same_spec_def)
qed

lemma run_deletePod:
  assumes "p \<in> live_pods (pods (kube w)) a" and "live_pods (pods (kube w)) a \<subseteq> {p}"
  shows "\<exists>w'. run_state (delete_pod_if_there r p) w = (None, w') \<and> live_pods (pods (kube w')) a = {} \<and>
    agents (kube w') = agents (kube w)"
proof -
  have "p \<in> pods (kube w)" using assms(1) by (simp add: live_pods_def)
  then obtain k' rest where k': "delete_pod C p (kube w) = (Inr (), k')" "pods k' = pods (kube w) - {p} \<union> rest"
    "\<forall>q \<in> rest. \<not> IsZero (meta_DeletionTimestamp (pod_Meta q))" "agents k' = agents (kube w)"
    using delete_pod_there by blast
  then have "live_pods (pods k') a = {}" using assms(2) by (auto simp: live_pods_def)
  with k' show ?thesis by (simp add: delete_pod_if_there_def monad_simps client)
qed

end

section \<open>What one reconciliation does to the cluster\<close>

context reconciler_env
begin

lemma pod_list_single:
  "ps \<subseteq> {p} \<Longrightarrow> found \<in> (if ps = {} then {None} else Some ` ps) \<Longrightarrow>
   (found = None \<and> ps = {}) \<or> (found = Some p \<and> ps = {p})"
  by (auto split: if_splits)

lemma step_missing:
  assumes a: "agents (kube w) n = Some a" and t: "tended a" and "\<not> spec_Paused (agent_Spec a)"
    and plain: "plain_pod a" and none: "live_pods (pods (kube w)) a = {}"
  shows "\<exists>p. live_pods (pods (kube (snd (run_state (Reconcile r n) w)))) a = {p} \<and> \<not> specChanged a p \<and>
    pod_Containers p = pod_Containers (buildPod a) \<and>
    agents (kube (snd (run_state (Reconcile r n) w))) = agents (kube w)"
proof -
  obtain u where u: "kube u = kube w" "run_state (Reconcile r n) w = run_state (reconcile_missing r a) u"
    using run_tended [OF a t] none assms(3) by (auto simp: reconcile_found_def)
  obtain x where own: "r_OwnPod r a (buildPod a) = Inr (buildPod a\<lparr>pod_Meta := (pod_Meta (buildPod a))\<lparr>meta_Owner := x\<rparr>\<rparr>)"
    using own_pod by blast
  let ?p = "buildPod a\<lparr>pod_Meta := (pod_Meta (buildPod a))\<lparr>meta_Owner := x\<rparr>\<rparr>"
  obtain p' k' where k': "create_pod C ?p (kube w) = (Inr p', k')" "pods k' = insert p' (pods (kube w))"
    "meta_Namespace (pod_Meta p') = agent_Namespace a" "pod_Labels p' = pod_Labels (buildPod a)"
    "pod_Annotations p' = pod_Annotations (buildPod a)" "pod_live p'" "agents k' = agents (kube w)"
    "pod_Containers p' = pod_Containers (buildPod a)"
    using create_pod_fresh [of ?p "kube w"] t by (auto simp: tended_def)
  have "live_pods (pods k') a = {p'}"
    using k' none plain_matches [OF plain] by (auto simp: live_pods_def)
  moreover have "kube (snd (run_state (reconcile_missing r a) u)) = k'"
    using k'(1) u(1)
    by (simp add: reconcile_missing_def report_creation_def createPod_def own client monad_simps)
  ultimately show ?thesis using u(2) k' plain_current [OF plain] by auto
qed

lemma step_drift:
  assumes a: "agents (kube w) n = Some a" and t: "tended a" and "\<not> spec_Paused (agent_Spec a)"
    and one: "live_pods (pods (kube w)) a = {p}" and changed: "specChanged a p"
  shows "\<exists>a'. same_spec a a' \<and> agents (kube (snd (run_state (Reconcile r n) w))) n = Some a' \<and>
    live_pods (pods (kube (snd (run_state (Reconcile r n) w)))) a = {}"
proof -
  obtain u where u: "kube u = kube w" "run_state (Reconcile r n) w = run_state (reconcile_drift r a p) u"
    using run_tended [OF a t] one assms(3) changed by (auto simp: reconcile_found_def)
  let ?m = "''Spec change detected: deleting Pod '' @ pod_Name p @ '' for recreation''"
  obtain m1 w1 where w1: "run_state (stamped ?m) u = (m1, w1)" "kube w1 = kube u" using run_stamped by blast
  obtain w2 where w2: "run_state (Eventf a EventTypeNormal ''PodRecreated'' m1) w1 = ((), w2)" "kube w2 = kube w1"
    by (simp add: Eventf_def monad_simps)
  have key: "agents (kube w2) (agent_key a) = Some a" using a agents_key [OF a] u(1) w1(2) w2(2) by simp
  obtain a' w3 where w3: "run_state (updateStatus r a AgentPhaseUpdating (pod_Name p) ''Applying spec update'') w2 = ((a', None), w3)"
    "same_spec a a'" "agents (kube w3) = (agents (kube w2))(agent_key a \<mapsto> a')" "pods (kube w3) = pods (kube w2)"
    using run_updateStatus [OF key] by blast
  obtain m2 w4 where w4: "run_state (stamped ?m) w3 = (m2, w4)" "kube w4 = kube w3" using run_stamped by blast
  obtain w5 where w5: "run_state (appendHistory r a' EventTypeNormal ''PodRecreated'' m2) w4 = ((), w5)" "kube w5 = kube w4"
    using kube_appendHistory by blast
  obtain w6 where w6: "run_state (delete_pod_if_there r p) w5 = (None, w6)" "live_pods (pods (kube w6)) a = {}"
    "agents (kube w6) = agents (kube w5)"
    using run_deletePod [of p w5 a] one w5(2) w4(2) w3(4) w2(2) w1(2) u(1) by auto
  have "snd (run_state (reconcile_drift r a p) u) = w6"
    using w1(1) w2(1) w3(1) w4(1) w5(1) w6(1) by (simp add: reconcile_drift_def Let_def)
  then show ?thesis
    using u w3 w4 w5 w6 agents_key [OF a] by auto
qed

text \<open>The service code leaves pods alone and changes of the agents only the status of this one.\<close>

lemma run_patch_status:
  assumes "agents (kube w) (agent_key a) = Some a" and "same_spec a m"
  shows "\<exists>a' w'. run_state (patch_status_of r a m) w = ((a', None), w') \<and> same_spec a a' \<and>
    agents (kube w') = (agents (kube w))(agent_key a \<mapsto> a') \<and> pods (kube w') = pods (kube w) \<and>
    agent_Status a' = agent_Status m"
proof -
  have k: "agent_key m = agent_key a" using same_spec_cong(5) [OF assms(2)] .
  then obtain k' where "patch_agent_status C a m (kube w) = (Inr (patched_status a m a), k')"
    "agents k' = (agents (kube w))(agent_key a \<mapsto> patched_status a m a)" "pods k' = pods (kube w)"
    using patch_status_there [of "kube w" m a a] assms by auto
  then show ?thesis by (simp add: patch_status_of_def monad_simps client same_spec_def)
qed

definition serviced :: "Agent \<Rightarrow> ('k, 'h, 'c) world \<Rightarrow> ('k, 'h, 'c) world \<Rightarrow> bool" where
  "serviced a w w' \<longleftrightarrow> pods (kube w') = pods (kube w) \<and>
     (\<exists>a'. same_spec a a' \<and> status_Phase (agent_Status a') = status_Phase (agent_Status a) \<and>
        agents (kube w') = (agents (kube w))(agent_key a \<mapsto> a'))"

lemma serviced_refl: "agents (kube w) (agent_key a) = Some a \<Longrightarrow> pods (kube w') = pods (kube w) \<Longrightarrow>
    agents (kube w') = agents (kube w) \<Longrightarrow> serviced a w w'"
  unfolding serviced_def by (intro conjI exI [of _ a]) auto

lemma serviced_set_name:
  assumes "agents (kube w) (agent_key a) = Some a"
    and "agents (kube w1) = agents (kube w)" "pods (kube w1) = pods (kube w)"
  shows "\<exists>w'. run_state (set_ServiceName r a s) w1 = ((), w') \<and> serviced a w w'"
proof -
  let ?m = "update_status (\<lambda>st. st\<lparr>status_ServiceName := s\<rparr>) a"
  obtain a' w' where run: "run_state (patch_status_of r a ?m) w1 = ((a', None), w')" "same_spec a a'"
    "agents (kube w') = (agents (kube w1))(agent_key a \<mapsto> a')" "pods (kube w') = pods (kube w1)"
    "agent_Status a' = agent_Status ?m"
    using run_patch_status [of w1 a ?m] assms by (auto simp: same_spec_def)
  then have "serviced a w w'" unfolding serviced_def using assms(2,3) by (intro conjI exI [of _ a']) auto
  with run(1) show ?thesis by (simp add: set_ServiceName_def)
qed

lemma get_service_keeps: "\<exists>x. get_service C n k = (x, k)"
  using get_service_found get_service_missing by (cases "services k n") blast+

lemma serviced_drop:
  assumes a: "agents (kube w) (agent_key a) = Some a" and w1: "kube w1 = kube w"
  shows "serviced a w (snd (run_state (drop_service_of r a got) w1))"
proof (cases got)
  case (Inl e)
  then show ?thesis using a w1 by (simp add: drop_service_of_def serviced_refl)
next
  case (Inr svc)
  obtain x k' where x: "delete_service C svc (kube w1) = (x, k')" by fastforce
  let ?w2 = "recorded (DeleteService svc) x k' w1"
  have k': "agents (kube ?w2) = agents (kube w)" "pods (kube ?w2) = pods (kube w)"
    using service_writes(5,6) [of svc "kube w1"] x w1 by simp_all
  obtain w3 where w3: "run_state (set_ServiceName r a '''') ?w2 = ((), w3)" "serviced a w w3"
    using serviced_set_name [OF a k'] by blast
  have "run_state (Delete_service C svc) w1 = (x, ?w2)" using x by (simp add: monad_simps recorded_def)
  with w3 serviced_refl [OF a k'(2,1)] Inr show ?thesis
    by (cases x) (auto simp: drop_service_of_def client)
qed

lemma serviced_create:
  assumes a: "agents (kube w) (agent_key a) = Some a" and w1: "kube w1 = kube w"
  shows "serviced a w (snd (run_state (create_service_for r a) w1))"
proof (cases "r_OwnService r a (buildService a)")
  case (Inl e)
  then show ?thesis using a w1 by (simp add: create_service_for_def serviced_refl)
next
  case (Inr svc)
  obtain x k' where x: "create_service C svc (kube w1) = (x, k')" by fastforce
  let ?w2 = "recorded (CreateService svc) x k' w1"
  have k': "agents (kube ?w2) = agents (kube w)" "pods (kube ?w2) = pods (kube w)"
    using service_writes(1,2) [of svc "kube w1"] x w1 by simp_all
  obtain w3 where w3: "run_state (set_ServiceName r a (serviceNameFor (agent_Name a))) ?w2 = ((), w3)"
    "serviced a w w3"
    using serviced_set_name [OF a k'] by blast
  have "run_state (Create_service C svc) w1 = (x, ?w2)" using x by (simp add: monad_simps recorded_def)
  with w3 serviced_refl [OF a k'(2,1)] Inr show ?thesis
    by (cases x) (auto simp: create_service_for_def client)
qed

lemma serviced_update:
  assumes a: "agents (kube w) (agent_key a) = Some a" and w1: "kube w1 = kube w"
  shows "serviced a w (snd (run_state (update_service_for r a svc) w1))"
proof -
  have name: "\<exists>w'. run_state (if status_ServiceName (agent_Status a) \<noteq> serviceNameFor (agent_Name a)
        then set_ServiceName r a (serviceNameFor (agent_Name a)) else ret ()) v = ((), w') \<and> serviced a w w'"
    if "agents (kube v) = agents (kube w)" "pods (kube v) = pods (kube w)" for v
    using serviced_set_name [OF a that] serviced_refl [OF a that(2,1)] by auto
  obtain x k' where x: "patch_service C svc (svc\<lparr>svc_Ports := desiredPorts a\<rparr>) (kube w1) = (x, k')" by fastforce
  let ?w2 = "recorded (PatchService svc (svc\<lparr>svc_Ports := desiredPorts a\<rparr>)) x k' w1"
  have k': "agents (kube ?w2) = agents (kube w)" "pods (kube ?w2) = pods (kube w)"
    using service_writes(3,4) [of svc "svc\<lparr>svc_Ports := desiredPorts a\<rparr>" "kube w1"] x w1 by simp_all
  have run: "run_state (Patch_service C svc (svc\<lparr>svc_Ports := desiredPorts a\<rparr>)) w1 = (x, ?w2)"
    using x by (simp add: monad_simps recorded_def)
  show ?thesis
  proof (cases "ports_drifted a svc")
    case True
    then show ?thesis using name [OF k'] run serviced_refl [OF a k'(2,1)]
      by (cases x) (auto simp: update_service_for_def client)
  next
    case False
    then show ?thesis using name [of w1] w1 by (auto simp: update_service_for_def)
  qed
qed

lemma serviced_reconcileService:
  assumes a: "agents (kube w) (agent_key a) = Some a"
  shows "serviced a w (snd (run_state (reconcileService r a) w))"
proof -
  let ?n = "(agent_Namespace a, serviceNameFor (agent_Name a))"
  obtain x where x: "get_service C ?n (kube w) = (x, kube w)" using get_service_keeps by blast
  let ?w1 = "recorded (GetService ?n) x (kube w) w"
  have run: "run_state (Get_service C ?n) w = (x, ?w1)" using x by (simp add: monad_simps recorded_def)
  have refl: "serviced a w ?w1" using a by (intro serviced_refl) simp_all
  show ?thesis
    using serviced_drop [OF a, of ?w1 x] serviced_create [OF a, of ?w1] serviced_update [OF a, of ?w1] refl run
    by (cases x) (auto simp: reconcileService_def client)
qed

lemma step_current:
  assumes a: "agents (kube w) n = Some a" and t: "tended a" and "\<not> spec_Paused (agent_Spec a)"
    and some: "live_pods (pods (kube w)) a \<noteq> {}" and current: "\<forall>p \<in> live_pods (pods (kube w)) a. \<not> specChanged a p"
  shows "\<exists>p \<in> live_pods (pods (kube w)) a. \<exists>a'. same_spec a a' \<and> agents (kube (snd (run_state (Reconcile r n) w))) n = Some a' \<and>
    status_Phase (agent_Status a') = podPhaseToAgentPhase (pod_Phase p) \<and>
    pods (kube (snd (run_state (Reconcile r n) w))) = pods (kube w)"
proof -
  obtain u found where found: "kube u = kube w" "run_state (Reconcile r n) w = run_state (reconcile_found r a found) u"
    "found \<in> Some ` live_pods (pods (kube w)) a"
    using run_tended [OF a t] some by auto
  then obtain p where p: "found = Some p" "p \<in> live_pods (pods (kube w)) a" by blast
  then have u: "kube u = kube w" "run_state (Reconcile r n) w = run_state (reconcile_sync r a p) u"
    using found(1,2) assms(3) current by (simp_all add: reconcile_found_def)
  have key: "agents (kube u) (agent_key a) = Some a" using a agents_key [OF a] u(1) by simp
  let ?msg = "''Pod '' @ pod_Name p @ '' is '' @ pod_Phase p"
  obtain a1 w1 where w1: "run_state (updateStatus r a (podPhaseToAgentPhase (pod_Phase p)) (pod_Name p) ?msg) u = ((a1, None), w1)"
    "same_spec a a1" "status_Phase (agent_Status a1) = podPhaseToAgentPhase (pod_Phase p)"
    "agents (kube w1) = (agents (kube u))(agent_key a \<mapsto> a1)" "pods (kube w1) = pods (kube u)"
    using run_updateStatus [OF key] by blast
  have k1: "agent_key a1 = agent_key a" using same_spec_cong(5) [OF w1(2)] .
  then have "agents (kube w1) (agent_key a1) = Some a1" using w1(4) by simp
  then have s: "serviced a1 w1 (snd (run_state (reconcileService r a1) w1))" by (rule serviced_reconcileService)
  have "snd (run_state (reconcile_sync r a p) u) = snd (run_state (reconcileService r a1) w1)"
    using w1(1) by (simp add: reconcile_sync_def split: prod.split)
  with s u w1 k1 agents_key [OF a] show ?thesis
    unfolding serviced_def by (intro bexI [OF _ p(2)]) (auto intro: same_spec_trans)
qed

lemma step_sync:
  assumes a: "agents (kube w) n = Some a" and t: "tended a" and "\<not> spec_Paused (agent_Spec a)"
    and one: "live_pods (pods (kube w)) a = {p}" and current: "\<not> specChanged a p"
  shows "\<exists>a'. same_spec a a' \<and> agents (kube (snd (run_state (Reconcile r n) w))) n = Some a' \<and>
    status_Phase (agent_Status a') = podPhaseToAgentPhase (pod_Phase p) \<and>
    pods (kube (snd (run_state (Reconcile r n) w))) = pods (kube w)"
  using step_current [OF a t assms(3)] one current by simp

lemma step_paused:
  assumes a: "agents (kube w) n = Some a" and t: "tended a" and "spec_Paused (agent_Spec a)"
    and most: "live_pods (pods (kube w)) a \<subseteq> {p}"
  shows "\<exists>a'. same_spec a a' \<and> agents (kube (snd (run_state (Reconcile r n) w))) n = Some a' \<and>
    status_Phase (agent_Status a') = AgentPhaseStopped \<and>
    live_pods (pods (kube (snd (run_state (Reconcile r n) w)))) a = {}"
proof -
  obtain u found where u: "kube u = kube w" "run_state (Reconcile r n) w = run_state (reconcile_paused r a found) u"
    "found \<in> (if live_pods (pods (kube w)) a = {} then {None} else Some ` live_pods (pods (kube w)) a)"
    using run_tended [OF a t] assms(3) by (auto simp: reconcile_found_def)
  let ?clean = "case found of
        None \<Rightarrow> ret None
      | Some pod \<Rightarrow> do {
          failed \<leftarrow> delete_pod_if_there r pod;
          (case failed of Some e \<Rightarrow> ret (Some e)
           | None \<Rightarrow> do {
               announce r a EventTypeNormal ''Paused''
                 ''Agent paused: Pod deleted and reconciliation halted'';
               ret None }) }"
  have "\<exists>w1. run_state ?clean u = (None, w1) \<and> live_pods (pods (kube w1)) a = {} \<and> agents (kube w1) = agents (kube w)"
    using pod_list_single [OF most u(3)]
  proof
    assume "found = None \<and> live_pods (pods (kube w)) a = {}"
    then show ?thesis using u(1) by simp
  next
    assume f: "found = Some p \<and> live_pods (pods (kube w)) a = {p}"
    then obtain w1 where w1: "run_state (delete_pod_if_there r p) u = (None, w1)"
      "live_pods (pods (kube w1)) a = {}" "agents (kube w1) = agents (kube u)"
      using run_deletePod [of p u a] u(1) by auto
    obtain w2 where "run_state (announce r a EventTypeNormal ''Paused''
        ''Agent paused: Pod deleted and reconciliation halted'') w1 = ((), w2)" "kube w2 = kube w1"
      using run_announce by blast
    with f w1 u(1) show ?thesis by simp
  qed
  then obtain w1 where w1: "run_state ?clean u = (None, w1)" "live_pods (pods (kube w1)) a = {}"
    "agents (kube w1) = agents (kube w)" by blast
  have key: "agents (kube w1) (agent_key a) = Some a" using a agents_key [OF a] w1(3) by simp
  obtain a' w2 where w2: "run_state (updateStatus r a AgentPhaseStopped '''' ''Agent is paused'') w1 = ((a', None), w2)"
    "same_spec a a'" "status_Phase (agent_Status a') = AgentPhaseStopped"
    "agents (kube w2) = (agents (kube w1))(agent_key a \<mapsto> a')" "pods (kube w2) = pods (kube w1)"
    using run_updateStatus [OF key] by blast
  have "snd (run_state (reconcile_paused r a found) u) = w2"
    using w1(1) w2(1) by (simp add: reconcile_paused_def)
  then show ?thesis using u(2) w1 w2 agents_key [OF a] by auto
qed

end

section \<open>Convergence\<close>

primrec reconcile_times ::
  "nat \<Rightarrow> ('k, 'h) AgentReconciler \<Rightarrow> nn \<Rightarrow> ('k, 'h, 'c) world \<Rightarrow> ('k, 'h, 'c) world" where
  "reconcile_times 0 r n w = w"
| "reconcile_times (Suc j) r n w = snd (run_state (Reconcile r n) (reconcile_times j r n w))"

lemma reconcile_times_add: "reconcile_times (i + j) r n w = reconcile_times i r n (reconcile_times j r n w)"
  by (induction i) simp_all

context reconciler_env
begin

text \<open>The one live pod of the agent is \<open>p\<close>, and it is up to date.\<close>

definition settled :: "nn \<Rightarrow> Agent \<Rightarrow> Pod \<Rightarrow> ('k, 'h, 'c) world \<Rightarrow> bool" where
  "settled n a p w \<longleftrightarrow> live_pods (pods (kube w)) a = {p} \<and> \<not> specChanged a p \<and>
     (\<exists>a'. same_spec a a' \<and> agents (kube w) n = Some a')"

lemma settled_step:
  assumes "settled n a p w" and "tended a" and "\<not> spec_Paused (agent_Spec a)"
  shows "settled n a p (snd (run_state (Reconcile r n) w)) \<and>
    (\<exists>a'. same_spec a a' \<and> agents (kube (snd (run_state (Reconcile r n) w))) n = Some a' \<and>
      status_Phase (agent_Status a') = podPhaseToAgentPhase (pod_Phase p))"
proof -
  obtain a1 where a1: "same_spec a a1" "agents (kube w) n = Some a1"
    using assms(1) by (auto simp: settled_def)
  have "\<not> spec_Paused (agent_Spec a1)" using a1(1) assms(3) by (simp add: same_spec_def)
  then obtain a2 where "same_spec a1 a2" "agents (kube (snd (run_state (Reconcile r n) w))) n = Some a2"
    "status_Phase (agent_Status a2) = podPhaseToAgentPhase (pod_Phase p)"
    "pods (kube (snd (run_state (Reconcile r n) w))) = pods (kube w)"
    using step_sync [OF a1(2), of p] assms same_spec_cong [OF a1(1)] by (auto simp: settled_def)
  then show ?thesis
    using assms(1) same_spec_trans [OF a1(1)] by (auto simp: settled_def)
qed

lemma settled_times:
  assumes "settled n a p w" and "tended a" and "\<not> spec_Paused (agent_Spec a)"
  shows "settled n a p (reconcile_times j r n w)"
  using assms by (induction j) (simp_all add: settled_step)

lemma settles:
  assumes a: "agents (kube w) n = Some a" and t: "tended a" and up: "\<not> spec_Paused (agent_Spec a)"
    and plain: "plain_pod a" and most: "live_pods (pods (kube w)) a \<subseteq> {p0}"
  shows "\<exists>p. settled n a p (reconcile_times 2 r n w) \<and> kept_or_built (pods (kube w)) a p"
proof -
  let ?s = "\<lambda>w. snd (run_state (Reconcile r n) w)"
  have two: "reconcile_times 2 r n w = ?s (?s w)"
    by (simp add: numeral_2_eq_2)
  have missing: "\<exists>p. settled n a p (?s v) \<and> kept_or_built (pods (kube w)) a p"
    if "same_spec a b" "agents (kube v) n = Some b" "live_pods (pods (kube v)) a = {}" for v b
  proof -
    have "\<not> spec_Paused (agent_Spec b)" using that(1) up by (simp add: same_spec_def)
    then show ?thesis
      using step_missing [OF that(2)] that t plain same_spec_cong [OF that(1)]
      by (auto simp: settled_def kept_or_built_def)
  qed
  consider "live_pods (pods (kube w)) a = {}" | "live_pods (pods (kube w)) a = {p0}" "specChanged a p0"
    | "live_pods (pods (kube w)) a = {p0}" "\<not> specChanged a p0"
    using most by auto
  then show ?thesis
  proof cases
    case 1
    then obtain p where "settled n a p (?s w)" "kept_or_built (pods (kube w)) a p" using missing [of a w] a by auto
    then show ?thesis using settled_step [OF _ t up] two by metis
  next
    case 2
    then show ?thesis using step_drift [OF a t up] missing two by fastforce
  next
    case 3
    then have "settled n a p0 w" using a by (auto simp: settled_def)
    moreover have "kept_or_built (pods (kube w)) a p0" using 3 by (simp add: kept_or_built_def)
    ultimately show ?thesis using settled_times [OF _ t up, of n p0 w 2] by blast
  qed
qed

lemma converges:
  assumes a: "agents (kube w) n = Some a" and t: "tended a" and up: "\<not> spec_Paused (agent_Spec a)"
    and plain: "plain_pod a" and most: "live_pods (pods (kube w)) a \<subseteq> {p0}"
  shows "\<exists>p. kept_or_built (pods (kube w)) a p \<and>
    (\<forall>j. live_pods (pods (kube (reconcile_times (j + 3) r n w))) a = {p} \<and> \<not> specChanged a p \<and>
      (\<exists>a'. same_spec a a' \<and> agents (kube (reconcile_times (j + 3) r n w)) n = Some a' \<and>
        status_Phase (agent_Status a') = podPhaseToAgentPhase (pod_Phase p)))"
proof -
  obtain p where p: "settled n a p (reconcile_times 2 r n w)" "kept_or_built (pods (kube w)) a p"
    using settles [OF assms] by blast
  have split: "reconcile_times (j + 3) r n w =
      snd (run_state (Reconcile r n) (reconcile_times j r n (reconcile_times 2 r n w)))" for j
    using reconcile_times_add [of "Suc j" 2 r n w] by (simp add: numeral_3_eq_3)
  show ?thesis
    using p(2) settled_step [OF settled_times [OF p(1) t up] t up] unfolding split settled_def by blast
qed

end

section \<open>Properties\<close>

interpretation ref_env: reconciler_env ref_kube ref_agents ref_pods ref_services ref_reconciler
  by unfold_locales auto

lemma ref_reconciler_env: "reconciler_env ref_kube ref_agents ref_pods ref_services ref_reconciler"
  by unfold_locales

text \<open>
  Against a server that keeps the API's documentation and has no other writer, for an agent that
  is not deleted, not paused, carries the finalizer, overrides no label or annotation of its
  pod and has at most one live pod at the start: from the third reconciliation on there is exactly one live
  pod, the same for ever, it is up to date, and the recorded phase is the one of this pod. It is a pod that was there
  and up to date at the start, or a new one whose container is the one that the spec describes.
\<close>

lemma reconcile_converges:
  fixes w :: "('k, 'h, 'c) world"
  assumes "reconciler_env C agents pods services r"
    and "agents (kube w) n = Some a" and "tended a" and "\<not> spec_Paused (agent_Spec a)"
    and "plain_pod a" and "live_pods (pods (kube w)) a \<subseteq> {p0}"
  shows "\<exists>p. kept_or_built (pods (kube w)) a p \<and>
    (\<forall>j. live_pods (pods (kube (reconcile_times (j + 3) r n w))) a = {p} \<and> \<not> specChanged a p \<and>
      (\<exists>a'. same_spec a a' \<and> agents (kube (reconcile_times (j + 3) r n w)) n = Some a' \<and>
        status_Phase (agent_Status a') = podPhaseToAgentPhase (pod_Phase p)))"
  using assms by (rule reconciler_env.converges)

lemma ref_agent_tended: "tended ref_agent" "plain_pod ref_agent" "\<not> spec_Paused (agent_Spec ref_agent)"
  by (simp_all add: tended_def plain_pod_def empty_spec_def)

lemma reconcile_converges_example:
  "\<exists>p. live_pods (ref_pods (kube (reconcile_times 3 ref_reconciler (''default'', ''a'')
     (ref_world (ref_cluster ref_agent []))))) ref_agent = {p} \<and> \<not> specChanged ref_agent p"
proof -
  have "ref_agents (kube (ref_world (ref_cluster ref_agent []))) (''default'', ''a'') = Some ref_agent"
    using ref_cluster_simps(1) [of ref_agent] by simp
  moreover have "live_pods (ref_pods (kube (ref_world (ref_cluster ref_agent [])))) ref_agent \<subseteq> {undefined}"
    by (simp add: live_pods_def ref_pods_def)
  ultimately show ?thesis
    using reconcile_converges [OF ref_reconciler_env _ ref_agent_tended(1,3,2)] by (metis add_0)
qed

text \<open>
  Against such a server, one reconciliation of a paused agent that is not deleted and carries the
  finalizer leaves it without a live pod, if it had at most one, and records the phase \<open>Stopped\<close>;
  the rest of the agent stays as it was.
\<close>

lemma paused_agent_stops:
  fixes w :: "('k, 'h, 'c) world"
  assumes "reconciler_env C agents pods services r"
    and "agents (kube w) n = Some a" and "tended a" and "spec_Paused (agent_Spec a)"
    and "live_pods (pods (kube w)) a \<subseteq> {p}"
  defines "w' \<equiv> snd (run_state (Reconcile r n) w)"
  shows "live_pods (pods (kube w')) a = {} \<and>
    (\<exists>a'. same_spec a a' \<and> agents (kube w') n = Some a' \<and> status_Phase (agent_Status a') = AgentPhaseStopped)"
  using reconciler_env.step_paused [OF assms(1-5)] unfolding w'_def by blast

text \<open>A pod of the agent of the witnesses, as \<open>buildPod\<close> makes it.\<close>

definition ref_pod :: Pod where
  "ref_pod = named_pod [] (buildPod ref_agent)"

lemma paused_agent_stops_example:
  "live_pods (ref_pods (ref_cluster ref_paused [ref_pod])) ref_paused = {ref_pod} \<and>
   live_pods (ref_pods (kube (snd (run_state (Reconcile ref_reconciler (''default'', ''a''))
     (ref_world (ref_cluster ref_paused [ref_pod])))))) ref_paused = {}"
proof -
  have "plain_pod ref_paused" by (simp add: plain_pod_def ref_paused_def empty_spec_def)
  have b: "pod_Labels (buildPod ref_paused) = pod_Labels (buildPod ref_agent)"
    by (simp add: buildPod_def Let_def) (simp add: ref_paused_def)
  have live: "live_pods (ref_pods (ref_cluster ref_paused [ref_pod])) ref_paused = {ref_pod}"
    using plain_matches [OF \<open>plain_pod ref_paused\<close>]
    by (auto simp: live_pods_def ref_pods_def ref_pod_def b)
  have "ref_agents (kube (ref_world (ref_cluster ref_paused [ref_pod]))) (''default'', ''a'') = Some ref_paused"
    using ref_cluster_simps(1) [of ref_paused] by simp
  from paused_agent_stops [OF ref_reconciler_env this, of ref_pod] live show ?thesis
    by (simp add: tended_def)
qed

end
