(* ===== verification/Rest_Lifecycle.thy ===== *)
theory Rest_Lifecycle
  imports Rest_Agents Reconcile_Convergence
begin

text \<open>
  What the handlers of \<open>Rest_Agents\<close> do to a cluster that nobody else writes to (\<open>kube_api\<close>), and what
  the controller makes of it: the lifecycle operations, the environment variables, and deletion.
\<close>

section \<open>Runs against the API\<close>

text \<open>After a handler, the stored agent \<open>a\<close> has the spec \<open>sp\<close>, and the rest of the cluster is the same.\<close>

definition spec_becomes ::
  "('k \<Rightarrow> nn \<Rightarrow> Agent option) \<Rightarrow> ('k \<Rightarrow> Pod set) \<Rightarrow> ('k \<Rightarrow> nn \<Rightarrow> Service option) \<Rightarrow>
   nn \<Rightarrow> Agent \<Rightarrow> AgentSpec \<Rightarrow> 'k \<Rightarrow> 'k \<Rightarrow> bool" where
  "spec_becomes agents pods services n a sp k k' \<longleftrightarrow>
     (\<exists>a'. agents k' = (agents k)(n \<mapsto> a') \<and> agent_Spec a' = sp \<and> agent_Status a' = agent_Status a \<and>
        agent_key a' = agent_key a \<and> meta_Finalizers (agent_Meta a') = meta_Finalizers (agent_Meta a) \<and>
        meta_DeletionTimestamp (agent_Meta a') = meta_DeletionTimestamp (agent_Meta a) \<and>
        agent_Generation a' = (if sp = agent_Spec a then agent_Generation a else agent_Generation a + 1)) \<and>
     pods k' = pods k \<and> services k' = services k"

text \<open>A program that leaves the cluster alone and ends with a given result.\<close>

definition answers :: "('k, 'h, 'c, 'a) prog \<Rightarrow> 'a \<Rightarrow> bool" where
  "answers m x \<longleftrightarrow> (\<forall>w. fst (run_state m w) = x \<and> kube (snd (run_state m w)) = kube w)"

lemma answersD: "answers m x \<Longrightarrow> \<exists>w'. run_state m w = (x, w') \<and> kube w' = kube w"
  unfolding answers_def by (metis prod.collapse)

lemma publish_answers: "answers (State_Monad.bind (publish s a n re m) (\<lambda>_. ret x)) x"
  by (simp add: answers_def publish_def record_event_def record_history_def stamped_def timestamp_def
      Eventf_def append_event_def monad_simps split: option.split)

lemma record_history_answers: "answers (record_history s n re m) ()"
  by (simp add: answers_def record_history_def stamped_def timestamp_def append_event_def monad_simps
      split: option.split)

lemma patched_generation:
  "spec_PodLabels (agent_Spec m) = spec_PodLabels (agent_Spec a) \<Longrightarrow>
   spec_PodAnnotations (agent_Spec m) = spec_PodAnnotations (agent_Spec a) \<Longrightarrow>
   agent_Spec (patched_agent a m a) = agent_Spec m \<and>
   agent_Generation (patched_agent a m a) =
     (if agent_Spec m = agent_Spec a then agent_Generation a else agent_Generation a + 1)"
  by (simp add: patched_agent_def merged_spec_onto_base)

context kube_api
begin

lemma run_with_agent:
  assumes "s_Client s = C" and "agents (kube w) n = Some a"
  shows "run_state (with_agent s n f) w = run_state (f a) (w\<lparr>calls := calls w @ [(GetAgent n, Done)]\<rparr>)"
  using assms get_agent_found [OF assms(2)] by (simp add: with_agent_def monad_simps)

lemma run_with_patch:
  fixes w :: "('k, 'h, 'c) world"
  assumes "s_Client s = C" and a: "agents (kube w) n = Some a" and key: "agent_key m = agent_key a"
    and labels: "spec_PodLabels (agent_Spec m) = spec_PodLabels (agent_Spec a)"
      "spec_PodAnnotations (agent_Spec m) = spec_PodAnnotations (agent_Spec a)"
    and f: "\<And>x. agent_Spec x = agent_Spec m \<Longrightarrow> answers (f x) resp"
  shows "\<exists>w'. run_state (with_patch s a m f) w = (resp, w') \<and>
    spec_becomes agents pods services n a (agent_Spec m) (kube w) (kube w')"
proof -
  have n: "agent_key a = n" using agents_key [OF a] .
  obtain k' where k': "patch_agent C a m (kube w) = (Inr (patched_agent a m a), k')"
    "agents k' = (agents (kube w))(n \<mapsto> patched_agent a m a)" "pods k' = pods (kube w)" "services k' = services (kube w)"
    using patch_agent_there [of "kube w" m a a] a key n by auto
  note gen = patched_generation [OF labels]
  let ?w = "w\<lparr>kube := k', calls := calls w @ [(PatchAgent a m, Done)]\<rparr>"
  have "run_state (with_patch s a m f) w = run_state (f (patched_agent a m a)) ?w"
    using k'(1) assms(1) by (simp add: with_patch_def monad_simps)
  moreover have "answers (f (patched_agent a m a)) resp" using gen by (intro f) blast
  from answersD [OF this, of ?w]
  obtain w' where "run_state (f (patched_agent a m a)) ?w = (resp, w')" "kube w' = k'" by auto
  ultimately show ?thesis
    using k'(2-4) gen by (auto simp: spec_becomes_def agent_key_def)
qed

end

section \<open>The lifecycle operations\<close>

text \<open>\<open>has_effect m n a resp sp\<close>: on any state in which \<open>a\<close> is stored, \<open>m\<close> answers \<open>resp\<close> and leaves the spec \<open>sp\<close>.\<close>

context kube_api
begin

definition has_effect :: "('k, 'h, 'c, Response) prog \<Rightarrow> nn \<Rightarrow> Agent \<Rightarrow> Response \<Rightarrow> AgentSpec \<Rightarrow> bool" where
  "has_effect m n a resp sp \<longleftrightarrow> (\<forall>w. agents (kube w) n = Some a \<longrightarrow>
     (\<exists>w'. run_state m w = (resp, w') \<and> spec_becomes agents pods services n a sp (kube w) (kube w')))"

lemma effectD:
  "has_effect m n a resp sp \<Longrightarrow> agents (kube w) n = Some a \<Longrightarrow>
   \<exists>w'. run_state m w = (resp, w') \<and> spec_becomes agents pods services n a sp (kube w) (kube w')"
  by (simp add: has_effect_def)

lemma effect_with_agent:
  fixes f :: "Agent \<Rightarrow> ('k, 'h, 'c, Response) prog"
  shows "s_Client s = C \<Longrightarrow> has_effect (f a) n a resp sp \<Longrightarrow> has_effect (with_agent s n f) n a resp sp"
  unfolding has_effect_def
proof (intro allI impI)
  fix w :: "('k, 'h, 'c) world"
  assume "s_Client s = C" "agents (kube w) n = Some a"
    and f: "\<forall>w. agents (kube w) n = Some a \<longrightarrow>
      (\<exists>w'. run_state (f a) w = (resp, w') \<and> spec_becomes agents pods services n a sp (kube w) (kube w'))"
  then show "\<exists>w'. run_state (with_agent s n f) w = (resp, w') \<and> spec_becomes agents pods services n a sp (kube w) (kube w')"
    using spec [OF f, of "w\<lparr>calls := calls w @ [(GetAgent n, Done)]\<rparr>"] by (simp add: run_with_agent)
qed

lemma effect_after_clock:
  fixes f :: "string \<Rightarrow> ('k, 'h, 'c, Response) prog"
  shows "(\<And>t. has_effect (f t) n a resp sp) \<Longrightarrow> has_effect (State_Monad.bind rfc3339_now f) n a resp sp"
proof -
  assume f: "\<And>t. has_effect (f t) n a resp sp"
  show ?thesis unfolding has_effect_def
  proof (intro allI impI)
    fix w :: "('k, 'h, 'c) world"
    assume "agents (kube w) n = Some a"
    then show "\<exists>w'. run_state (State_Monad.bind rfc3339_now f) w = (resp, w') \<and>
        spec_becomes agents pods services n a sp (kube w) (kube w')"
      using effectD [OF f, of "w\<lparr>clock := \<lambda>n. clock w (Suc n)\<rparr>"] by (simp add: rfc3339_now_def monad_simps)
  qed
qed

lemma effect_with_patch:
  assumes "s_Client s = C" and "agent_key m = agent_key a"
    and "spec_PodLabels (agent_Spec m) = spec_PodLabels (agent_Spec a)"
    and "spec_PodAnnotations (agent_Spec m) = spec_PodAnnotations (agent_Spec a)"
    and "\<And>x. agent_Spec x = agent_Spec m \<Longrightarrow> answers (f x) resp" and "sp = agent_Spec m"
  shows "has_effect (with_patch s a m f) n a resp sp"
  unfolding has_effect_def assms(6) by (intro allI impI run_with_patch [where f = f] assms(1-5))

lemmas effect_rules = effect_with_agent effect_after_clock effect_with_patch publish_answers

lemma stop_effect:
  "s_Client s = C \<Longrightarrow> has_effect (handleStopAgent s c) (nsName s c) a (respondOK (PFlag ''stopped'' True))
     ((agent_Spec a)\<lparr>spec_Paused := True\<rparr>)"
  unfolding handleStopAgent_def by (intro effect_rules) (simp_all add: agent_key_def)

lemma start_effect:
  "s_Client s = C \<Longrightarrow> has_effect (handleStartAgent s c) (nsName s c) a (respondOK (PFlag ''started'' True))
     ((agent_Spec a)\<lparr>spec_Paused := False\<rparr>)"
  unfolding handleStartAgent_def by (intro effect_rules) (simp_all add: agent_key_def)

lemma restart_effect:
  "s_Client s = C \<Longrightarrow> has_effect (handleRestartAgent s c) (nsName s c) a (respondOK (PFlag ''restarted'' True))
     (agent_Spec a)"
  unfolding handleRestartAgent_def by (intro effect_rules) (simp_all add: agent_key_def)

lemma disable_effect:
  "s_Client s = C \<Longrightarrow> has_effect (handleDisableSelfHealing s c) (nsName s c) a
     (respondOK (PFlag ''selfHealingDisabled'' True)) ((agent_Spec a)\<lparr>spec_SelfHealingDisabled := True\<rparr>)"
  unfolding handleDisableSelfHealing_def by (intro effect_rules) (simp_all add: agent_key_def)

lemma enable_effect:
  "s_Client s = C \<Longrightarrow> has_effect (handleEnableSelfHealing s c) (nsName s c) a
     (respondOK (PFlag ''selfHealingDisabled'' False)) ((agent_Spec a)\<lparr>spec_SelfHealingDisabled := False\<rparr>)"
  unfolding handleEnableSelfHealing_def by (intro effect_rules) (simp_all add: agent_key_def)

lemma set_env_simps [simp]:
  "agent_key (set_env e a) = agent_key a" "agent_Spec (set_env e a) = (agent_Spec a)\<lparr>spec_Env := e\<rparr>"
  by (simp_all add: set_env_def agent_key_def)

lemma publish_env:
  "agent_Spec x = agent_Spec (set_env e a) \<Longrightarrow> answers (State_Monad.bind (publish s x n re m)
     (\<lambda>_. ret (respondOK (PEnv (spec_Env (agent_Spec x)))))) (respondOK (PEnv e))"
  using publish_answers [of s x n re m "respondOK (PEnv e)"] by simp

lemma set_env_effect:
  "s_Client s = C \<Longrightarrow> has_effect (handleSetEnv s c (Inr env)) (nsName s c) a (respondOK (PEnv env))
     ((agent_Spec a)\<lparr>spec_Env := env\<rparr>)"
  unfolding handleSetEnv_def by (simp, intro effect_with_agent effect_with_patch publish_env) simp_all

lemma merge_env_effect:
  "s_Client s = C \<Longrightarrow> has_effect (handleMergeEnv s c (Inr env)) (nsName s c) a
     (respondOK (PEnv (mergeEnvVars (spec_Env (agent_Spec a)) env)))
     ((agent_Spec a)\<lparr>spec_Env := mergeEnvVars (spec_Env (agent_Spec a)) env\<rparr>)"
  unfolding handleMergeEnv_def Let_def by (simp, intro effect_with_agent effect_with_patch publish_env) simp_all

lemma delete_env_effect:
  "s_Client s = C \<Longrightarrow> has_effect (handleDeleteEnvKey s c) (nsName s c) a
     (respondOK (PEnv (delete_env (p_field c) (spec_Env (agent_Spec a)))))
     ((agent_Spec a)\<lparr>spec_Env := delete_env (p_field c) (spec_Env (agent_Spec a))\<rparr>)"
  unfolding handleDeleteEnvKey_def by (intro effect_with_agent effect_with_patch publish_env) simp_all

end

section \<open>Restarting\<close>

definition pod_write :: "kcall \<Rightarrow> bool" where
  "pod_write q \<longleftrightarrow> (\<exists>p. q = CreatePod p \<or> q = DeletePod p)"

lemma pod_write_simps [simp]:
  "\<not> pod_write (GetAgent n)" "\<not> pod_write (GetService n)" "\<not> pod_write (ListPods ns sel)"
  "\<not> pod_write (CreateService s)" "\<not> pod_write (PatchAgentStatus b a)" "\<not> pod_write (PatchService b' s)"
  "\<not> pod_write (DeleteService s)"
  by (simp_all add: pod_write_def)

lemma sync_writes_no_pod: "emits (\<lambda>q. \<not> pod_write q) (reconcile_sync r a p)"
  unfolding reconcile_sync_def updateStatus_def patch_status_of_def reconcileService_def drop_service_of_def
    create_service_for_def update_service_for_def set_ServiceName_def Let_def
  by (intro emits_intros) simp_all

context reconciler_env
begin

text \<open>An agent whose live pods are all current keeps them.\<close>

lemma reconcile_current:
  fixes w :: "('k, 'h, 'c) world"
  assumes "agents (kube w) n = Some a" and "tended a" and "\<not> spec_Paused (agent_Spec a)"
    and "live_pods (pods (kube w)) a \<noteq> {}" and "\<forall>p \<in> live_pods (pods (kube w)) a. \<not> specChanged a p"
  shows "\<forall>x \<in> set (sent (Reconcile r n) w). \<not> pod_write (fst x)"
proof -
  let ?w = "w\<lparr>calls := []\<rparr>"
  have got: "agents (kube ?w) n = Some a" using assms(1) by simp
  obtain u p where u: "run_state (Reconcile r n) ?w = run_state (reconcile_found r a (Some p)) u"
    "calls u = [(GetAgent n, Done), (ListPods (agent_Namespace a) (pod_selector a), Done)]"
    "p \<in> live_pods (pods (kube w)) a"
    using run_tended [OF got assms(2)] assms(4) by (auto split: if_splits)
  have "reconcile_found r a (Some p) = (reconcile_sync r a p :: ('k, 'h, 'c, answer) prog)"
    using assms(3,5) u(3) by (auto simp: reconcile_found_def)
  moreover obtain l where "calls (snd (run_state (reconcile_sync r a p) u)) = calls u @ l"
    "\<forall>x \<in> set l. \<not> pod_write (fst x)"
    using emitsD [OF sync_writes_no_pod, of r a p u] by blast
  ultimately have "sent (Reconcile r n) w =
      [(GetAgent n, Done), (ListPods (agent_Namespace a) (pod_selector a), Done)] @ l"
    using u(1,2) by (simp add: sent_def)
  then show ?thesis using \<open>\<forall>x \<in> set l. \<not> pod_write (fst x)\<close> by simp
qed

lemma restart_keeps_current:
  assumes "s_Client s = C" and a: "agents (kube w) (nsName s c) = Some a" and "tended a"
    and "\<not> spec_Paused (agent_Spec a)" and "live_pods (pods (kube w)) a \<noteq> {}"
    and "\<forall>p \<in> live_pods (pods (kube w)) a. \<not> specChanged a p"
    and "kube w2 = kube (snd (run_state (handleRestartAgent s c) w))"
  shows "\<forall>x \<in> set (sent (Reconcile r (nsName s c)) w2). \<not> pod_write (fst x)"
proof -
  obtain w' where w': "run_state (handleRestartAgent s c) w = (respondOK (PFlag ''restarted'' True), w')"
    "spec_becomes agents pods services (nsName s c) a (agent_Spec a) (kube w) (kube w')"
    using effectD [OF restart_effect [OF assms(1)] a] by blast
  then obtain a' where a': "agents (kube w2) (nsName s c) = Some a'" "agent_Spec a' = agent_Spec a"
    "agent_key a' = agent_key a" "meta_Finalizers (agent_Meta a') = meta_Finalizers (agent_Meta a)"
    "meta_DeletionTimestamp (agent_Meta a') = meta_DeletionTimestamp (agent_Meta a)"
    "agent_Generation a' = agent_Generation a" and k: "pods (kube w2) = pods (kube w)"
    using assms(7) by (auto simp: spec_becomes_def)
  have live: "live_pods (pods (kube w2)) a' = live_pods (pods (kube w)) a"
    using a'(3) k by (simp add: live_pods_def pod_selector_def agent_key_def)
  show ?thesis
    using a' live assms(3-6)
    by (intro reconcile_current [OF a'(1)]) (auto simp: tended_def specChanged_def agent_key_def)
qed

end

section \<open>Deleting\<close>

lemma deletion_quiet:
  "spec_SelfHealingDisabled (agent_Spec a) \<Longrightarrow> spawns_nothing (handleDeletion r a)"
  unfolding handleDeletion_def findAgentPod_def delete_pod_if_there_def remove_finalizer_and_resurrect_def client_defs
  by (intro quiet_intros) simp_all

context kube_api
begin

text \<open>After a deletion the agent is gone, or terminating with self-healing off.\<close>

definition gone_or_terminating :: "nn \<Rightarrow> 'k \<Rightarrow> bool" where
  "gone_or_terminating n k \<longleftrightarrow> (case agents k n of None \<Rightarrow> True
     | Some d \<Rightarrow> spec_SelfHealingDisabled (agent_Spec d) \<and> \<not> IsZero (meta_DeletionTimestamp (agent_Meta d)))"

lemma run_delete_now:
  fixes w :: "('k, 'h, 'c) world"
  assumes "s_Client s = C" and "agents (kube w) (agent_key a) = Some d" and "spec_SelfHealingDisabled (agent_Spec d)"
  shows "\<exists>w'. run_state (delete_now s n a) w = (respondStatus 200 ''deleted'' (PField ''name'' (snd n)), w') \<and>
    gone_or_terminating (agent_key a) (kube w')"
proof -
  obtain w1 where w1: "run_state (record_history s n ''Deleted'' deleted_message) w = ((), w1)" "kube w1 = kube w"
    using answersD [OF record_history_answers] by metis
  obtain k' t where k': "delete_agent C a (kube w) = (Inr (), k')" "\<not> IsZero (Some t)"
    "agents k' = (agents (kube w))(agent_key a := if meta_Finalizers (agent_Meta d) = [] then None
          else Some (d\<lparr>agent_Meta := (agent_Meta d)\<lparr>meta_DeletionTimestamp := Some t\<rparr>\<rparr>))"
    using delete_agent_there [OF assms(2)] by blast
  have "gone_or_terminating (agent_key a) k'"
    using k'(2,3) assms(3) by (simp add: gone_or_terminating_def)
  with w1 k'(1) assms(1) show ?thesis
    by (simp add: delete_now_def monad_simps record_event_def stamped_def timestamp_def Eventf_def)
qed

lemma run_handleDeleteAgent:
  fixes w :: "('k, 'h, 'c) world"
  assumes C: "s_Client s = C" and a: "agents (kube w) (nsName s c) = Some a"
  shows "\<exists>w'. run_state (handleDeleteAgent s c) w =
      (respondStatus 200 ''deleted'' (PField ''name'' (snd (nsName s c))), w') \<and>
    gone_or_terminating (nsName s c) (kube w')"
proof -
  let ?n = "nsName s c" and ?w = "w\<lparr>calls := calls w @ [(GetAgent (nsName s c), Done)]\<rparr>"
  have key: "agent_key a = ?n" using agents_key [OF a] .
  show ?thesis
  proof (cases "spec_SelfHealingDisabled (agent_Spec a)")
    case True
    then show ?thesis
      using run_delete_now [OF C, of ?w a a ?n] a key
      by (simp add: handleDeleteAgent_def run_with_agent [OF C a])
  next
    case False
    let ?m = "update_spec (\<lambda>sp. sp\<lparr>spec_SelfHealingDisabled := True\<rparr>) a"
    have m: "agent_key ?m = ?n" using key by (simp add: agent_key_def)
    obtain k' where k': "patch_agent C a ?m (kube w) = (Inr (patched_agent a ?m a), k')"
      "agents k' = (agents (kube w))(?n \<mapsto> patched_agent a ?m a)"
      using patch_agent_there [of "kube w" ?m a a] a m by auto
    let ?w2 = "?w\<lparr>kube := k', calls := calls ?w @ [(PatchAgent a ?m, Done)]\<rparr>"
    have p: "agent_key (patched_agent a ?m a) = ?n" using key by (simp add: agent_key_def)
    have "\<exists>w'. run_state (delete_now s ?n (patched_agent a ?m a)) ?w2 =
        (respondStatus 200 ''deleted'' (PField ''name'' (snd ?n)), w') \<and> gone_or_terminating ?n (kube w')"
      using run_delete_now [OF C, of ?w2 "patched_agent a ?m a" "patched_agent a ?m a" ?n] k'(2) p
      by (simp add: merged_spec_onto_base)
    then show ?thesis
      using False k'(1) C by (simp add: handleDeleteAgent_def run_with_agent [OF C a] monad_simps)
  qed
qed

lemma terminating_spawns_nothing:
  fixes r :: "('k, 'h) AgentReconciler" and w :: "('k, 'h, 'c) world"
  assumes "r_Client r = C" and "gone_or_terminating n (kube w)"
  shows "spawned (snd (run_state (Reconcile r n) w)) = spawned w"
proof (cases "agents (kube w) n")
  case None
  then obtain m where "get_agent C n (kube w) = (Inl (KErr NotFound m), kube w)" using get_agent_missing by blast
  with assms(1) show ?thesis by (simp add: Reconcile_def monad_simps)
next
  case (Some d)
  have "get_agent (r_Client r) n (kube w) = (Inr d, kube w)" using get_agent_found [OF Some] assms(1) by simp
  moreover have "spawns_nothing (handleDeletion r d :: ('k, 'h, 'c, answer) prog)"
    using assms(2) Some by (intro deletion_quiet) (simp add: gone_or_terminating_def)
  ultimately show ?thesis
    using assms(2) Some
    by (simp add: run_Reconcile reconcile_agent_def gone_or_terminating_def spawns_nothing_def)
qed

end

section \<open>Properties\<close>

text \<open>
  C15. Against a server that keeps the API's documentation and has no other writer, the lifecycle operations on a
  stored agent answer 200 and do what they say: stop and start set and clear \<open>paused\<close>, the two healing operations
  set and clear \<open>selfHealingDisabled\<close>, restart leaves the spec alone; the status, the pods and the services
  stay, and the generation grows exactly when the spec changed.
\<close>

theorem lifecycle_effects:
  fixes w :: "('k, 'h, 'c) world" and s :: "('k, 'h, 'c) Server"
  assumes K: "kube_api (s_Client s) agents pods services" and a: "agents (kube w) (nsName s c) = Some a"
  defines "becomes \<equiv> \<lambda>sp w'. spec_becomes agents pods services (nsName s c) a sp (kube w) (kube w')"
  shows "(\<exists>w'. run_state (handleStopAgent s c) w = (respondOK (PFlag ''stopped'' True), w') \<and>
       becomes ((agent_Spec a)\<lparr>spec_Paused := True\<rparr>) w') \<and>
    (\<exists>w'. run_state (handleStartAgent s c) w = (respondOK (PFlag ''started'' True), w') \<and>
       becomes ((agent_Spec a)\<lparr>spec_Paused := False\<rparr>) w') \<and>
    (\<exists>w'. run_state (handleRestartAgent s c) w = (respondOK (PFlag ''restarted'' True), w') \<and>
       becomes (agent_Spec a) w') \<and>
    (\<exists>w'. run_state (handleDisableSelfHealing s c) w = (respondOK (PFlag ''selfHealingDisabled'' True), w') \<and>
       becomes ((agent_Spec a)\<lparr>spec_SelfHealingDisabled := True\<rparr>) w') \<and>
    (\<exists>w'. run_state (handleEnableSelfHealing s c) w = (respondOK (PFlag ''selfHealingDisabled'' False), w') \<and>
       becomes ((agent_Spec a)\<lparr>spec_SelfHealingDisabled := False\<rparr>) w')"
  unfolding becomes_def
  by (intro conjI kube_api.effectD [OF K _ a] kube_api.stop_effect [OF K refl] kube_api.start_effect [OF K refl]
      kube_api.restart_effect [OF K refl] kube_api.disable_effect [OF K refl] kube_api.enable_effect [OF K refl])

lemma ref_kube_api: "kube_api ref_kube ref_agents ref_pods ref_services"
  by (rule ref_kube.kube_api_axioms)

definition mem_world :: "cluster \<Rightarrow> (cluster, InMemoryHistory, InMemoryCache) world" where
  "mem_world k = clock_world k (NewInMemoryHistory 0) NewInMemoryCache 0"

lemma mem_world_simps [simp]:
  "kube (mem_world k) = k" "cach (mem_world k) = NewInMemoryCache" "calls (mem_world k) = []"
  "hist (mem_world k) = NewInMemoryHistory 0" "clock (mem_world k) = (\<lambda>n. int n * Millisecond)"
  by (simp_all add: mem_world_def)

theorem lifecycle_effects_witness:
  "\<exists>a'. ref_agents (kube (snd (run_state (handleStopAgent ref_server (ref_request ''a'' ''''))
     (mem_world (ref_cluster idle_agent []))))) (''default'', ''a'') = Some a' \<and> spec_Paused (agent_Spec a')"
proof -
  have "ref_agents (kube (mem_world (ref_cluster idle_agent []))) (nsName ref_server (ref_request ''a'' '''')) = Some idle_agent"
    using ref_cluster_simps(1) [of idle_agent] by simp
  from lifecycle_effects [where s = ref_server, unfolded ref_server_simps, OF ref_kube_api this]
  show ?thesis by (auto simp: spec_becomes_def)
qed

text \<open>
  Against such a server the three operations on environment variables store and answer with the
  replaced list, the merged list, and the list without the key.
\<close>

lemma env_effects:
  fixes w :: "('k, 'h, 'c) world" and s :: "('k, 'h, 'c) Server"
  assumes K: "kube_api (s_Client s) agents pods services" and a: "agents (kube w) (nsName s c) = Some a"
  defines "stores \<equiv> \<lambda>env r. \<exists>w'. r = (respondOK (PEnv env), w') \<and>
     spec_becomes agents pods services (nsName s c) a ((agent_Spec a)\<lparr>spec_Env := env\<rparr>) (kube w) (kube w')"
  shows "stores new (run_state (handleSetEnv s c (Inr new)) w) \<and>
    stores (mergeEnvVars (spec_Env (agent_Spec a)) new) (run_state (handleMergeEnv s c (Inr new)) w) \<and>
    stores (delete_env (p_field c) (spec_Env (agent_Spec a))) (run_state (handleDeleteEnvKey s c) w)"
  unfolding stores_def
  by (intro conjI kube_api.effectD [OF K _ a] kube_api.set_env_effect [OF K refl]
      kube_api.merge_env_effect [OF K refl] kube_api.delete_env_effect [OF K refl])

lemma env_effects_example:
  "\<exists>a'. ref_agents (kube (snd (run_state (handleMergeEnv ref_server (ref_request ''a'' '''')
       (Inr (Some [\<lparr>env_Name = ''K'', env_Value = ''1'', env_ValueFrom = None\<rparr>])))
     (mem_world (ref_cluster idle_agent []))))) (''default'', ''a'') = Some a' \<and>
   spec_Env (agent_Spec a') = Some [\<lparr>env_Name = ''K'', env_Value = ''1'', env_ValueFrom = None\<rparr>]"
proof -
  have "ref_agents (kube (mem_world (ref_cluster idle_agent []))) (nsName ref_server (ref_request ''a'' '''')) = Some idle_agent"
    using ref_cluster_simps(1) [of idle_agent] by simp
  note stored = env_effects [where s = ref_server, unfolded ref_server_simps, OF ref_kube_api this,
      of "Some [\<lparr>env_Name = ''K'', env_Value = ''1'', env_ValueFrom = None\<rparr>]", THEN conjunct2, THEN conjunct1]
  have "spec_Env (agent_Spec idle_agent) = None" by (simp add: idle_agent_def empty_spec_def)
  with stored show ?thesis by (auto simp: spec_becomes_def mergeEnvVars_def Let_def)
qed

text \<open>
  C38. Restarting does not restart: against such a server, if all live pods of a tended, unpaused agent are
  up to date, the reconciliation after a restart request neither deletes nor creates a pod, since
  the request only changes an annotation and \<open>specChanged\<close> only looks at the generation.
\<close>

theorem restart_never_recreates:
  fixes w w2 :: "('k, 'h, 'c) world" and s :: "('k, 'h, 'c) Server"
  assumes "reconciler_env (s_Client s) agents pods services r"
    and "agents (kube w) (nsName s c) = Some a" and "tended a" and "\<not> spec_Paused (agent_Spec a)"
    and "live_pods (pods (kube w)) a \<noteq> {}" and "\<forall>p \<in> live_pods (pods (kube w)) a. \<not> specChanged a p"
    and "kube w2 = kube (snd (run_state (handleRestartAgent s c) w))"
  shows "(CreatePod p, oc) \<notin> set (sent (Reconcile r (nsName s c)) w2) \<and>
    (DeletePod p, oc) \<notin> set (sent (Reconcile r (nsName s c)) w2)"
  using reconciler_env.restart_keeps_current [OF assms(1) refl assms(2-7)] by (force simp: pod_write_def)

lemma ref_pod_live:
  "live_pods (ref_pods (ref_cluster ref_agent [ref_pod])) ref_agent = {ref_pod}" "\<not> specChanged ref_agent ref_pod"
  using plain_matches [OF ref_agent_tended(2)] plain_current [OF ref_agent_tended(2), of ref_pod]
  by (auto simp: live_pods_def ref_pods_def ref_pod_def)

theorem restart_never_recreates_witness:
  "\<forall>p oc. (DeletePod p, oc) \<notin> set (sent (Reconcile ref_reconciler (''default'', ''a''))
     (mem_world (kube (snd (run_state (handleRestartAgent ref_server (ref_request ''a'' ''''))
       (mem_world (ref_cluster ref_agent [ref_pod])))))))"
proof (intro allI)
  fix p oc
  have got: "ref_agents (kube (mem_world (ref_cluster ref_agent [ref_pod]))) (nsName ref_server (ref_request ''a'' '''')) = Some ref_agent"
    using ref_cluster_simps(1) [of ref_agent] by simp
  show "(DeletePod p, oc) \<notin> set (sent (Reconcile ref_reconciler (''default'', ''a''))
     (mem_world (kube (snd (run_state (handleRestartAgent ref_server (ref_request ''a'' ''''))
       (mem_world (ref_cluster ref_agent [ref_pod])))))))"
    using restart_never_recreates [where s = ref_server, unfolded ref_server_simps, OF ref_reconciler_env got ref_agent_tended(1,3),
        of "mem_world (kube (snd (run_state (handleRestartAgent ref_server (ref_request ''a'' ''''))
       (mem_world (ref_cluster ref_agent [ref_pod])))))" p oc] ref_pod_live by simp
qed



text \<open>
  The event \<open>Deleted\<close> is in the history before the deletion is tried: if the server then refuses the deletion of an
  agent with self-healing off, the handler answers 500, the history says \<open>Deleted\<close>, and no event is recorded on the object.
\<close>

lemma refused_delete_recorded:
  assumes "get_agent (s_Client s) (nsName s c) (kube w) = (Inr agent, k)"
    and "spec_SelfHealingDisabled (agent_Spec agent)" and "s_History s = Some H"
    and "delete_agent (s_Client s) agent k = (Inl e, k')"
  shows "fst (run_state (handleDeleteAgent s c) w) = respondError 500 (err_msg e) \<and>
    hist (snd (run_state (handleDeleteAgent s c) w)) =
      hs_Append H (fst (nsName s c)) (snd (nsName s c)) EventTypeNormal ''Deleted''
        (''['' @ format_ts (clock w 0) @ ''] '' @ deleted_message) (clock w 1) (hist w) \<and>
    evts (snd (run_state (handleDeleteAgent s c) w)) = evts w"
  using assms by (simp add: handleDeleteAgent_def with_agent_def delete_now_def record_history_def stamped_def
      timestamp_def append_event_def monad_simps)

text \<open>A server that refuses every deletion of an agent.\<close>

definition refusing_kube :: "cluster Client" where
  "refusing_kube = ref_kube\<lparr>delete_agent := (\<lambda>a k. (Inl (KErr OtherReason ''denied''), k))\<rparr>"

definition ref_unhealed :: Agent where
  "ref_unhealed = update_spec (\<lambda>sp. sp\<lparr>spec_SelfHealingDisabled := True\<rparr>) ref_agent"

lemma refused_delete_recorded_example:
  "map event_Reason (mh_List ''default'' ''a'' (hist (snd (run_state
     (handleDeleteAgent (ref_server\<lparr>s_Client := refusing_kube\<rparr>) (ref_request ''a'' ''''))
     (mem_world (ref_cluster ref_unhealed [])))))) = [''Deleted'']"
proof -
  have key: "agent_key ref_unhealed = (''default'', ''a'')" by (simp add: ref_unhealed_def agent_key_def)
  have n: "nsName (ref_server\<lparr>s_Client := refusing_kube\<rparr>) (ref_request ''a'' '''') = (''default'', ''a'')"
    by (simp add: nsName_def)
  have got: "get_agent (s_Client (ref_server\<lparr>s_Client := refusing_kube\<rparr>))
      (nsName (ref_server\<lparr>s_Client := refusing_kube\<rparr>) (ref_request ''a'' '''')) (kube (mem_world (ref_cluster ref_unhealed []))) =
      (Inr ref_unhealed, ref_cluster ref_unhealed [])"
    using ref_cluster_simps(1) [of ref_unhealed] key n by (simp add: refusing_kube_def ref_kube_reads)
  have off: "spec_SelfHealingDisabled (agent_Spec ref_unhealed)" by (simp add: ref_unhealed_def)
  have H: "s_History (ref_server\<lparr>s_Client := refusing_kube\<rparr>) = Some mem_history" by simp
  have del: "delete_agent (s_Client (ref_server\<lparr>s_Client := refusing_kube\<rparr>)) ref_unhealed (ref_cluster ref_unhealed []) =
      (Inl (KErr OtherReason ''denied''), ref_cluster ref_unhealed [])" by (simp add: refusing_kube_def)
  show ?thesis
    using refused_delete_recorded [OF got off H del] n
    by (simp add: mh_List_def mh_Append_def Let_def mh_slice_def NewInMemoryHistory_def history_cap_def)
qed

lemma apply_update_fields:
  "spec_Image (apply_update req sp) = (if upd_Image req = '''' then spec_Image sp else upd_Image req)"
  "spec_ImagePullPolicy (apply_update req sp) = (if upd_ImagePullPolicy req = '''' then spec_ImagePullPolicy sp else upd_ImagePullPolicy req)"
  "spec_Env (apply_update req sp) = (if upd_Env req = None then spec_Env sp else upd_Env req)"
  "spec_EnvFrom (apply_update req sp) = (if upd_EnvFrom req = None then spec_EnvFrom sp else upd_EnvFrom req)"
  "spec_Command (apply_update req sp) = (if upd_Command req = None then spec_Command sp else upd_Command req)"
  "spec_Args (apply_update req sp) = (if upd_Args req = None then spec_Args sp else upd_Args req)"
  "spec_ServiceAccountName (apply_update req sp) = (if upd_ServiceAccount req = '''' then spec_ServiceAccountName sp else upd_ServiceAccount req)"
  "spec_RestartPolicy (apply_update req sp) = (if upd_RestartPolicy req = '''' then spec_RestartPolicy sp else upd_RestartPolicy req)"
  "spec_PodLabels (apply_update req sp) = (if upd_PodLabels req = None then spec_PodLabels sp else upd_PodLabels req)"
  "spec_PodAnnotations (apply_update req sp) = (if upd_PodAnnotations req = None then spec_PodAnnotations sp else upd_PodAnnotations req)"
  "spec_IdleTimeout (apply_update req sp) = (case upd_IdleTimeout req of Some n \<Rightarrow> n | None \<Rightarrow> spec_IdleTimeout sp)"
  "spec_ImagePullSecrets (apply_update req sp) = spec_ImagePullSecrets sp"
  "spec_Resources (apply_update req sp) = spec_Resources sp"
  "spec_Volumes (apply_update req sp) = spec_Volumes sp"
  "spec_VolumeMounts (apply_update req sp) = spec_VolumeMounts sp"
  "spec_Paused (apply_update req sp) = spec_Paused sp"
  "spec_SelfHealingDisabled (apply_update req sp) = spec_SelfHealingDisabled sp"
  "spec_ServicePort (apply_update req sp) = spec_ServicePort sp"
  "spec_ServiceProtocol (apply_update req sp) = spec_ServiceProtocol sp"
  "AgentSpec.more (apply_update req sp) = AgentSpec.more sp"
  by (simp_all add: apply_update_def)

text \<open>
  An update changes exactly the fields it is given, whatever they were, and applying it twice is applying it
  once; the fields that have no counterpart in the request stay, among them \<open>resources\<close>, which
  the request has but the handler never reads.
\<close>

lemma update_applies_given_fields:
  "apply_update req (apply_update req sp) = apply_update req sp \<and>
   apply_update (req\<lparr>upd_Resources := x\<rparr>) sp = apply_update req sp \<and>
   spec_Resources (apply_update req sp) = spec_Resources sp \<and>
   spec_Paused (apply_update req sp) = spec_Paused sp \<and>
   spec_SelfHealingDisabled (apply_update req sp) = spec_SelfHealingDisabled sp \<and>
   spec_ServicePort (apply_update req sp) = spec_ServicePort sp \<and>
   spec_Env (apply_update req sp) = (if upd_Env req = None then spec_Env sp else upd_Env req) \<and>
   spec_Image (apply_update req sp) = (if upd_Image req = '''' then spec_Image sp else upd_Image req) \<and>
   spec_IdleTimeout (apply_update req sp) = (case upd_IdleTimeout req of Some n \<Rightarrow> n | None \<Rightarrow> spec_IdleTimeout sp)"
proof -
  have "apply_update req (apply_update req sp) = apply_update req sp"
    by (rule AgentSpec.equality) (simp_all add: apply_update_fields split: option.split)
  moreover have "apply_update (req\<lparr>upd_Resources := x\<rparr>) sp = apply_update req sp"
    by (rule AgentSpec.equality) (simp_all add: apply_update_fields)
  ultimately show ?thesis by (simp only: apply_update_fields)
qed

end
