(* ===== verification/Rest_Cache.thy ===== *)
theory Rest_Cache
  imports Rest_Server
begin

text \<open>The handlers of \<open>internal/rest/handlers.go\<close> for the cache of an agent.\<close>

section \<open>The handlers\<close>

definition handleListCache :: "('k, 'h, 'c) Server \<Rightarrow> Request \<Rightarrow> ('k, 'h, 'c, Response) prog" where
  "handleListCache s c = (let (namespace, name) = nsName s c in do {
     t \<leftarrow> Now;
     es \<leftarrow> on_cach (cs_List (s_Cache s) namespace name t);
     ret (respondOK (PEntries es)) })"

definition handleGetCacheField :: "('k, 'h, 'c) Server \<Rightarrow> Request \<Rightarrow> ('k, 'h, 'c, Response) prog" where
  "handleGetCacheField s c = (let (namespace, name) = nsName s c in do {
     t \<leftarrow> Now;
     x \<leftarrow> on_cach (cs_GetEntry (s_Cache s) namespace name (p_field c) t);
     ret (case x of
            None \<Rightarrow> respondError 404 ''cache field not found or expired''
          | Some entry \<Rightarrow> respondOK (PEntry entry)) })"

record CacheSetRequest =
  set_Value :: gval
  set_TTL :: int

text \<open>\<open>time.Duration(req.TTL) * time.Second\<close> is a product of 64-bit integers.\<close>

definition ttl_of :: "int \<Rightarrow> int" where
  "ttl_of seconds = wrap64 (seconds * Second)"

definition handleSetCacheField ::
  "('k, 'h, 'c) Server \<Rightarrow> Request \<Rightarrow> string + CacheSetRequest \<Rightarrow> ('k, 'h, 'c, Response) prog" where
  "handleSetCacheField s c body = (let (namespace, name) = nsName s c in
     case body of
       Inl err \<Rightarrow> ret (respondError 400 (''invalid body: '' @ err))
     | Inr req \<Rightarrow> do {
         t1 \<leftarrow> Now; t2 \<leftarrow> Now;
         on_cach (\<lambda>x. ((), cs_Set (s_Cache s) namespace name (p_field c) (set_Value req) (ttl_of (set_TTL req)) (t1, t2) x));
         ret (respondOK (PFieldFlag (p_field c) ''set'' True)) })"

definition handleDeleteCacheField :: "('k, 'h, 'c) Server \<Rightarrow> Request \<Rightarrow> ('k, 'h, 'c, Response) prog" where
  "handleDeleteCacheField s c = (let (namespace, name) = nsName s c in do {
     t \<leftarrow> Now;
     on_cach (\<lambda>x. ((), cs_Delete (s_Cache s) namespace name (p_field c) t x));
     ret (respondOK (PFieldFlag (p_field c) ''deleted'' True)) })"

definition handleClearCache :: "('k, 'h, 'c) Server \<Rightarrow> Request \<Rightarrow> ('k, 'h, 'c, Response) prog" where
  "handleClearCache s c = (let (namespace, name) = nsName s c in do {
     t \<leftarrow> Now;
     on_cach (\<lambda>x. ((), cs_ClearAgent (s_Cache s) namespace name t x));
     ret (respondOK (PFlag ''cleared'' True)) })"

lemmas cache_handler_defs =
  handleListCache_def handleGetCacheField_def handleSetCacheField_def handleDeleteCacheField_def handleClearCache_def

lemma emits_cache_handlers [emits_intros]:
  "emits P (handleListCache s c)" "emits P (handleGetCacheField s c)" "emits P (handleSetCacheField s c body)"
  "emits P (handleDeleteCacheField s c)" "emits P (handleClearCache s c)"
  unfolding cache_handler_defs Let_def by (intro emits_intros)+

section \<open>Times to live\<close>

lemma ttl_of_exact: "\<bar>seconds\<bar> \<le> 9223372036 \<Longrightarrow> ttl_of seconds = seconds * Second"
proof -
  assume "\<bar>seconds\<bar> \<le> 9223372036"
  then have "- 9223372036 \<le> seconds" "seconds \<le> 9223372036" by linarith+
  then have "in_int64 (seconds * Second)" by (simp add: in_int64_def)
  then show ?thesis by (simp add: ttl_of_def)
qed

text \<open>The first 9223372037 seconds beyond the largest duration wrap to negative durations.\<close>

lemma ttl_of_overflow: "9223372037 \<le> seconds \<Longrightarrow> seconds \<le> 18446744073 \<Longrightarrow> ttl_of seconds < 0"
proof -
  let ?x = "seconds * Second + 2 ^ 63"
  assume s: "9223372037 \<le> seconds" "seconds \<le> 18446744073"
  then have "0 \<le> ?x - 2 ^ 64" "?x - 2 ^ 64 < 2 ^ 64" by simp_all
  then have "(?x - 2 ^ 64) mod 2 ^ 64 = ?x - 2 ^ 64" by (rule mod_pos_pos_trivial)
  moreover have "(?x - 2 ^ 64) mod 2 ^ 64 = ?x mod 2 ^ 64" by (rule minus_mod_self2)
  ultimately have "?x mod 2 ^ 64 = ?x - 2 ^ 64" by simp
  with s(2) show ?thesis by (simp add: ttl_of_def wrap64_def)
qed

section \<open>Properties\<close>

lemma run_handleSetCacheField:
  "run_state (handleSetCacheField s c (Inr req)) w =
     (respondOK (PFieldFlag (p_field c) ''set'' True), w\<lparr>clock := \<lambda>n. clock w (Suc (Suc n)),
        cach := cs_Set (s_Cache s) (fst (nsName s c)) (snd (nsName s c)) (p_field c) (set_Value req)
          (ttl_of (set_TTL req)) (clock w 0, clock w 1) (cach w)\<rparr>)"
  by (simp add: handleSetCacheField_def monad_simps split: prod.split)

lemma get_field_answer:
  "fst (run_state (handleGetCacheField s c) w) =
     (case fst (cs_GetEntry (s_Cache s) (fst (nsName s c)) (snd (nsName s c)) (p_field c) (clock w 0) (cach w)) of
        None \<Rightarrow> respondError 404 ''cache field not found or expired''
      | Some entry \<Rightarrow> respondOK (PEntry entry))"
  by (simp add: handleGetCacheField_def monad_simps split: prod.split)

lemma run_handleDeleteCacheField:
  "cach (snd (run_state (handleDeleteCacheField s c) w)) =
     cs_Delete (s_Cache s) (fst (nsName s c)) (snd (nsName s c)) (p_field c) (clock w 0) (cach w)"
  by (simp add: handleDeleteCacheField_def monad_simps split: prod.split)

text \<open>
  C35. On any cache that keeps the contract, a value put with a TTL of at most 9223372036 seconds is what a
  later GET of the field returns until the TTL has passed, for ever with TTL 0; after that the GET is
  answered with 404.
\<close>

theorem cache_field_put_get:
  fixes w w1 :: "('k, 'h, 'c) world" and s :: "('k, 'h, 'c) Server"
  assumes S: "cache_store (s_Cache s) seen back legal ttl_ok invar" and inv: "invar (cach w)"
    and ttl: "0 \<le> seconds" "seconds \<le> 9223372036" "ttl_ok (seconds * Second)"
    and put: "cach w1 = cach (snd (run_state (handleSetCacheField s c (Inr \<lparr>set_Value = v, set_TTL = seconds\<rparr>)) w))"
  shows "(clock w 0 \<le> clock w1 0 \<and> (seconds = 0 \<or> clock w1 0 < min (clock w 0) (clock w 1) + seconds * Second) \<longrightarrow>
      (\<exists>e. entry_Value e = back v \<and> fst (run_state (handleGetCacheField s c) w1) = respondOK (PEntry e))) \<and>
    (0 < seconds \<and> max (clock w 0) (clock w 1) + seconds * Second < clock w1 0 \<longrightarrow>
       resp_Code (fst (run_state (handleGetCacheField s c) w1)) = 404)"
proof -
  let ?ns = "fst (nsName s c)" and ?n = "snd (nsName s c)" and ?f = "p_field c"
  have w1: "cach w1 = cs_Set (s_Cache s) ?ns ?n ?f v (seconds * Second) (clock w 0, clock w 1) (cach w)"
    using put ttl(1,2) by (simp add: run_handleSetCacheField ttl_of_exact)
  have inv1: "invar (cach w1)" unfolding w1 by (rule cache_store.invar_set [OF S inv])
  have "\<exists>e. entry_Value e = back v \<and> seen (clock w1 0) (cach w1) ?ns ?n ?f = Some e"
    if "clock w 0 \<le> clock w1 0" "seconds = 0 \<or> clock w1 0 < min (clock w 0) (clock w 1) + seconds * Second"
    using cache_store.set_same [OF S inv ttl(3) _ that(1), of "clock w 1" ?ns ?n ?f v] that(2) ttl(1)
    by (auto simp: w1 map_option_eq_Some)
  moreover have "seen (clock w1 0) (cach w1) ?ns ?n ?f = None"
    if "0 < seconds" "max (clock w 0) (clock w 1) + seconds * Second < clock w1 0"
    using cache_store.set_expired [OF S inv ttl(3) _ that(2)] that(1) by (simp add: w1)
  ultimately show ?thesis
    by (auto simp: get_field_answer cache_store.get_entry [OF S inv1])
qed

theorem cache_field_put_get_witness:
  "\<exists>e. entry_Value e = VBool True \<and> fst (run_state (handleGetCacheField ref_server (ref_request ''a'' ''f''))
     (clock_world empty_cluster (NewInMemoryHistory 0) (cach (snd (run_state
        (handleSetCacheField ref_server (ref_request ''a'' ''f'') (Inr \<lparr>set_Value = VBool True, set_TTL = 5\<rparr>))
        (clock_world empty_cluster (NewInMemoryHistory 0) NewInMemoryCache 0)))) (4 * Second))) = respondOK (PEntry e)"
  using cache_field_put_get [where s = ref_server and c = "ref_request ''a'' ''f''" and seconds = 5 and v = "VBool True"
      and w = "clock_world empty_cluster (NewInMemoryHistory 0) NewInMemoryCache 0"
      and ?w1.0 = "clock_world empty_cluster (NewInMemoryHistory 0) (cach (snd (run_state
        (handleSetCacheField ref_server (ref_request ''a'' ''f'') (Inr \<lparr>set_Value = VBool True, set_TTL = 5\<rparr>))
        (clock_world empty_cluster (NewInMemoryHistory 0) NewInMemoryCache 0)))) (4 * Second)",
      unfolded ref_server_simps, OF mem.cache_store_axioms]
  by (simp add: mc_inv_New)

text \<open>
  C36. Beyond 9223372036 seconds the product that computes the TTL overflows: for the next 9223372037 values
  it is negative, and the in-memory cache stores the entry without any expiry.
\<close>

theorem cache_ttl_overflow:
  assumes "s_Cache s = mem_store" and "mc_inv (cach w)" and "9223372037 \<le> seconds" and "seconds \<le> 18446744073"
    and "cach w1 = cach (snd (run_state (handleSetCacheField s c (Inr \<lparr>set_Value = v, set_TTL = seconds\<rparr>)) w))"
  shows "fst (run_state (handleGetCacheField s c) w1) =
    respondOK (PEntry \<lparr>entry_Value = v, entry_CreatedAt = clock w 0, entry_ExpiresAt = None\<rparr>)"
  using ttl_of_overflow [OF assms(3,4)] assms(1,2,5)
  by (simp add: get_field_answer run_handleSetCacheField GetEntry_seen mc_seen_def view_Set drop_expired_def
      mem_entry_def IsExpired_def)

theorem cache_ttl_overflow_witness:
  "fst (run_state (handleGetCacheField ref_server (ref_request ''a'' ''f''))
     (clock_world empty_cluster (NewInMemoryHistory 0) (cach (snd (run_state
        (handleSetCacheField ref_server (ref_request ''a'' ''f'') (Inr \<lparr>set_Value = VBool True, set_TTL = 10000000000\<rparr>))
        (clock_world empty_cluster (NewInMemoryHistory 0) NewInMemoryCache 0)))) (4 * Second))) =
   respondOK (PEntry \<lparr>entry_Value = VBool True, entry_CreatedAt = 0, entry_ExpiresAt = None\<rparr>)"
  using cache_ttl_overflow [where s = ref_server and c = "ref_request ''a'' ''f''" and seconds = 10000000000
      and v = "VBool True" and w = "clock_world empty_cluster (NewInMemoryHistory 0) NewInMemoryCache 0"
      and ?w1.0 = "clock_world empty_cluster (NewInMemoryHistory 0) (cach (snd (run_state
        (handleSetCacheField ref_server (ref_request ''a'' ''f'') (Inr \<lparr>set_Value = VBool True, set_TTL = 10000000000\<rparr>))
        (clock_world empty_cluster (NewInMemoryHistory 0) NewInMemoryCache 0)))) (4 * Second)"]
  by (simp add: mc_inv_New)

end
