(* ===== verification/Rest_Keepalive.thy ===== *)
theory Rest_Keepalive
  imports Rest_Agents
begin

text \<open>
  \<open>wakeAgent\<close> and \<open>handleKeepalive\<close> of \<open>internal/rest/handlers.go\<close>. The loop that polls an agent ends
  only because the clock moves on, so it takes fuel and its result is an option; \<open>poll_enough\<close> says
  how much fuel is enough on a clock that keeps pace with the sleeping.
\<close>

section \<open>Waking an agent\<close>

text \<open>The loop, from a reading of the clock to the next; \<open>phase\<close> is the last phase read.\<close>

fun poll ::
  "nat \<Rightarrow> ('k, 'h, 'c) Server \<Rightarrow> nn \<Rightarrow> int \<Rightarrow> string \<Rightarrow> ('k, 'h, 'c, string option) prog" where
  "poll 0 s n deadline phase = ret None"
| "poll (Suc fuel) s n deadline phase = do {
     now \<leftarrow> Now;
     if \<not> now < deadline then ret (Some phase)
     else do {
       x \<leftarrow> Get_agent (s_Client s) n;
       case x of
         Inr fresh \<Rightarrow>
           if status_Phase (agent_Status fresh) = AgentPhaseRunning
           then ret (Some (status_Phase (agent_Status fresh)))
           else do { Sleep (2 * Second); poll fuel s n deadline (status_Phase (agent_Status fresh)) }
       | Inl e \<Rightarrow> do { Sleep (2 * Second); poll fuel s n deadline phase } } }"

definition wake_url :: "string \<Rightarrow> Agent \<Rightarrow> string" where
  "wake_url namespace agent =
     (if spec_ServicePort (agent_Spec agent) > 0
      then service_url (if status_ServiceName (agent_Status agent) \<noteq> '''' then status_ServiceName (agent_Status agent)
                        else agent_Name agent) namespace (spec_ServicePort (agent_Spec agent))
      else '''')"

definition woken :: "string \<Rightarrow> Agent \<Rightarrow> Agent" where
  "woken now agent = annotate wakeReasonKey ''keepalive'' (annotate restartAtKey now (annotate startedAtKey now
     (update_spec (\<lambda>sp. sp\<lparr>spec_Paused := False\<rparr>) agent)))"

definition unpause ::
  "('k, 'h, 'c) Server \<Rightarrow> nn \<Rightarrow> Agent \<Rightarrow> ('k, 'h, 'c, kerr option) prog" where
  "unpause s n agent = do {
     now \<leftarrow> rfc3339_now;
     x \<leftarrow> Patch_agent (s_Client s) agent (woken now agent);
     case x of
       Inl e \<Rightarrow> ret (Some e)
     | Inr _ \<Rightarrow> do {
         record_history s n ''WokeUp'' ''Agent woken via keepalive (was idle-paused)'';
         ret None } }"

definition await ::
  "nat \<Rightarrow> ('k, 'h, 'c) Server \<Rightarrow> nn \<Rightarrow> int \<Rightarrow> string \<Rightarrow> ('k, 'h, 'c, (kerr + string \<times> string) option) prog" where
  "await fuel s n waitTimeout svcURL = do {
     t \<leftarrow> Now;
     r \<leftarrow> poll fuel s n (t + waitTimeout) '''';
     ret (map_option (\<lambda>phase. Inr (phase, svcURL)) r) }"

definition wakeAgent ::
  "nat \<Rightarrow> ('k, 'h, 'c) Server \<Rightarrow> nn \<Rightarrow> int \<Rightarrow> ('k, 'h, 'c, (kerr + string \<times> string) option) prog" where
  "wakeAgent fuel s n waitTimeout = do {
     x \<leftarrow> Get_agent (s_Client s) n;
     case x of
       Inl e \<Rightarrow> ret (Some (Inl e))
     | Inr agent \<Rightarrow>
         let svcURL = wake_url (fst n) agent in
         if \<not> spec_Paused (agent_Spec agent) \<and> status_Phase (agent_Status agent) = AgentPhaseRunning
         then ret (Some (Inr (status_Phase (agent_Status agent), svcURL)))
         else if spec_Paused (agent_Spec agent) then do {
           failed \<leftarrow> unpause s n agent;
           case failed of
             Some e \<Rightarrow> ret (Some (Inl e))
           | None \<Rightarrow> await fuel s n waitTimeout svcURL }
         else await fuel s n waitTimeout svcURL }"

section \<open>The handler\<close>

definition wait_seconds :: "string \<Rightarrow> int" where
  "wait_seconds ws =
     (if ws \<noteq> '''' then
        (case parse_int ws of
           Some n \<Rightarrow> if 0 \<le> n \<and> n \<le> 120 then n else 30
         | None \<Rightarrow> 30)
      else 30)"

definition keepalive_status :: "int \<Rightarrow> string \<Rightarrow> string" where
  "keepalive_status waitSec phase =
     (if phase \<noteq> AgentPhaseRunning then if waitSec = 0 then ''accepted'' else ''starting'' else ''running'')"

definition handleKeepalive ::
  "nat \<Rightarrow> ('k, 'h, 'c) Server \<Rightarrow> Request \<Rightarrow> ('k, 'h, 'c, Response option) prog" where
  "handleKeepalive fuel s c = do {
     let waitSec = wait_seconds (query c ''wait'');
     t0 \<leftarrow> Now;
     r \<leftarrow> wakeAgent fuel s (nsName s c) (waitSec * Second);
     case r of
       None \<Rightarrow> ret None
     | Some (Inl e) \<Rightarrow>
         ret (Some (if IsNotFound e then respondError 404 ''agent not found'' else respondError 500 (err_msg e)))
     | Some (Inr (phase, svcURL)) \<Rightarrow> do {
         t1 \<leftarrow> Now;
         ret (Some (respondOK (PKeepalive (keepalive_status waitSec phase) phase (round_ms (sat64 (t1 - t0)))
           (if svcURL \<noteq> '''' then Some svcURL else None)))) } }"

section \<open>The loop ends\<close>

text \<open>One round for each reading of the clock up to the first that reaches the deadline is enough.\<close>

lemma poll_enough:
  "deadline \<le> clock w m \<Longrightarrow> m < fuel \<Longrightarrow> \<exists>p. fst (run_state (poll fuel s n deadline phase) w) = Some p"
proof (induction fuel arbitrary: w m phase)
  case (Suc fuel)
  show ?case
  proof (cases "clock w 0 < deadline")
    case True
    then obtain m' where m: "m = Suc m'" using Suc.prems(1) by (cases m) auto
    obtain x k where x: "get_agent (s_Client s) n (kube w) = (x, k)" by fastforce
    have IH: "\<exists>p. fst (run_state (poll fuel s n deadline phase') (w\<lparr>clock := \<lambda>i. clock w (Suc i), kube := k, calls := l\<rparr>)) = Some p"
      for phase' l using Suc.IH [of "w\<lparr>clock := \<lambda>i. clock w (Suc i), kube := k, calls := l\<rparr>" m'] Suc.prems m by simp
    show ?thesis
      using True x IH by (cases x) (simp_all add: monad_simps)
  qed (simp add: monad_simps)
qed simp

lemma poll_mono:
  "fst (run_state (poll fuel s n deadline phase) w) = Some p \<Longrightarrow> fuel \<le> fuel' \<Longrightarrow>
   run_state (poll fuel' s n deadline phase) w = run_state (poll fuel s n deadline phase) w"
proof (induction fuel arbitrary: fuel' w phase)
  case (Suc fuel)
  then obtain f' where f': "fuel' = Suc f'" "fuel \<le> f'" by (cases fuel') auto
  obtain x k where x: "get_agent (s_Client s) n (kube w) = (x, k)" by fastforce
  show ?case
    using Suc.prems(1) x by (cases x) (auto simp: monad_simps f'(1) intro: Suc.IH [OF _ f'(2)])
qed simp

text \<open>The phase it returns is the last one read.\<close>

lemma poll_running:
  "fst (run_state (poll fuel s n deadline phase) w) = Some AgentPhaseRunning \<Longrightarrow> phase \<noteq> AgentPhaseRunning \<Longrightarrow>
   \<exists>k a k'. get_agent (s_Client s) n k = (Inr a, k') \<and> status_Phase (agent_Status a) = AgentPhaseRunning"
proof (induction fuel arbitrary: w phase)
  case (Suc fuel)
  obtain x k where x: "get_agent (s_Client s) n (kube w) = (x, k)" by fastforce
  show ?case
  proof (cases "\<exists>a. x = Inr a \<and> status_Phase (agent_Status a) = AgentPhaseRunning")
    case True
    with x show ?thesis by blast
  next
    case False
    with Suc x show ?thesis by (cases x) (auto simp: monad_simps split: if_splits)
  qed
qed simp

section \<open>What it sends\<close>

fun keepalive_may :: "nn \<Rightarrow> kcall \<Rightarrow> bool" where
  "keepalive_may n (GetAgent n') \<longleftrightarrow> n' = n"
| "keepalive_may n (SleepFor d) \<longleftrightarrow> d = 2 * Second"
| "keepalive_may n (PatchAgent b m) \<longleftrightarrow> spec_Paused (agent_Spec b) \<and> (\<exists>now. m = woken now b)"
| "keepalive_may n _ = False"

lemma may_poll: "emits (keepalive_may n) (poll fuel s n deadline phase)"
  by (induction fuel arbitrary: phase) (auto intro!: emits_intros)

lemma may_unpause:
  assumes "spec_Paused (agent_Spec agent)"
  shows "emits (keepalive_may n) (unpause s n agent)"
  unfolding unpause_def using assms by (intro emits_intros) auto

lemma may_wakeAgent: "emits (keepalive_may n) (wakeAgent fuel s n waitTimeout)"
  unfolding wakeAgent_def await_def Let_def by (intro emits_intros may_poll may_unpause) simp_all

lemma may_handleKeepalive: "emits (keepalive_may (nsName s c)) (handleKeepalive fuel s c)"
  unfolding handleKeepalive_def Let_def by (intro emits_intros may_wakeAgent)

section \<open>Runs of the handler\<close>

lemma run_unpause:
  "\<exists>r w' d. run_state (unpause s n agent) w = (r, w') \<and> d \<le> 3 \<and> clock w' = (\<lambda>i. clock w (i + d)) \<and>
     kube w' = snd (patch_agent (s_Client s) agent (woken (format_rfc3339 (clock w 0)) agent) (kube w)) \<and>
     (r = None \<longleftrightarrow> (\<exists>a. fst (patch_agent (s_Client s) agent (woken (format_rfc3339 (clock w 0)) agent) (kube w)) = Inr a))"
proof -
  obtain x k where x: "patch_agent (s_Client s) agent (woken (format_rfc3339 (clock w 0)) agent) (kube w) = (x, k)"
    by fastforce
  let ?w = "\<lambda>d h. w\<lparr>clock := \<lambda>i. clock w (i + d), hist := h, kube := k,
     calls := calls w @ [(PatchAgent agent (woken (format_rfc3339 (clock w 0)) agent), outcome_of x)]\<rparr>"
  have d: "clock w (Suc (Suc i)) = clock w (i + 2)" "clock w (Suc (Suc (Suc i))) = clock w (i + 3)"
    "clock w (Suc i) = clock w (i + 1)" for i
    by (simp_all add: numeral_2_eq_2 numeral_3_eq_3)
  note defs = unpause_def rfc3339_now_def record_history_def stamped_def timestamp_def append_event_def monad_simps
  have "\<exists>r d h. run_state (unpause s n agent) w = (r, ?w d h) \<and> d \<le> 3 \<and> (r = None \<longleftrightarrow> (\<exists>a. x = Inr a))"
  proof (cases x)
    case (Inl e)
    with x have "run_state (unpause s n agent) w = (Some e, ?w 1 (hist w))" by (simp add: defs)
    with Inl show ?thesis by (intro exI [of _ "Some e"] exI [of _ "1 :: nat"] exI [of _ "hist w"]) simp
  next
    case (Inr a)
    show ?thesis
    proof (cases "s_History s")
      case None
      with x Inr have "run_state (unpause s n agent) w = (None, ?w 2 (hist w))"
        by (simp add: defs)
      with Inr show ?thesis by (intro exI [of _ None] exI [of _ "2 :: nat"] exI [of _ "hist w"]) simp
    next
      case (Some H)
      let ?h = "hist (snd (run_state (unpause s n agent) w))"
      from Some x Inr have "run_state (unpause s n agent) w = (None, ?w 3 ?h)"
        by (simp add: defs numeral_3_eq_3)
      with Inr show ?thesis by (intro exI [of _ None] exI [of _ "3 :: nat"] exI [of _ ?h]) simp
    qed
  qed
  with x show ?thesis by force
qed

lemma await_returns:
  assumes "clock w 0 + waitTimeout \<le> clock w (Suc m)" and "m < fuel"
  shows "\<exists>r. fst (run_state (await fuel s n waitTimeout url) w) = Some r"
  using poll_enough [of "clock w 0 + waitTimeout" "w\<lparr>clock := \<lambda>i. clock w (Suc i)\<rparr>" m fuel s n "''''"] assms
  by (auto simp: await_def monad_simps split: prod.splits)

lemma wakeAgent_returns:
  assumes mono: "mono (clock w)" and "4 \<le> m" and late: "clock w 3 + waitTimeout \<le> clock w m" and "m \<le> fuel"
  shows "\<exists>r. fst (run_state (wakeAgent fuel s n waitTimeout) w) = Some r"
proof -
  have ready: "\<exists>r. fst (run_state (await fuel s n waitTimeout url) w') = Some r"
    if "clock w' = (\<lambda>i. clock w (i + d))" "d \<le> 3" for w' url d
  proof (rule await_returns)
    have "clock w d \<le> clock w 3" using mono that(2) by (rule monoD)
    then show "clock w' 0 + waitTimeout \<le> clock w' (Suc (m - d - 1))" using late that assms(2) by simp
    show "m - d - 1 < fuel" using assms(2,4) that(2) by simp
  qed
  obtain x k where x: "get_agent (s_Client s) n (kube w) = (x, k)" by fastforce
  let ?w = "w\<lparr>kube := k, calls := calls w @ [(GetAgent n, outcome_of x)]\<rparr>"
  show ?thesis
  proof (cases x)
    case (Inl e)
    with x show ?thesis by (simp add: wakeAgent_def monad_simps)
  next
    case (Inr agent)
    show ?thesis
    proof (cases "spec_Paused (agent_Spec agent)")
      case True
      obtain r w' d where u: "run_state (unpause s n agent) ?w = (r, w')" "d \<le> 3"
        "clock w' = (\<lambda>i. clock ?w (i + d))"
        using run_unpause [of s n agent ?w] by blast
      have "\<exists>r. fst (run_state (await fuel s n waitTimeout (wake_url (fst n) agent)) w') = Some r"
        using u(2,3) by (intro ready [of w' d]) simp_all
      then show ?thesis
        using x Inr True u(1) by (cases r) (simp_all add: wakeAgent_def monad_simps Let_def)
    next
      case False
      have "\<exists>r. fst (run_state (await fuel s n waitTimeout (wake_url (fst n) agent)) ?w) = Some r"
        by (intro ready [of ?w 0]) simp_all
      then show ?thesis using x Inr False by (simp add: wakeAgent_def monad_simps Let_def)
    qed
  qed
qed

lemma await_running:
  assumes "fst (run_state (await fuel s n waitTimeout url) w) = Some (Inr (AgentPhaseRunning, u))"
  shows "\<exists>k a k'. get_agent (s_Client s) n k = (Inr a, k') \<and> status_Phase (agent_Status a) = AgentPhaseRunning"
  using assms poll_running [of fuel s n "clock w 0 + waitTimeout" "''''" "w\<lparr>clock := \<lambda>i. clock w (Suc i)\<rparr>"]
  by (auto simp: await_def monad_simps split: prod.splits)

lemma wakeAgent_running:
  assumes "fst (run_state (wakeAgent fuel s n waitTimeout) w) = Some (Inr (AgentPhaseRunning, u))"
  shows "\<exists>k a k'. get_agent (s_Client s) n k = (Inr a, k') \<and> status_Phase (agent_Status a) = AgentPhaseRunning"
proof -
  obtain x k where x: "get_agent (s_Client s) n (kube w) = (x, k)" by fastforce
  let ?w = "w\<lparr>kube := k, calls := calls w @ [(GetAgent n, outcome_of x)]\<rparr>"
  show ?thesis
  proof (cases x)
    case (Inl e)
    with x assms show ?thesis by (simp add: wakeAgent_def monad_simps)
  next
    case (Inr agent)
    consider "\<not> spec_Paused (agent_Spec agent)" "status_Phase (agent_Status agent) = AgentPhaseRunning"
      | "\<not> spec_Paused (agent_Spec agent)" "status_Phase (agent_Status agent) \<noteq> AgentPhaseRunning"
      | "spec_Paused (agent_Spec agent)" by blast
    then show ?thesis
    proof cases
      case 1
      with x Inr show ?thesis by blast
    next
      case 2
      with x Inr assms have "fst (run_state (await fuel s n waitTimeout (wake_url (fst n) agent)) ?w) =
          Some (Inr (AgentPhaseRunning, u))" by (simp add: wakeAgent_def monad_simps Let_def)
      then show ?thesis by (rule await_running)
    next
      case 3
      obtain r w' where u: "run_state (unpause s n agent) ?w = (r, w')" by fastforce
      with x Inr assms 3 have "fst (run_state (await fuel s n waitTimeout (wake_url (fst n) agent)) w') =
          Some (Inr (AgentPhaseRunning, u))"
        by (cases r) (simp_all add: wakeAgent_def monad_simps Let_def)
      then show ?thesis by (rule await_running)
    qed
  qed
qed

text \<open>More fuel never changes a run that ended.\<close>

lemma await_mono:
  "fst (run_state (await fuel s n waitTimeout url) w) = Some r \<Longrightarrow> fuel \<le> fuel' \<Longrightarrow>
   run_state (await fuel' s n waitTimeout url) w = run_state (await fuel s n waitTimeout url) w"
  using poll_mono [of fuel s n "clock w 0 + waitTimeout" "''''" "w\<lparr>clock := \<lambda>i. clock w (Suc i)\<rparr>" _ fuel']
  by (auto simp: await_def monad_simps split: prod.splits)

lemma wakeAgent_mono:
  assumes "fst (run_state (wakeAgent fuel s n waitTimeout) w) = Some r" and "fuel \<le> fuel'"
  shows "run_state (wakeAgent fuel' s n waitTimeout) w = run_state (wakeAgent fuel s n waitTimeout) w"
proof -
  obtain x k where x: "get_agent (s_Client s) n (kube w) = (x, k)" by fastforce
  let ?w = "w\<lparr>kube := k, calls := calls w @ [(GetAgent n, outcome_of x)]\<rparr>"
  show ?thesis
  proof (cases x)
    case (Inl e)
    with x show ?thesis by (simp add: wakeAgent_def monad_simps)
  next
    case (Inr agent)
    obtain u w' where u: "run_state (unpause s n agent) ?w = (u, w')" by fastforce
    show ?thesis
      using assms x Inr u await_mono [OF _ assms(2)]
      by (cases u; cases "spec_Paused (agent_Spec agent)"; cases "status_Phase (agent_Status agent) = AgentPhaseRunning")
        (simp_all add: wakeAgent_def monad_simps Let_def)
  qed
qed

lemma handleKeepalive_mono:
  assumes "fst (run_state (handleKeepalive fuel s c) w) = Some r" and "fuel \<le> fuel'"
  shows "run_state (handleKeepalive fuel' s c) w = run_state (handleKeepalive fuel s c) w"
proof -
  let ?w = "w\<lparr>clock := \<lambda>i. clock w (Suc i)\<rparr>"
    and ?wake = "\<lambda>f. run_state (wakeAgent f s (nsName s c) (wait_seconds (query c ''wait'') * Second)) (w\<lparr>clock := \<lambda>i. clock w (Suc i)\<rparr>)"
  obtain x where "fst (?wake fuel) = Some x"
    using assms(1) by (cases "fst (?wake fuel)") (auto simp: handleKeepalive_def Let_def monad_simps split: prod.splits)
  from wakeAgent_mono [OF this assms(2)] show ?thesis
    by (simp add: handleKeepalive_def Let_def monad_simps)
qed

lemma wait_seconds_bounds: "0 \<le> wait_seconds ws" "wait_seconds ws \<le> 120"
  by (auto simp: wait_seconds_def split: option.split)


section \<open>Effect on the agent\<close>

text \<open>On a server without another writer the handler unpauses a paused agent and changes nothing else.\<close>

context kube_api
begin

lemma kube_poll: "s_Client s = C \<Longrightarrow> kube (snd (run_state (poll fuel s n deadline phase) w)) = kube w"
proof (induction fuel arbitrary: phase w)
  case (Suc fuel)
  obtain x k where x: "get_agent C n (kube w) = (x, k)" by fastforce
  then have "k = kube w" using get_agent_reads(1) [of n "kube w"] by simp
  with Suc x show ?case by (cases x) (simp_all add: monad_simps)
qed simp

lemma kube_wakeAgent:
  assumes "s_Client s = C" and a: "agents (kube w) n = Some a" and "spec_Paused (agent_Spec a)"
  shows "kube (snd (run_state (wakeAgent fuel s n waitTimeout) w)) =
    snd (patch_agent C a (woken (format_rfc3339 (clock w 0)) a) (kube w))"
proof -
  let ?w = "w\<lparr>calls := calls w @ [(GetAgent n, Done)]\<rparr>"
  have g: "get_agent (s_Client s) n (kube w) = (Inr a, kube w)"
    using a assms(1) by (simp add: get_agent_found)
  obtain r w' where u: "run_state (unpause s n a) ?w = (r, w')"
    "kube w' = snd (patch_agent C a (woken (format_rfc3339 (clock w 0)) a) (kube w))"
    using run_unpause [of s n a ?w] assms(1) by auto
  have "kube (snd (run_state (await fuel s n waitTimeout url) w')) = kube w'" for url
    using kube_poll [OF assms(1), of fuel n "clock w' 0 + waitTimeout" "''''" "w'\<lparr>clock := \<lambda>i. clock w' (Suc i)\<rparr>"]
    by (auto simp: await_def monad_simps split: prod.splits)
  with g u assms(3) show ?thesis
    by (cases r) (simp_all add: wakeAgent_def monad_simps Let_def)
qed

lemma kube_handleKeepalive:
  assumes "s_Client s = C" and "agents (kube w) (nsName s c) = Some a" and "spec_Paused (agent_Spec a)"
  shows "kube (snd (run_state (handleKeepalive fuel s c) w)) =
    snd (patch_agent C a (woken (format_rfc3339 (clock w 1)) a) (kube w))"
  using kube_wakeAgent [OF assms(1), of "w\<lparr>clock := \<lambda>i. clock w (Suc i)\<rparr>" "nsName s c" a fuel
      "wait_seconds (query c ''wait'') * Second"] assms(2,3)
  by (auto simp: handleKeepalive_def Let_def monad_simps split: prod.splits option.splits sum.splits)

end

lemma woken_simps [simp]:
  "agent_key (woken now a) = agent_key a" "agent_Spec (woken now a) = (agent_Spec a)\<lparr>spec_Paused := False\<rparr>"
  by (simp_all add: woken_def agent_key_def)

section \<open>Properties\<close>

text \<open>
  However the \<open>wait\<close> parameter reads, the handler waits between 0 and 120 seconds; a number in this
  range, printed in decimal, is taken as it is, every other number as the default of 30.
\<close>

lemma keepalive_wait_bounds:
  "0 \<le> wait_seconds ws \<and> wait_seconds ws \<le> 120 \<and>
   wait_seconds (int_str i) = (if 0 \<le> i \<and> i \<le> 120 then i else 30)"
proof -
  have "int_str i \<noteq> ''''" by (simp add: int_str_def)
  moreover have "in_int64 i" if "0 \<le> i" "i \<le> 120" using that by (simp add: in_int64_def)
  ultimately have "wait_seconds (int_str i) = (if 0 \<le> i \<and> i \<le> 120 then i else 30)"
    by (auto simp: wait_seconds_def parse_int_str)
  then show ?thesis by (simp add: wait_seconds_bounds)
qed

text \<open>
  C23. The keepalive handler answers, whatever the server does: on a clock that does not go back, if reading \<open>M\<close>
  of the clock is at least the waiting time after reading 4, \<open>M\<close> rounds are enough, and more
  fuel changes nothing.
\<close>

theorem keepalive_returns:
  fixes w :: "('k, 'h, 'c) world" and s :: "('k, 'h, 'c) Server"
  assumes "mono (clock w)" and "5 \<le> M" and "clock w 4 + wait_seconds (query c ''wait'') * Second \<le> clock w M"
    and "M \<le> fuel"
  shows "\<exists>resp. fst (run_state (handleKeepalive fuel s c) w) = Some resp \<and>
    run_state (handleKeepalive fuel s c) w = run_state (handleKeepalive M s c) w"
proof -
  let ?w = "w\<lparr>clock := \<lambda>i. clock w (Suc i)\<rparr>"
  have m: "mono (clock ?w)" using assms(1) by (simp add: mono_def)
  have late: "clock ?w 3 + wait_seconds (query c ''wait'') * Second \<le> clock ?w (M - 1)"
    using assms(2,3) by (simp add: numeral_eq_Suc)
  obtain r where r: "fst (run_state (wakeAgent M s (nsName s c) (wait_seconds (query c ''wait'') * Second)) ?w) = Some r"
    using wakeAgent_returns [OF m _ late, of M s "nsName s c"] assms(2) by fastforce
  have "\<exists>resp. fst (run_state (handleKeepalive M s c) w) = Some resp"
    using r by (cases r) (auto simp: handleKeepalive_def Let_def monad_simps split: prod.splits)
  then show ?thesis using handleKeepalive_mono [OF _ assms(4)] by metis
qed

definition second_world :: "cluster \<Rightarrow> (cluster, InMemoryHistory, InMemoryCache) world" where
  "second_world k = \<lparr>kube = k, hist = NewInMemoryHistory 0, cach = NewInMemoryCache, clock = (\<lambda>n. int n * Second),
     calls = [], evts = [], spawned = []\<rparr>"

theorem keepalive_returns_witness:
  "\<exists>resp. fst (run_state (handleKeepalive 20000 ref_server (ref_request ''a'' ''''))
     (second_world (ref_cluster idle_agent []))) = Some resp"
  using keepalive_returns [where M = 34 and fuel = 20000 and s = ref_server and c = "ref_request ''a'' ''''" and
      w = "second_world (ref_cluster idle_agent [])"]
  by (auto simp: second_world_def mono_def wait_seconds_def)

text \<open>
  Whatever the server does, the keepalive handler reads only the agent it is about, sleeps for two seconds at a time, and
  patches an agent only to wake it: the agent was paused, and the patch unpauses it and sets three annotations.
\<close>

lemma keepalive_requests:
  assumes "(q, oc) \<in> set (sent (handleKeepalive fuel s c) w)"
  shows "keepalive_may (nsName s c) q"
  using emits_sent [OF may_handleKeepalive assms] by simp

text \<open>
  It reports \<open>running\<close> only if the server showed it the agent in the phase \<open>Running\<close>, and then
  the phase it reports is this one.
\<close>

lemma keepalive_running:
  assumes "fst (run_state (handleKeepalive fuel s c) w) = Some (respondOK (PKeepalive ''running'' phase elapsed url))"
  shows "phase = AgentPhaseRunning \<and> (\<exists>k a k'. get_agent (s_Client s) (nsName s c) k = (Inr a, k') \<and>
    status_Phase (agent_Status a) = AgentPhaseRunning)"
proof -
  let ?w = "w\<lparr>clock := \<lambda>i. clock w (Suc i)\<rparr>"
  let ?wake = "run_state (wakeAgent fuel s (nsName s c) (wait_seconds (query c ''wait'') * Second)) ?w"
  have "phase = AgentPhaseRunning \<and> (\<exists>u. fst ?wake = Some (Inr (AgentPhaseRunning, u)))"
    using assms by (auto simp: handleKeepalive_def Let_def monad_simps keepalive_status_def respondError_def respondOK_def
        split: prod.splits option.splits sum.splits if_splits)
  then show ?thesis using wakeAgent_running by blast
qed

text \<open>
  C24. Against a server that keeps the API's documentation and has no other writer, a keepalive of a paused agent leaves
  it stored with its spec unchanged except that it is not paused, and touches no other object.
\<close>

theorem keepalive_wakes:
  fixes w :: "('k, 'h, 'c) world" and s :: "('k, 'h, 'c) Server" and fuel :: nat
  assumes "kube_api (s_Client s) agents pods services" and "agents (kube w) (nsName s c) = Some a"
    and "spec_Paused (agent_Spec a)"
  defines "k \<equiv> kube (snd (run_state (handleKeepalive fuel s c) w))"
  shows "\<exists>a'. agents k = (agents (kube w))(nsName s c \<mapsto> a') \<and> agent_Spec a' = (agent_Spec a)\<lparr>spec_Paused := False\<rparr> \<and>
    agent_Status a' = agent_Status a \<and> pods k = pods (kube w) \<and> services k = services (kube w)"
proof -
  let ?m = "woken (format_rfc3339 (clock w 1)) a"
  have key: "agent_key a = nsName s c" using kube_api.agents_key [OF assms(1,2)] .
  then have "agents (kube w) (agent_key ?m) = Some a" using assms(2) by simp
  from kube_api.patch_agent_there [OF assms(1) this, of a]
  obtain k' where k': "patch_agent (s_Client s) a ?m (kube w) = (Inr (patched_agent a ?m a), k')"
    "agents k' = (agents (kube w))(nsName s c \<mapsto> patched_agent a ?m a)" "pods k' = pods (kube w)"
    "services k' = services (kube w)"
    by (auto simp: key)
  have "k = k'"
    using kube_api.kube_handleKeepalive [OF assms(1) refl assms(2,3)] k'(1) by (simp add: k_def)
  with k'(2-4) show ?thesis by (auto simp: merged_spec_onto_base)
qed

lemma keepalive_requests_example:
  "keepalive_may (''default'', ''a'') (GetAgent (''default'', ''a''))"
  using keepalive_requests [where q = "GetAgent (''default'', ''a'')" and s = ref_server and
      c = "ref_request ''a'' ''''" and fuel = 1 and w = "second_world empty_cluster" and oc = "Refused no_such"]
  by (simp add: sent_def handleKeepalive_def wakeAgent_def monad_simps second_world_def ref_kube_reads
      ref_agents_def empty_cluster_def no_such_def)

text \<open>An agent that runs, and one that is paused.\<close>

definition running_agent :: Agent where
  "running_agent = update_status (\<lambda>st. st\<lparr>status_Phase := AgentPhaseRunning\<rparr>) idle_agent"

lemma running_agent_simps [simp]:
  "agent_key running_agent = (''default'', ''a'')" "agent_Spec running_agent = agent_Spec idle_agent"
  "status_Phase (agent_Status running_agent) = AgentPhaseRunning"
  by (simp_all add: running_agent_def agent_key_def)

lemma keepalive_running_example:
  "\<exists>elapsed url. fst (run_state (handleKeepalive 1 ref_server (ref_request ''a'' ''''))
       (second_world (ref_cluster running_agent []))) =
     Some (respondOK (PKeepalive ''running'' AgentPhaseRunning elapsed url)) \<and>
   (\<exists>k a k'. get_agent ref_kube (''default'', ''a'') k = (Inr a, k') \<and> status_Phase (agent_Status a) = AgentPhaseRunning)"
proof -
  obtain elapsed url where "fst (run_state (handleKeepalive 1 ref_server (ref_request ''a'' ''''))
       (second_world (ref_cluster running_agent []))) =
     Some (respondOK (PKeepalive ''running'' AgentPhaseRunning elapsed url))"
    using ref_cluster_simps(1) [of running_agent]
    by (simp add: handleKeepalive_def wakeAgent_def monad_simps Let_def second_world_def ref_kube_reads keepalive_status_def)
  from this keepalive_running [OF this] show ?thesis by auto
qed

theorem keepalive_wakes_witness:
  "\<exists>a'. ref_agents (kube (snd (run_state (handleKeepalive 1 ref_server (ref_request ''a'' ''''))
      (second_world (ref_cluster ref_paused []))))) (''default'', ''a'') = Some a' \<and> \<not> spec_Paused (agent_Spec a')"
  using keepalive_wakes [where s = ref_server and c = "ref_request ''a'' ''''" and fuel = 1 and a = ref_paused and
      w = "second_world (ref_cluster ref_paused [])", unfolded ref_server_simps, OF ref_kube.kube_api_axioms]
    ref_cluster_simps(1) [of ref_paused]
  by (auto simp: second_world_def)

end
