(* ===== verification/Rest_Logs.thy ===== *)
theory Rest_Logs
  imports Rest_Server
begin

text \<open>
  \<open>handleGetLogs\<close> of \<open>internal/rest/handlers.go\<close>, and the lookup of the configuration of \<open>internal/rest/kubeconfig.go\<close>.
  The clientset that opens a log stream is not code of the repository. To the handler it is a source that either
  cannot be built, or refuses the stream, or delivers some bytes and then the end of the stream or an error (one of
  them the 60-second timeout of the handler's context); \<open>pod_logs\<close> is the source that the server uses. A followed
  stream is copied line by line with a \<open>bufio.Scanner\<close> of Go's library.
\<close>

section \<open>The scanner\<close>

abbreviation nl :: char where "nl \<equiv> CHR 0x0A"
abbreviation cr :: char where "cr \<equiv> CHR 0x0D"

text \<open>
  The bytes between newlines, and what follows the last one if it is not empty; \<open>bufio.ScanLines\<close>
  drops one carriage return at the end of each.
\<close>

function raw_lines :: "string \<Rightarrow> string list" where
  "raw_lines [] = []"
| "raw_lines (c # cs) = takeWhile (\<lambda>x. x \<noteq> nl) (c # cs) # raw_lines (tl (dropWhile (\<lambda>x. x \<noteq> nl) (c # cs)))"
  by pat_completeness auto

termination
  by (relation "measure length") (auto simp: less_Suc_eq_le intro: le_trans [OF diff_le_self length_dropWhile_le])

definition drop_cr :: "string \<Rightarrow> string" where
  "drop_cr l = (if l \<noteq> [] \<and> last l = cr then butlast l else l)"

text \<open>
  The buffer grows to \<open>bufio.MaxScanTokenSize\<close> bytes. A line that fills it before its newline stops the
  scanner for good; at the end of the stream and at an error the rest is a line.
\<close>

definition MaxScanTokenSize :: nat where "MaxScanTokenSize = 65536"

definition scanned_lines :: "string \<Rightarrow> string list" where
  "scanned_lines bytes = map drop_cr (takeWhile (\<lambda>l. length l < MaxScanTokenSize) (raw_lines bytes))"

section \<open>The handler\<close>

record PodLogOptions =
  log_Container :: string
  log_TailLines :: int
  log_Follow :: bool
  log_SinceSeconds :: "int option"

datatype log_source =
    NoClientset string
  | NoStream string
  | LogStream string "string option" \<comment> \<open>the bytes, and the error that follows them, if any\<close>

definition log_options :: "Request \<Rightarrow> PodLogOptions" where
  "log_options c =
     \<lparr>log_Container = DefaultQuery c ''container'' ''agent'',
      log_TailLines = (if query c ''tailLines'' \<noteq> '''' then
          (case parse_int (query c ''tailLines'') of Some n \<Rightarrow> n | None \<Rightarrow> 100) else 100),
      log_Follow = (query c ''follow'' = ''true''),
      log_SinceSeconds = (if query c ''sinceSeconds'' \<noteq> '''' then parse_int (query c ''sinceSeconds'') else None)\<rparr>"

text \<open>\<open>fmt.Fprintf(c.Writer, "%s\n", scanner.Text())\<close> for every line of the scanner.\<close>

definition copied :: "string \<Rightarrow> string" where
  "copied bytes = concat (map (\<lambda>l. l @ [nl]) (scanned_lines bytes))"

definition serve_logs :: "PodLogOptions \<Rightarrow> log_source \<Rightarrow> Response" where
  "serve_logs opts src = (case src of
     NoClientset err \<Rightarrow> respondError 500 (''failed to create k8s clientset: '' @ err)
   | NoStream err \<Rightarrow> respondError 500 (''error opening log stream: '' @ err)
   | LogStream bytes err \<Rightarrow>
       if log_Follow opts then respondStatus 200 '''' (PText (copied bytes))
       else (case err of
               Some e \<Rightarrow> respondError 500 (''error reading logs: '' @ e)
             | None \<Rightarrow> respondStatus 200 '''' (PText bytes)))"

text \<open>
  The clientset: \<open>getRestConfig\<close> of \<open>kubeconfig.go\<close> prefers the configuration of the cluster, then the file of
  \<open>KUBECONFIG\<close>, then the one in the home directory. What the environment holds and what client-go makes of
  it are parameters; an \<open>Inl\<close> is the text of an error.
\<close>

record ('cfg, 'cs) ClientGo =
  InClusterConfig :: "string + 'cfg"
  KUBECONFIG :: string
  UserHomeDir :: "string + string"
  BuildConfigFromFlags :: "string \<Rightarrow> string + 'cfg"
  NewForConfig :: "'cfg \<Rightarrow> string + 'cs"
  StreamLogs :: "'cs \<Rightarrow> nn \<Rightarrow> PodLogOptions \<Rightarrow> string + string \<times> string option"

definition getRestConfig :: "('cfg, 'cs) ClientGo \<Rightarrow> string + 'cfg" where
  "getRestConfig G = (case InClusterConfig G of
     Inr cfg \<Rightarrow> Inr cfg
   | Inl _ \<Rightarrow> BuildConfigFromFlags G
       (if KUBECONFIG G = '''' then (case UserHomeDir G of Inr home \<Rightarrow> home @ ''/.kube/config'' | Inl _ \<Rightarrow> '''')
        else KUBECONFIG G))"

definition rawClientset :: "('cfg, 'cs) ClientGo \<Rightarrow> string + 'cs" where
  "rawClientset G = (case getRestConfig G of Inl err \<Rightarrow> Inl err | Inr cfg \<Rightarrow> NewForConfig G cfg)"

definition pod_logs :: "('cfg, 'cs) ClientGo \<Rightarrow> nn \<Rightarrow> PodLogOptions \<Rightarrow> log_source" where
  "pod_logs G n opts = (case rawClientset G of
     Inl err \<Rightarrow> NoClientset err
   | Inr cs \<Rightarrow> (case StreamLogs G cs n opts of
       Inl err \<Rightarrow> NoStream err
     | Inr (bytes, err) \<Rightarrow> LogStream bytes err))"

definition handleGetLogs ::
  "(nn \<Rightarrow> PodLogOptions \<Rightarrow> log_source) \<Rightarrow> ('k, 'h, 'c) Server \<Rightarrow> Request \<Rightarrow> ('k, 'h, 'c, Response) prog" where
  "handleGetLogs logs s c = with_agent s (nsName s c) (\<lambda>agent.
     let podName = status_PodName (agent_Status agent) in
     if podName = '''' then ret (respondError 404 ''agent has no running pod'')
     else ret (serve_logs (log_options c) (logs (fst (nsName s c), podName) (log_options c))))"

lemma emits_handleGetLogs [emits_intros]: "P (GetAgent (nsName s c)) \<Longrightarrow> emits P (handleGetLogs logs s c)"
  unfolding handleGetLogs_def Let_def by (intro emits_intros)

section \<open>What the scanner passes on\<close>

lemma span_line [simp]:
  "nl \<notin> set l \<Longrightarrow> takeWhile (\<lambda>x. x \<noteq> nl) (l @ nl # cs) = l"
  "nl \<notin> set l \<Longrightarrow> dropWhile (\<lambda>x. x \<noteq> nl) (l @ nl # cs) = nl # cs"
  by (induction l) auto

lemma raw_lines_step:
  "bytes \<noteq> [] \<Longrightarrow> raw_lines bytes =
     takeWhile (\<lambda>x. x \<noteq> nl) bytes # raw_lines (tl (dropWhile (\<lambda>x. x \<noteq> nl) bytes))"
  by (cases bytes) simp_all

declare raw_lines.simps(2) [simp del]

lemma raw_lines_line [simp]: "nl \<notin> set l \<Longrightarrow> raw_lines (l @ nl # cs) = l # raw_lines cs"
  by (simp add: raw_lines_step)

lemma span_rest [simp]:
  "nl \<notin> set l \<Longrightarrow> takeWhile (\<lambda>x. x \<noteq> nl) l = l" "nl \<notin> set l \<Longrightarrow> dropWhile (\<lambda>x. x \<noteq> nl) l = []"
  by (induction l) auto

lemma raw_lines_rest [simp]: "nl \<notin> set l \<Longrightarrow> l \<noteq> [] \<Longrightarrow> raw_lines l = [l]"
  by (simp add: raw_lines_step)

lemma raw_lines_text:
  "\<forall>l \<in> set ls. nl \<notin> set l \<Longrightarrow> raw_lines (concat (map (\<lambda>l. l @ [nl]) ls) @ rest) = ls @ raw_lines rest"
  by (induction ls) simp_all

text \<open>Joining the lines of a text again gives the text, up to a newline at its end.\<close>

lemma join_raw_lines:
  "concat (map (\<lambda>l. l @ [nl]) (raw_lines bytes)) = (if bytes = [] \<or> last bytes = nl then bytes else bytes @ [nl])
   \<and> (\<forall>l \<in> set (raw_lines bytes). nl \<notin> set l)"
proof (induction "length bytes" arbitrary: bytes rule: less_induct)
  case less
  show ?case
  proof (cases "nl \<in> set bytes")
    case True
    then obtain l cs where "bytes = l @ nl # cs" "nl \<notin> set l" by (meson split_list_first)
    with less [of cs] show ?thesis by auto
  next
    case False
    then have "bytes = [] \<or> last bytes \<noteq> nl" using last_in_set [of bytes] by metis
    then show ?thesis using False by (cases "bytes = []") auto
  qed
qed

lemma drop_cr_id [simp]: "l = [] \<or> last l \<noteq> cr \<Longrightarrow> drop_cr l = l"
  by (auto simp: drop_cr_def)

definition plain_line :: "string \<Rightarrow> bool" where
  "plain_line l \<longleftrightarrow> length l < MaxScanTokenSize \<and> (l = [] \<or> last l \<noteq> cr)"

lemma copied_after_text:
  assumes "initial = [] \<or> last initial = nl" and "\<forall>l \<in> set (raw_lines initial). plain_line l"
  shows "copied (initial @ rest) = initial @ copied rest"
proof -
  have "initial @ rest = concat (map (\<lambda>l. l @ [nl]) (raw_lines initial)) @ rest"
    using assms(1) join_raw_lines [of initial] by simp
  then have "raw_lines (initial @ rest) = raw_lines initial @ raw_lines rest"
    using raw_lines_text join_raw_lines [of initial] by metis
  moreover have "takeWhile (\<lambda>l. length l < MaxScanTokenSize) (raw_lines initial @ ls) =
      raw_lines initial @ takeWhile (\<lambda>l. length l < MaxScanTokenSize) ls" for ls
    using assms(2) by (intro takeWhile_append2) (simp add: plain_line_def)
  moreover have "map drop_cr (raw_lines initial) = raw_lines initial"
    using assms(2) by (intro map_idI) (simp add: plain_line_def)
  moreover have "concat (map (\<lambda>l. l @ [nl]) (raw_lines initial)) = initial"
    using assms(1) join_raw_lines [of initial] by simp
  ultimately show ?thesis by (simp add: copied_def scanned_lines_def)
qed

lemma copied_line:
  "nl \<notin> set l \<Longrightarrow> copied (l @ nl # rest) = (if length l < MaxScanTokenSize then drop_cr l @ nl # copied rest else [])"
  by (simp add: copied_def scanned_lines_def)

text \<open>
  C39. A client that follows the log of a pod gets every line up to the first one of 65536 bytes or more:
  a text of shorter lines without carriage returns arrives as it was written, a short line after it loses at most a
  carriage return, and after a long line nothing arrives, whatever the pod writes.
\<close>

theorem followed_log_output:
  assumes "get_agent (s_Client s) (nsName s c) (kube w) = (Inr agent, k)" and "status_PodName (agent_Status agent) \<noteq> ''''"
    and "query c ''follow'' = ''true''"
    and "logs (fst (nsName s c), status_PodName (agent_Status agent)) (log_options c) = LogStream (initial @ l @ nl # rest) err"
    and "initial = [] \<or> last initial = nl" and "\<forall>l \<in> set (raw_lines initial). plain_line l" and "nl \<notin> set l"
  shows "fst (run_state (handleGetLogs logs s c) w) = respondStatus 200 ''''
    (PText (if length l < MaxScanTokenSize then initial @ drop_cr l @ nl # copied rest else initial))"
  using assms(1-4)
  by (simp add: handleGetLogs_def with_agent_def monad_simps Let_def serve_logs_def log_options_def
      copied_after_text [OF assms(5,6)] copied_line [OF assms(7)])

definition logging_agent :: Agent where
  "logging_agent = update_status (\<lambda>st. st\<lparr>status_PodName := ''a-0''\<rparr>) idle_agent"

lemma logging_agent_simps [simp]:
  "agent_key logging_agent = (''default'', ''a'')" "status_PodName (agent_Status logging_agent) = ''a-0''"
  by (simp_all add: logging_agent_def agent_key_def)

theorem followed_log_output_witness:
  "fst (run_state (handleGetLogs (\<lambda>_ _. LogStream (''ok'' @ nl # replicate 65536 (CHR ''x'') @ nl # ''hidden'') None)
       ref_server ((ref_request ''a'' '''')\<lparr>p_query := [''follow'' \<mapsto> ''true'']\<rparr>))
     (clock_world (ref_cluster logging_agent []) (NewInMemoryHistory 0) NewInMemoryCache 0)) =
   respondStatus 200 '''' (PText (''ok'' @ [nl]))"
  using followed_log_output [where s = ref_server and c = "(ref_request ''a'' '''')\<lparr>p_query := [''follow'' \<mapsto> ''true'']\<rparr>"
      and w = "clock_world (ref_cluster logging_agent []) (NewInMemoryHistory 0) NewInMemoryCache 0"
      and agent = logging_agent and initial = "''ok'' @ [nl]" and l = "replicate 65536 (CHR ''x'')" and rest = "''hidden''"
      and err = None and logs = "\<lambda>_ _. LogStream (''ok'' @ nl # replicate 65536 (CHR ''x'') @ nl # ''hidden'') None"]
    ref_cluster_simps(1) [of logging_agent] raw_lines_line [of "''ok''" "[]"]
  by (simp add: ref_kube_reads query_def plain_line_def MaxScanTokenSize_def nsName_def ref_request_def)
end
