(* ===== verification/Rest_Routes.thy ===== *)
theory Rest_Routes
  imports Rest_Lifecycle Rest_Cache Rest_Keepalive Rest_Logs Run_Logic
begin

text \<open>
  The routes of \<open>internal/rest/server.go\<close>, as the table that \<open>registerRoutes\<close> hands to gin, and what holds
  of every route of it. Which entry of the table a request reaches is decided by gin's router, which is not
  code of the repository, so the theorems are about all entries. The route of the Swagger UI has a
  third-party handler and is left out.
\<close>

section \<open>The table\<close>

datatype meth = GET | POST | PUT | PATCH | DELETE | OPTIONS

text \<open>The body of a request, decoded into the type that the handler at hand binds it to.\<close>

record Body =
  body_Create :: "string + CreateAgentRequest"
  body_Update :: "string + UpdateAgentRequest"
  body_SetEnv :: "string + EnvVar slice"
  body_MergeEnv :: "string + EnvVar slice"
  body_Cache :: "string + CacheSetRequest"

text \<open>A handler of the table; only the keepalive handler can run out of fuel.\<close>

type_synonym ('k, 'h, 'c) handler = "Request \<Rightarrow> Body \<Rightarrow> ('k, 'h, 'c, Response option) prog"

definition returns :: "(Request \<Rightarrow> ('k, 'h, 'c, Response) prog) \<Rightarrow> ('k, 'h, 'c) handler" where
  "returns h c b = do { r \<leftarrow> h c; ret (Some r) }"

definition with_body ::
  "(Body \<Rightarrow> 'b) \<Rightarrow> (Request \<Rightarrow> 'b \<Rightarrow> ('k, 'h, 'c, Response) prog) \<Rightarrow> ('k, 'h, 'c) handler" where
  "with_body f h c b = do { r \<leftarrow> h c (f b); ret (Some r) }"

record ('k, 'h, 'c) Route =
  rt_Method :: meth
  rt_Path :: string
  rt_Handler :: "('k, 'h, 'c) handler"

abbreviation route :: "meth \<Rightarrow> string \<Rightarrow> ('k, 'h, 'c) handler \<Rightarrow> ('k, 'h, 'c) Route" where
  "route m p h \<equiv> \<lparr>rt_Method = m, rt_Path = p, rt_Handler = h\<rparr>"

text \<open>The parameters of the library code that a server calls: the clientset, and fuel for the keepalive loop.\<close>

record Deps =
  d_logs :: "nn \<Rightarrow> PodLogOptions \<Rightarrow> log_source"
  d_fuel :: nat

definition named_routes :: "Deps \<Rightarrow> ('k, 'h, 'c) Server \<Rightarrow> ('k, 'h, 'c) Route list" where
  "named_routes d s =
    [route GET '''' (returns (handleGetAgent s)),
     route GET ''/history'' (returns (handleGetAgentHistory s)),
     route PUT '''' (with_body body_Update (handleUpdateAgent s)),
     route DELETE '''' (returns (handleDeleteAgent s)),
     route POST ''/restart'' (returns (handleRestartAgent s)),
     route POST ''/stop'' (returns (handleStopAgent s)),
     route POST ''/start'' (returns (handleStartAgent s)),
     route POST ''/disable-healing'' (returns (handleDisableSelfHealing s)),
     route POST ''/enable-healing'' (returns (handleEnableSelfHealing s)),
     route POST ''/keepalive'' (\<lambda>c b. handleKeepalive (d_fuel d) s c),
     route GET ''/env'' (returns (handleGetEnv s)),
     route PUT ''/env'' (with_body body_SetEnv (handleSetEnv s)),
     route PATCH ''/env'' (with_body body_MergeEnv (handleMergeEnv s)),
     route DELETE ''/env/:key'' (returns (handleDeleteEnvKey s)),
     route GET ''/logs'' (returns (handleGetLogs (d_logs d) s)),
     route GET ''/cache'' (returns (handleListCache s)),
     route GET ''/cache/:field'' (returns (handleGetCacheField s)),
     route PUT ''/cache/:field'' (with_body body_Cache (handleSetCacheField s)),
     route DELETE ''/cache/:field'' (returns (handleDeleteCacheField s)),
     route DELETE ''/cache'' (returns (handleClearCache s))]"

text \<open>A group: a prefix for the paths, and middleware in front of the handlers.\<close>

definition group ::
  "string \<Rightarrow> (('k, 'h, 'c) handler \<Rightarrow> ('k, 'h, 'c) handler) \<Rightarrow> ('k, 'h, 'c) Route list \<Rightarrow> ('k, 'h, 'c) Route list" where
  "group prefix middleware = map (\<lambda>r. route (rt_Method r) (prefix @ rt_Path r) (middleware (rt_Handler r)))"

definition touching :: "('k, 'h, 'c) Server \<Rightarrow> ('k, 'h, 'c) handler \<Rightarrow> ('k, 'h, 'c) handler" where
  "touching s h c b = activityMiddleware s c (h c b)"

definition registerAgentRoutes :: "Deps \<Rightarrow> ('k, 'h, 'c) Server \<Rightarrow> ('k, 'h, 'c) Route list" where
  "registerAgentRoutes d s =
    [route POST '''' (with_body body_Create (handleCreateAgent s)),
     route GET '''' (returns (handleListAgents s)),
     route GET ''/services'' (returns (handleListAgentServices s))]
    @ group ''/:name'' (touching s) (named_routes d s)"

text \<open>The headers that it sets are not part of a \<open>Response\<close>.\<close>

definition corsMiddleware :: "meth \<Rightarrow> ('k, 'h, 'c) handler \<Rightarrow> ('k, 'h, 'c) handler" where
  "corsMiddleware m h c b = (if m = OPTIONS then ret (Some (respondStatus 204 '''' PNone)) else h c b)"

definition registerRoutes :: "Deps \<Rightarrow> ('k, 'h, 'c) Server \<Rightarrow> ('k, 'h, 'c) Route list" where
  "registerRoutes d s =
    [route GET ''/api/v1/info'' (returns (handleInfo s)),
     route GET ''/healthz'' (returns (handleHealthz s)),
     route GET ''/readyz'' (returns (handleReadyz s))]
    @ group ''/api/v1/namespaces/:namespace/agents'' id (registerAgentRoutes d s)
    @ group ''/api/v1/agents'' id (registerAgentRoutes d s)"

text \<open>What a request that gin routes to \<open>r\<close> does.\<close>

definition serve_route :: "('k, 'h, 'c) Route \<Rightarrow> ('k, 'h, 'c) handler" where
  "serve_route r = corsMiddleware (rt_Method r) (rt_Handler r)"

section \<open>All routes at once\<close>

text \<open>A property of a method and a handler that the middleware keeps holds of the table if it holds of each handler.\<close>

definition all_routes :: "(meth \<Rightarrow> ('k, 'h, 'c) handler \<Rightarrow> bool) \<Rightarrow> ('k, 'h, 'c) Route list \<Rightarrow> bool" where
  "all_routes Q rs \<longleftrightarrow> (\<forall>r \<in> set rs. Q (rt_Method r) (rt_Handler r))"

lemma all_routes_simps [simp]:
  "all_routes Q []" "all_routes Q (r # rs) \<longleftrightarrow> Q (rt_Method r) (rt_Handler r) \<and> all_routes Q rs"
  "all_routes Q (rs @ rs') \<longleftrightarrow> all_routes Q rs \<and> all_routes Q rs'"
  "all_routes Q (group p id rs) \<longleftrightarrow> all_routes Q rs"
  by (auto simp: all_routes_def group_def)

lemma all_routes_group:
  "(\<And>m h. Q m h \<Longrightarrow> Q m (mw h)) \<Longrightarrow> all_routes Q rs \<Longrightarrow> all_routes Q (group p mw rs)"
  by (auto simp: all_routes_def group_def)

lemma all_routesI:
  assumes "\<And>m h. Q m h \<Longrightarrow> Q m (touching s h)" and "all_routes Q (named_routes d s)"
    and "Q GET (returns (handleInfo s))" "Q GET (returns (handleHealthz s))" "Q GET (returns (handleReadyz s))"
    and "Q POST (with_body body_Create (handleCreateAgent s))" "Q GET (returns (handleListAgents s))"
      "Q GET (returns (handleListAgentServices s))"
  shows "all_routes Q (registerRoutes d s)"
  using assms(3-) all_routes_group [of Q, OF assms(1,2)] by (simp add: registerRoutes_def registerAgentRoutes_def)

section \<open>What the routes send\<close>

definition rest_keys :: "string set" where
  "rest_keys = {restartAtKey, startedAtKey, stoppedAtKey, wakeReasonKey}"

text \<open>The patches of the handlers: three fields of the spec and four annotations.\<close>

definition rest_patch :: "Agent \<Rightarrow> Agent \<Rightarrow> bool" where
  "rest_patch b m \<longleftrightarrow> agent_Status m = agent_Status b \<and>
     (agent_Meta m)\<lparr>meta_Annotations := agent_Annotations b\<rparr> = agent_Meta b \<and>
     (\<forall>k. k \<notin> rest_keys \<longrightarrow> entries (agent_Annotations m) k = entries (agent_Annotations b) k) \<and>
     agent_Spec m = (agent_Spec b)\<lparr>spec_Env := spec_Env (agent_Spec m), spec_Paused := spec_Paused (agent_Spec m),
       spec_SelfHealingDisabled := spec_SelfHealingDisabled (agent_Spec m)\<rparr>"

fun rest_may :: "nn \<Rightarrow> meth \<Rightarrow> kcall \<Rightarrow> bool" where
  "rest_may n m (GetAgent n') \<longleftrightarrow> n' = n"
| "rest_may n m (ListAgents ns few) \<longleftrightarrow> m = GET \<and> (ns = Some (fst n) \<or> few = Some 1)"
| "rest_may n m (CreateAgent a) \<longleftrightarrow> m = POST \<and> agent_Namespace a = fst n"
| "rest_may n m (UpdateAgent a) \<longleftrightarrow> m = PUT"
| "rest_may n m (PatchAgent b a) \<longleftrightarrow> m \<noteq> GET \<and> rest_patch b a"
| "rest_may n m (DeleteAgent a) \<longleftrightarrow> m = DELETE"
| "rest_may n m (SleepFor d) \<longleftrightarrow> m = POST"
| "rest_may n m _ = False"

lemma rest_keys_simps [simp]:
  "k \<notin> rest_keys \<Longrightarrow> k \<noteq> restartAtKey" "k \<notin> rest_keys \<Longrightarrow> k \<noteq> startedAtKey"
  "k \<notin> rest_keys \<Longrightarrow> k \<noteq> stoppedAtKey" "k \<notin> rest_keys \<Longrightarrow> k \<noteq> wakeReasonKey"
  by (auto simp: rest_keys_def)

lemma rest_patch_annotate: "k \<in> rest_keys \<Longrightarrow> rest_patch b m \<Longrightarrow> rest_patch b (annotate k v m)"
  by (auto simp: rest_patch_def annotate_def)

lemma rest_patch_spec:
  "rest_patch b (update_spec (\<lambda>sp. sp\<lparr>spec_Paused := p\<rparr>) b)"
  "rest_patch b (update_spec (\<lambda>sp. sp\<lparr>spec_SelfHealingDisabled := p\<rparr>) b)"
  "rest_patch b (set_env env b)" "rest_patch b b"
  by (cases "agent_Spec b"; simp add: rest_patch_def set_env_def)+

lemma rest_patch_woken [simp]: "rest_patch b (woken now b)"
  unfolding woken_def by (intro rest_patch_annotate rest_patch_spec) (simp_all add: rest_keys_def)

lemma keys_in [simp]:
  "restartAtKey \<in> rest_keys" "startedAtKey \<in> rest_keys" "stoppedAtKey \<in> rest_keys" "wakeReasonKey \<in> rest_keys"
  by (simp_all add: rest_keys_def)

definition sends_only :: "('k, 'h, 'c) Server \<Rightarrow> meth \<Rightarrow> ('k, 'h, 'c) handler \<Rightarrow> bool" where
  "sends_only s m h \<longleftrightarrow> (\<forall>c b. emits (rest_may (nsName s c) m) (h c b))"

lemma sends_only_intros:
  "(\<And>c. emits (rest_may (nsName s c) m) (h c)) \<Longrightarrow> sends_only s m (returns h)"
  "(\<And>c b. emits (rest_may (nsName s c) m) (h' c b)) \<Longrightarrow> sends_only s m (with_body f h')"
  by (simp_all add: sends_only_def returns_def with_body_def emits_bind emits_ret)

lemma sends_only_touching: "sends_only s m h \<Longrightarrow> sends_only s m (touching s h)"
  unfolding sends_only_def touching_def activityMiddleware_def TouchActivity_def Let_def by (intro allI emits_intros) simp

lemma sends_reading:
  "sends_only s GET (returns (handleInfo s))" "sends_only s GET (returns (handleHealthz s))"
  "sends_only s GET (returns (handleReadyz s))" "sends_only s GET (returns (handleListAgents s))"
  "sends_only s GET (returns (handleListAgentServices s))" "sends_only s GET (returns (handleGetAgent s))"
  "sends_only s GET (returns (handleGetAgentHistory s))" "sends_only s GET (returns (handleGetEnv s))"
  "sends_only s GET (returns (handleGetLogs logs s))"
  unfolding handleInfo_def handleHealthz_def handleReadyz_def handleListAgents_def handleListAgentServices_def
    handleGetAgent_def handleGetAgentHistory_def handleGetEnv_def Let_def
  by (intro sends_only_intros emits_intros; simp)+

lemma sends_writing:
  "sends_only s POST (with_body body_Create (handleCreateAgent s))"
  "sends_only s PUT (with_body body_Update (handleUpdateAgent s))"
  "sends_only s DELETE (returns (handleDeleteAgent s))"
  unfolding handleCreateAgent_def handleUpdateAgent_def handleDeleteAgent_def delete_now_def
  by (intro sends_only_intros emits_intros; simp add: requested_agent_def rest_patch_spec)+

lemma sends_patching:
  "sends_only s POST (returns (handleRestartAgent s))" "sends_only s POST (returns (handleStopAgent s))"
  "sends_only s POST (returns (handleStartAgent s))" "sends_only s POST (returns (handleDisableSelfHealing s))"
  "sends_only s POST (returns (handleEnableSelfHealing s))" "sends_only s PUT (with_body body_SetEnv (handleSetEnv s))"
  "sends_only s PATCH (with_body body_MergeEnv (handleMergeEnv s))" "sends_only s DELETE (returns (handleDeleteEnvKey s))"
  unfolding handleRestartAgent_def handleStopAgent_def handleStartAgent_def handleDisableSelfHealing_def
    handleEnableSelfHealing_def handleSetEnv_def handleMergeEnv_def handleDeleteEnvKey_def Let_def
  by (intro sends_only_intros emits_intros; simp add: rest_patch_annotate rest_patch_spec)+

lemma sends_cache:
  "sends_only s m (returns (handleListCache s))" "sends_only s m (returns (handleGetCacheField s))"
  "sends_only s m (with_body f (handleSetCacheField s))" "sends_only s m (returns (handleDeleteCacheField s))"
  "sends_only s m (returns (handleClearCache s))"
  by (intro sends_only_intros emits_intros)+

lemma sends_keepalive: "sends_only s POST (\<lambda>c b. handleKeepalive fuel s c)"
  unfolding sends_only_def
proof (intro allI)
  fix c :: Request and b :: Body
  have "rest_may (nsName s c) POST q" if "keepalive_may (nsName s c) q" for q
    using that by (cases q) auto
  then show "emits (rest_may (nsName s c) POST) (handleKeepalive fuel s c)"
    by (rule emits_mono [OF may_handleKeepalive])
qed

lemma routes_send: "all_routes (sends_only s) (registerRoutes d s)"
  by (intro all_routesI sends_only_touching)
    (simp_all add: named_routes_def sends_reading sends_writing sends_patching sends_cache sends_keepalive)

section \<open>What the routes answer\<close>

text \<open>The status codes of the API; an error has a message and no data, a success no message.\<close>

definition proper :: "Response \<Rightarrow> bool" where
  "proper r \<longleftrightarrow> resp_Code r \<in> {200, 201, 204, 400, 404, 409, 500, 503} \<and>
     (if 400 \<le> resp_Code r then resp_Status r = ''error'' \<and> resp_Data r = PNone
      else resp_Status r \<noteq> ''error'' \<and> resp_Message r = '''')"

lemma proper_simps [simp]:
  "proper (respondOK d)" "proper (respondCreated d)"
  "proper (respondError code msg) \<longleftrightarrow> code \<in> {400, 404, 409, 500, 503}"
  "code \<in> {200, 201, 204} \<Longrightarrow> st \<noteq> ''error'' \<Longrightarrow> proper (respondStatus code st d)"
  by (auto simp: proper_def respondOK_def respondCreated_def respondError_def respondStatus_def)

lemma proper_cases [simp]:
  "proper (case x of Inl e \<Rightarrow> f e | Inr a \<Rightarrow> g a) \<longleftrightarrow> (\<forall>e. x = Inl e \<longrightarrow> proper (f e)) \<and> (\<forall>a. x = Inr a \<longrightarrow> proper (g a))"
  "proper (case y of None \<Rightarrow> r | Some v \<Rightarrow> h v) \<longleftrightarrow> (y = None \<longrightarrow> proper r) \<and> (\<forall>v. y = Some v \<longrightarrow> proper (h v))"
  "proper (if b then r else r') \<longleftrightarrow> (b \<longrightarrow> proper r) \<and> (\<not> b \<longrightarrow> proper r')"
  by (auto split: sum.split option.split)

lemma proper_logs [simp]: "proper (serve_logs opts src)"
  by (simp add: serve_logs_def split: log_source.split)

lemma yields_with_agent [yields_intros]: "(\<And>a. yields proper (f a)) \<Longrightarrow> yields proper (with_agent s n f)"
  unfolding with_agent_def by (intro yields_intros) simp_all

lemma yields_with_patch [yields_intros]: "(\<And>a. yields proper (f a)) \<Longrightarrow> yields proper (with_patch s b m f)"
  unfolding with_patch_def by (intro yields_intros) simp_all

definition answers_properly :: "meth \<Rightarrow> ('k, 'h, 'c) handler \<Rightarrow> bool" where
  "answers_properly m h \<longleftrightarrow> (\<forall>c b. yields (pred_option proper) (h c b))"

lemma answers_intros:
  "(\<And>c. yields proper (h c)) \<Longrightarrow> answers_properly m (returns h)"
  "(\<And>c b. yields proper (h' c b)) \<Longrightarrow> answers_properly m (with_body f h')"
  by (auto simp: answers_properly_def returns_def with_body_def intro!: yields_bind_result [where Q = proper] yields_ret)

lemma answers_touching: "answers_properly m h \<Longrightarrow> answers_properly m (touching s h)"
  unfolding answers_properly_def touching_def activityMiddleware_def by (intro allI yields_bind) simp

lemma answers_reading:
  "answers_properly m (returns (handleInfo s))" "answers_properly m (returns (handleHealthz s))"
  "answers_properly m (returns (handleReadyz s))" "answers_properly m (returns (handleListAgents s))"
  "answers_properly m (returns (handleListAgentServices s))" "answers_properly m (returns (handleGetAgent s))"
  "answers_properly m (returns (handleGetAgentHistory s))" "answers_properly m (returns (handleGetEnv s))"
  "answers_properly m (returns (handleGetLogs logs s))"
  unfolding handleInfo_def handleHealthz_def handleReadyz_def handleListAgents_def handleListAgentServices_def
    handleGetAgent_def handleGetAgentHistory_def handleGetEnv_def handleGetLogs_def Let_def
  by (intro answers_intros yields_intros; simp)+

lemma answers_writing:
  "answers_properly m (with_body f1 (handleCreateAgent s))" "answers_properly m (with_body f2 (handleUpdateAgent s))"
  "answers_properly m (returns (handleDeleteAgent s))" "answers_properly m (returns (handleRestartAgent s))"
  "answers_properly m (returns (handleStopAgent s))" "answers_properly m (returns (handleStartAgent s))"
  "answers_properly m (returns (handleDisableSelfHealing s))" "answers_properly m (returns (handleEnableSelfHealing s))"
  "answers_properly m (with_body f3 (handleSetEnv s))" "answers_properly m (with_body f4 (handleMergeEnv s))"
  "answers_properly m (returns (handleDeleteEnvKey s))"
  unfolding handleCreateAgent_def handleUpdateAgent_def handleDeleteAgent_def delete_now_def handleRestartAgent_def
    handleStopAgent_def handleStartAgent_def handleDisableSelfHealing_def handleEnableSelfHealing_def
    handleSetEnv_def handleMergeEnv_def handleDeleteEnvKey_def Let_def
  by (intro answers_intros yields_intros; simp)+

lemma answers_cache:
  "answers_properly m (returns (handleListCache s))" "answers_properly m (returns (handleGetCacheField s))"
  "answers_properly m (with_body f (handleSetCacheField s))" "answers_properly m (returns (handleDeleteCacheField s))"
  "answers_properly m (returns (handleClearCache s))"
  unfolding cache_handler_defs Let_def by (intro answers_intros yields_intros; simp)+

lemma answers_keepalive: "answers_properly m (\<lambda>c b. handleKeepalive fuel s c)"
  unfolding answers_properly_def handleKeepalive_def Let_def by (intro allI yields_intros) simp_all

lemma routes_answer: "all_routes answers_properly (registerRoutes d s)"
  by (intro all_routesI answers_touching)
    (simp_all add: named_routes_def answers_reading answers_writing answers_cache answers_keepalive)

section \<open>A missing agent\<close>

text \<open>The routes of a named agent that need the agent itself.\<close>

definition cache_paths :: "string set" where
  "cache_paths = {''/cache'', ''/cache/:field''}"

definition agent_routes :: "Deps \<Rightarrow> ('k, 'h, 'c) Server \<Rightarrow> ('k, 'h, 'c) Route list" where
  "agent_routes d s = filter (\<lambda>r. rt_Path r \<notin> cache_paths) (named_routes d s)"

definition decoded :: "Body \<Rightarrow> bool" where
  "decoded b \<longleftrightarrow> \<not> isl (body_Update b) \<and> \<not> isl (body_SetEnv b) \<and> \<not> isl (body_MergeEnv b)"

lemma decodedD:
  "decoded b \<Longrightarrow> \<exists>u v m. body_Update b = Inr u \<and> body_SetEnv b = Inr v \<and> body_MergeEnv b = Inr m"
  unfolding decoded_def by (metis isl_def sum.exhaust)

text \<open>A run that reads the agent, is told that there is none, and ends.\<close>

definition reports_missing :: "nn \<Rightarrow> kerr \<Rightarrow> ('k, 'h, 'c) world \<Rightarrow> Response option \<times> ('k, 'h, 'c) world \<Rightarrow> bool" where
  "reports_missing n e w x \<longleftrightarrow> fst x = Some (respondError 404 ''agent not found'') \<and>
     calls (snd x) = calls w @ [(GetAgent n, Refused e)] \<and>
     hist (snd x) = hist w \<and> cach (snd x) = cach w \<and> evts (snd x) = evts w \<and> spawned (snd x) = spawned w"

lemma missing_with_agent:
  assumes "get_agent (s_Client s) n (kube w) = (Inl e, k)" and "IsNotFound e"
  shows "h c = with_agent s n f \<Longrightarrow> reports_missing n e w (run_state (returns h c b) w)"
    and "h' c (g b) = with_agent s n f \<Longrightarrow> reports_missing n e w (run_state (with_body g h' c b) w)"
  using assms by (simp_all add: reports_missing_def returns_def with_body_def with_agent_def monad_simps)

lemma missing_keepalive:
  assumes "get_agent (s_Client s) (nsName s c) (kube w) = (Inl e, k)" and "IsNotFound e"
  shows "reports_missing (nsName s c) e w (run_state (handleKeepalive fuel s c) w)"
  using assms by (simp add: reports_missing_def handleKeepalive_def wakeAgent_def Let_def monad_simps)

lemma missing_agent_routes:
  assumes e: "get_agent (s_Client s) (nsName s c) (kube w) = (Inl e, k)" "IsNotFound e" and "decoded b"
  shows "list_all (\<lambda>r. reports_missing (nsName s c) e w (run_state (rt_Handler r c b) w)) (agent_routes d s)"
proof -
  obtain u v m where b: "body_Update b = Inr u" "body_SetEnv b = Inr v" "body_MergeEnv b = Inr m"
    using decodedD [OF assms(3)] by blast
  show ?thesis
    by (simp add: agent_routes_def named_routes_def cache_paths_def)
      (intro conjI missing_keepalive [OF e] missing_with_agent [OF e];
        simp add: b handleGetAgent_def handleGetAgentHistory_def handleUpdateAgent_def handleDeleteAgent_def
          handleRestartAgent_def handleStopAgent_def handleStartAgent_def handleDisableSelfHealing_def
          handleEnableSelfHealing_def handleGetEnv_def handleSetEnv_def handleMergeEnv_def handleDeleteEnvKey_def
          handleGetLogs_def prod.case_eq_if)
qed

section \<open>Requests and the idle watcher\<close>

text \<open>The routes of a named agent that do not write its cache.\<close>

definition calm_routes :: "Deps \<Rightarrow> ('k, 'h, 'c) Server \<Rightarrow> ('k, 'h, 'c) Route list" where
  "calm_routes d s = filter (\<lambda>r. (rt_Method r, rt_Path r) \<noteq> (DELETE, '''')) (agent_routes d s)"

lemma keeps_publish [keeps_intros]:
  "keeps_cache (record_event a re m)" "keeps_cache (record_history s n re m)" "keeps_cache (publish s a n re m)"
  "keeps_cache rfc3339_now"
  by (simp_all add: keeps_cache_def publish_def record_event_def record_history_def stamped_def timestamp_def
      Eventf_def append_event_def rfc3339_now_def monad_simps split: option.split)

lemma keeps_with_agent [keeps_intros]: "(\<And>a. keeps_cache (f a)) \<Longrightarrow> keeps_cache (with_agent s n f)"
  unfolding with_agent_def by (intro keeps_intros)

lemma keeps_with_patch [keeps_intros]: "(\<And>a. keeps_cache (f a)) \<Longrightarrow> keeps_cache (with_patch s b m f)"
  unfolding with_patch_def by (intro keeps_intros)

lemma keeps_poll [keeps_intros]: "keeps_cache (poll fuel s n deadline phase)"
  by (induction fuel arbitrary: phase) (auto intro!: keeps_intros)

lemma keeps_keepalive: "keeps_cache (handleKeepalive fuel s c)"
  unfolding handleKeepalive_def wakeAgent_def unpause_def await_def Let_def by (intro keeps_intros)

lemma keeps_handlers:
  "keeps_cache (handleGetAgent s c)" "keeps_cache (handleGetAgentHistory s c)" "keeps_cache (handleUpdateAgent s c bu)"
  "keeps_cache (handleRestartAgent s c)" "keeps_cache (handleStopAgent s c)" "keeps_cache (handleStartAgent s c)"
  "keeps_cache (handleDisableSelfHealing s c)" "keeps_cache (handleEnableSelfHealing s c)"
  "keeps_cache (handleGetEnv s c)" "keeps_cache (handleSetEnv s c be)" "keeps_cache (handleMergeEnv s c be)"
  "keeps_cache (handleDeleteEnvKey s c)" "keeps_cache (handleGetLogs logs s c)"
  unfolding handleGetAgent_def handleGetAgentHistory_def handleUpdateAgent_def handleRestartAgent_def
    handleStopAgent_def handleStartAgent_def handleDisableSelfHealing_def handleEnableSelfHealing_def
    handleGetEnv_def handleSetEnv_def handleMergeEnv_def handleDeleteEnvKey_def handleGetLogs_def Let_def
  by (intro keeps_intros)+

lemma calm_routes_keep: "list_all (\<lambda>r. keeps_cache (rt_Handler r c b)) (calm_routes d s)"
  by (simp add: calm_routes_def agent_routes_def named_routes_def cache_paths_def returns_def with_body_def
      keeps_bind keeps_ret keeps_handlers keeps_keepalive)

lemma run_touching:
  assumes "s_idleWatcher s = Some wt" and "p_name c \<noteq> ''''" and "r \<in> set (calm_routes d s)"
  shows "cach (snd (run_state (touching s (rt_Handler r) c b) w)) =
    cach (snd (run_state (TouchActivity wt (fst (nsName s c)) (snd (nsName s c))) w))"
proof -
  have "keeps_cache (rt_Handler r c b)"
    using calm_routes_keep [of c b d s] assms(3) by (simp add: list_all_iff)
  then show ?thesis
    using assms(1,2) by (simp add: touching_def activityMiddleware_def Let_def nsName_def run_TouchActivity monad_simps
        keepsD split: prod.split)
qed

section \<open>Properties\<close>

text \<open>gin panics when a method and a path are registered twice; that does not happen.\<close>

lemma routes_distinct: "distinct (map (\<lambda>r. (rt_Method r, rt_Path r)) (registerRoutes d s))"
  by (simp add: registerRoutes_def registerAgentRoutes_def named_routes_def group_def)





section \<open>A concrete request\<close>

definition ref_deps :: Deps where
  "ref_deps = \<lparr>d_logs = (\<lambda>_ _. NoStream ''container not found''), d_fuel = 1\<rparr>"

definition ref_body :: Body where
  "ref_body = \<lparr>body_Create = Inl ''EOF'', body_Update = Inr \<lparr>upd_Image = ''i'', upd_ImagePullPolicy = '''', upd_Env = None,
       upd_EnvFrom = None, upd_Resources = K8sValue '''', upd_Command = None, upd_Args = None, upd_ServiceAccount = '''',
       upd_RestartPolicy = '''', upd_PodLabels = None, upd_PodAnnotations = None, upd_IdleTimeout = None\<rparr>,
     body_SetEnv = Inr None, body_MergeEnv = Inr None, body_Cache = Inl ''EOF''\<rparr>"

abbreviation get_route :: "(cluster, InMemoryHistory, InMemoryCache) Route" where
  "get_route \<equiv> route GET '''' (returns (handleGetAgent ref_server))"

abbreviation registered_get :: "(cluster, InMemoryHistory, InMemoryCache) Route" where
  "registered_get \<equiv> route GET ''/api/v1/agents/:name'' (touching ref_server (rt_Handler get_route))"

lemma get_route_registered:
  "registered_get \<in> set (registerRoutes ref_deps ref_server)" "get_route \<in> set (agent_routes ref_deps ref_server)"
  "get_route \<in> set (calm_routes ref_deps ref_server)"
  by (simp_all add: registerRoutes_def registerAgentRoutes_def group_def agent_routes_def calm_routes_def
      named_routes_def cache_paths_def)

lemma run_get_route:
  "run_state (returns (handleGetAgent ref_server) (ref_request n f) b) w =
     (Some (case ref_agents (kube w) (''default'', n) of None \<Rightarrow> respondError 404 ''agent not found'' | Some a \<Rightarrow> respondOK (PAgent a)),
      w\<lparr>calls := calls w @ [(GetAgent (''default'', n),
        case ref_agents (kube w) (''default'', n) of None \<Rightarrow> Refused no_such | Some a \<Rightarrow> Done)]\<rparr>)"
  by (simp add: returns_def handleGetAgent_def with_agent_def monad_simps ref_kube_reads no_such_def split: option.split)

lemma run_registered_get:
  "n \<noteq> '''' \<Longrightarrow> run_state (serve_route registered_get (ref_request n f) b) w =
     run_state (returns (handleGetAgent ref_server) (ref_request n f) b)
       (snd (run_state (TouchActivity ref_watcher ''default'' n) w))"
  by (simp add: serve_route_def corsMiddleware_def touching_def activityMiddleware_def run_TouchActivity)





end
