(* ===== verification/Resurrection_Loop.thy ===== *)
theory Resurrection_Loop
  imports Agent_Controller
begin

text \<open>
  \<open>resurrectAgentAsync\<close> of \<open>internal/controller/agent_controller.go\<close>, the goroutine that recreates
  an agent after its finalizer was removed. The loop over the 15 attempts is a recursion over their
  numbers, so it ends by construction; what it sends, how long it sleeps and how it can end is proved for every client.
\<close>

section \<open>The goroutine\<close>

definition resurrected_agent :: "Resurrection \<Rightarrow> int \<Rightarrow> Agent" where
  "resurrected_agent rs now =
     \<lparr>agent_Meta = empty_meta\<lparr>meta_Name := res_name rs, meta_Namespace := res_namespace rs,
        meta_Labels := res_labels rs,
        meta_Annotations := Some ((entries (res_annotations rs))
          (resurrectedAtKey \<mapsto> format_rfc3339 now, resurrectionUidKey \<mapsto> res_originalUID rs))\<rparr>,
      agent_Spec = res_spec rs, agent_Status = empty_status\<rparr>"

text \<open>
  One pass of the loop; the result says whether the function returns. The message is passed to
  \<open>Eventf\<close> as its format; it holds no percent sign, since UIDs and times hold none.
\<close>

definition resurrect_attempt ::
  "('k, 'h) AgentReconciler \<Rightarrow> Resurrection \<Rightarrow> Agent \<Rightarrow> nat \<Rightarrow> ('k, 'h, 'c, bool) prog" where
  "resurrect_attempt r rs resurrected attempt = do {
     Sleep (int attempt * (300 * Millisecond));
     msg \<leftarrow> stamped (''Agent self-healed: recreated after external deletion (original UID ''
        @ res_originalUID rs @ '', attempt '' @ int_str (int attempt) @ '')'');
     x \<leftarrow> Create_agent (r_Client r) resurrected;
     case x of
       Inr newAgent \<Rightarrow> do {
         Eventf newAgent EventTypeNormal ''Resurrected'' msg;
         appendHistory r newAgent EventTypeNormal ''Resurrected'' msg;
         ret True }
     | Inl e \<Rightarrow>
         if \<not> IsAlreadyExists e then ret False
         else do {
           y \<leftarrow> Get_agent (r_Client r) (res_namespace rs, res_name rs);
           ret (case y of Inl _ \<Rightarrow> False
                | Inr existing \<Rightarrow> meta_UID (agent_Meta existing) \<noteq> res_originalUID rs) } }"

definition give_up :: "Resurrection \<Rightarrow> ('k, 'h, 'c, unit) prog" where
  "give_up rs = do {
     let stub = \<lparr>agent_Meta = empty_meta\<lparr>meta_Name := res_name rs, meta_Namespace := res_namespace rs\<rparr>,
                 agent_Spec = empty_spec, agent_Status = empty_status\<rparr>;
     m \<leftarrow> stamped (''Self-healing failed: could not recreate Agent '' @ res_namespace rs @ ''/'' @ res_name rs
        @ '' after 15 attempts (original UID '' @ res_originalUID rs @ '')'');
     Eventf stub EventTypeWarning ''ResurrectionFailed'' m }"

fun resurrect_loop ::
  "('k, 'h) AgentReconciler \<Rightarrow> Resurrection \<Rightarrow> Agent \<Rightarrow> nat list \<Rightarrow> ('k, 'h, 'c, unit) prog" where
  "resurrect_loop r rs resurrected [] = give_up rs"
| "resurrect_loop r rs resurrected (attempt # attempts) = do {
     returned \<leftarrow> resurrect_attempt r rs resurrected attempt;
     if returned then ret () else resurrect_loop r rs resurrected attempts }"

definition resurrectAgentAsync ::
  "('k, 'h) AgentReconciler \<Rightarrow> Resurrection \<Rightarrow> ('k, 'h, 'c, unit) prog" where
  "resurrectAgentAsync r rs = do {
     now \<leftarrow> Now;
     resurrect_loop r rs (resurrected_agent rs now) [1..<16] }"

section \<open>Traces\<close>

fun is_create :: "kcall \<Rightarrow> bool" where
  "is_create (CreateAgent a) = True"
| "is_create _ = False"

fun slept :: "(kcall \<times> outcome) list \<Rightarrow> int" where
  "slept [] = 0"
| "slept ((SleepFor d, oc) # l) = d + slept l"
| "slept (x # l) = slept l"

lemma slept_append [simp]: "slept (l @ l') = slept l + slept l'"
  by (induction l rule: slept.induct) simp_all

abbreviation creations :: "(kcall \<times> outcome) list \<Rightarrow> (kcall \<times> outcome) list" where
  "creations \<equiv> filter (\<lambda>x. is_create (fst x))"

text \<open>The server shows, in some state, an agent of this name that is not the deleted one.\<close>

definition shows_another :: "('k, 'h) AgentReconciler \<Rightarrow> Resurrection \<Rightarrow> bool" where
  "shows_another r rs \<longleftrightarrow> (\<exists>k b k'. get_agent (r_Client r) (res_namespace rs, res_name rs) k = (Inr b, k') \<and>
     meta_UID (agent_Meta b) \<noteq> res_originalUID rs)"

text \<open>One attempt: what it sends, and the three ways it can end.\<close>

lemma run_attempt:
  "\<exists>fin w' l es oc. run_state (resurrect_attempt r rs a i) w = (fin, w') \<and>
     calls w' = calls w @ l \<and> evts w' = evts w @ es \<and> slept l = int i * (300 * Millisecond) \<and>
     creations l = [(CreateAgent a, oc)] \<and> l \<noteq> [] \<and>
     ((fin \<and> oc = Done \<and> last l = (CreateAgent a, Done) \<and> map evt_Reason es = [''Resurrected'']) \<or>
      (fin \<and> oc \<noteq> Done \<and> last l = (GetAgent (res_namespace rs, res_name rs), Done) \<and> es = [] \<and> shows_another r rs) \<or>
      (\<not> fin \<and> oc \<noteq> Done \<and> es = []))"
proof -
  obtain x s where x: "create_agent (r_Client r) a (kube w) = (x, s)" by fastforce
  obtain y s2 where y: "get_agent (r_Client r) (res_namespace rs, res_name rs) s = (y, s2)" by fastforce
  let ?sleep = "(SleepFor (int i * (300 * Millisecond)), Done)" and ?create = "(CreateAgent a, outcome_of x)"
    and ?get = "(GetAgent (res_namespace rs, res_name rs), outcome_of y)"
  show ?thesis
  proof (cases x)
    case (Inr b)
    then show ?thesis
      using x by (auto simp: resurrect_attempt_def stamped_def timestamp_def Eventf_def appendHistory_def
          append_event_def monad_simps split: option.split)
  next
    case (Inl e)
    show ?thesis
    proof (cases "IsAlreadyExists e")
      case False
      then show ?thesis
        using x Inl by (auto simp: resurrect_attempt_def stamped_def timestamp_def monad_simps)
    next
      case True
      then show ?thesis
        using x y Inl
        by (cases y) (auto simp: resurrect_attempt_def stamped_def timestamp_def monad_simps shows_another_def)
    qed
  qed
qed

text \<open>
  How a run over some attempts can end: with the first accepted creation and its event, silently
  because somebody else's agent was found, or with all creations refused and a warning.
\<close>

definition ended ::
  "bool \<Rightarrow> Agent \<Rightarrow> nn \<Rightarrow> nat \<Rightarrow> (kcall \<times> outcome) list \<Rightarrow> K8sEvent list \<Rightarrow> bool" where
  "ended another a n attempts l es \<longleftrightarrow>
     (l \<noteq> [] \<and> last l = (CreateAgent a, Done) \<and> map evt_Reason es = [''Resurrected''] \<and>
        (CreateAgent a, Done) \<notin> set (butlast l)) \<or>
     (l \<noteq> [] \<and> last l = (GetAgent n, Done) \<and> es = [] \<and> another \<and> (CreateAgent a, Done) \<notin> set l) \<or>
     (length (creations l) = attempts \<and> map evt_Reason es = [''ResurrectionFailed''] \<and>
        (CreateAgent a, Done) \<notin> set l)"

lemma only_creation:
  "creations l = [(CreateAgent a, oc)] \<Longrightarrow> (CreateAgent a, oc') \<in> set l \<Longrightarrow> oc' = oc"
proof -
  assume c: "creations l = [(CreateAgent a, oc)]" and l: "(CreateAgent a, oc') \<in> set l"
  from l have "(CreateAgent a, oc') \<in> set (creations l)" by simp
  then show "oc' = oc" unfolding c by simp
qed

lemma run_loop:
  "\<exists>l es. calls (snd (run_state (resurrect_loop r rs a is) w)) = calls w @ l \<and>
     evts (snd (run_state (resurrect_loop r rs a is) w)) = evts w @ es \<and>
     slept l \<le> int (sum_list is) * (300 * Millisecond) \<and> length (creations l) \<le> length is \<and>
     (\<forall>x \<in> set (creations l). fst x = CreateAgent a) \<and>
     ended (shows_another r rs) a (res_namespace rs, res_name rs) (length is) l es"
proof (induction "is" arbitrary: w)
  case Nil
  then show ?case
    by (rule exI [of _ "[]"])
      (simp add: give_up_def stamped_def timestamp_def Eventf_def monad_simps ended_def Let_def)
next
  case (Cons i "is")
  obtain fin w1 l1 es1 oc where run: "run_state (resurrect_attempt r rs a i) w = (fin, w1)"
    and l1: "calls w1 = calls w @ l1" "evts w1 = evts w @ es1" "slept l1 = int i * (300 * Millisecond)"
      "creations l1 = [(CreateAgent a, oc)]" "l1 \<noteq> []"
    and ends: "(fin \<and> oc = Done \<and> last l1 = (CreateAgent a, Done) \<and> map evt_Reason es1 = [''Resurrected'']) \<or>
      (fin \<and> oc \<noteq> Done \<and> last l1 = (GetAgent (res_namespace rs, res_name rs), Done) \<and> es1 = [] \<and> shows_another r rs) \<or>
      (\<not> fin \<and> oc \<noteq> Done \<and> es1 = [])"
    using run_attempt [of r rs a i w] by (elim exE conjE) (rule that)
  have refused: "(CreateAgent a, Done) \<notin> set l1" if "oc \<noteq> Done"
    using only_creation [OF l1(4), of Done] that by auto
  show ?case
  proof (cases fin)
    case True
    have "ended (shows_another r rs) a (res_namespace rs, res_name rs) (length (i # is)) l1 es1"
    proof (cases "oc = Done")
      case True
      have "creations (butlast l1 @ [last l1]) = [(CreateAgent a, Done)]" using l1(4,5) True by simp
      then have "creations (butlast l1) = []" using ends \<open>fin\<close> True by (auto simp: filter_empty_conv)
      then have "(CreateAgent a, Done) \<notin> set (butlast l1)" by (auto simp: filter_empty_conv)
      then show ?thesis using ends \<open>fin\<close> True l1(5) by (auto simp: ended_def)
    next
      case False
      then show ?thesis using ends refused \<open>fin\<close> l1(5) by (auto simp: ended_def)
    qed
    then show ?thesis using True run l1 by (intro exI [of _ l1] exI [of _ es1]) (auto simp: algebra_simps)
  next
    case False
    then have f: "oc \<noteq> Done" "es1 = []" using ends by auto
    obtain l es where l: "calls (snd (run_state (resurrect_loop r rs a is) w1)) = calls w1 @ l"
      "evts (snd (run_state (resurrect_loop r rs a is) w1)) = evts w1 @ es"
      "slept l \<le> int (sum_list is) * (300 * Millisecond)" "length (creations l) \<le> length is"
      "\<forall>x \<in> set (creations l). fst x = CreateAgent a"
      "ended (shows_another r rs) a (res_namespace rs, res_name rs) (length is) l es"
      using Cons.IH [of w1] by blast
    have e: "ended (shows_another r rs) a (res_namespace rs, res_name rs) (length (i # is)) (l1 @ l) es"
      using l(6) refused [OF f(1)] l1(4) by (auto simp: ended_def butlast_append)
    have s: "run_state (resurrect_loop r rs a (i # is)) w = run_state (resurrect_loop r rs a is) w1"
      using False run by simp
    have c: "calls (snd (run_state (resurrect_loop r rs a (i # is)) w)) = calls w @ (l1 @ l)"
      unfolding s l(1) l1(1) by simp
    have v: "evts (snd (run_state (resurrect_loop r rs a (i # is)) w)) = evts w @ es"
      unfolding s l(2) l1(2) f(2) by simp
    have d: "slept (l1 @ l) \<le> int (sum_list (i # is)) * (300 * Millisecond)"
      using l1(3) l(3) by (simp add: algebra_simps)
    have n: "length (creations (l1 @ l)) \<le> length (i # is)" using l1(4) l(4) by simp
    have m: "\<forall>x \<in> set (creations (l1 @ l)). fst x = CreateAgent a"
      using l(5) by (simp only: filter_append set_append l1(4) ball_Un list.set ball_simps fst_conv simp_thms)
    show ?thesis
      by (rule exI [of _ "l1 @ l"], rule exI [of _ es], intro conjI) (rule c, rule v, rule d, rule n, rule m, rule e)
  qed
qed

section \<open>Properties\<close>

text \<open>
  C11. Against any server, a resurrection sends at most 15 creations, all of the same agent, which has
  the name, namespace, labels and spec of the deleted one and its annotations plus two;
  it sleeps at most 36 seconds; and it ends in one of three ways: right after the first accepted
  creation, with a \<open>Resurrected\<close> event; silently, after reading an agent of the same name with another UID; or with 15
  refused creations and a \<open>ResurrectionFailed\<close> event. It never creates after a success.
\<close>

theorem resurrection_outcomes:
  fixes w :: "('k, 'h, 'c) world" and r :: "('k, 'h) AgentReconciler" and rs :: Resurrection
  defines "w' \<equiv> snd (run_state (resurrectAgentAsync r rs) (w\<lparr>calls := []\<rparr>))"
    and "a \<equiv> resurrected_agent rs (clock w 0)"
  shows "length (creations (calls w')) \<le> 15 \<and> slept (calls w') \<le> 36 * Second \<and>
    fst ` set (creations (calls w')) \<subseteq> {CreateAgent a} \<and>
    (\<exists>es. evts w' = evts w @ es \<and> ended (shows_another r rs) a (res_namespace rs, res_name rs) 15 (calls w') es) \<and>
    agent_Name a = res_name rs \<and> agent_Namespace a = res_namespace rs \<and> agent_Spec a = res_spec rs \<and>
    meta_Labels (agent_Meta a) = res_labels rs \<and>
    entries (agent_Annotations a) = (entries (res_annotations rs))
      (resurrectedAtKey \<mapsto> format_rfc3339 (clock w 0), resurrectionUidKey \<mapsto> res_originalUID rs)"
proof -
  let ?w = "w\<lparr>calls := [], clock := \<lambda>n. clock w (Suc n)\<rparr>"
  obtain "is" :: "nat list" where upto: "is = [1..<16]" by blast
  have w': "w' = snd (run_state (resurrect_loop r rs a is) ?w)"
    by (simp add: w'_def a_def resurrectAgentAsync_def monad_simps upto)
  have "sum_list is = 120" "length is = 15" by (simp_all add: upto upt_rec)
  with run_loop [of r rs a "is" ?w] have loop: "\<exists>l es. calls w' = l \<and> evts w' = evts w @ es \<and>
      slept l \<le> 36 * Second \<and> length (creations l) \<le> 15 \<and>
      (\<forall>x \<in> set (creations l). fst x = CreateAgent a) \<and> ended (shows_another r rs) a (res_namespace rs, res_name rs) 15 l es"
    unfolding w' by simp
  have payload: "agent_Name a = res_name rs" "agent_Namespace a = res_namespace rs" "agent_Spec a = res_spec rs"
    "meta_Labels (agent_Meta a) = res_labels rs"
    "entries (agent_Annotations a) = (entries (res_annotations rs))
       (resurrectedAtKey \<mapsto> format_rfc3339 (clock w 0), resurrectionUidKey \<mapsto> res_originalUID rs)"
    by (simp_all add: a_def resurrected_agent_def)
  show ?thesis using loop by (auto simp: payload)
qed

end
