(* ===== verification/Other_Writers.thy ===== *)
theory Other_Writers
  imports Interference Rest_Routes Resurrection_Loop
begin

text \<open>
  The other components of the program keep to what \<open>Interference\<close> assumes of the writers beside the reconciler:
  every request that a REST route, the idle watcher or a resurrection sends is benign.
\<close>

section \<open>REST routes\<close>

text \<open>Bodies that set no owner label, and a state in which the agents that can be read set none.\<close>

definition sets_no_owner :: "gomap \<Rightarrow> bool" where
  "sets_no_owner labels \<longleftrightarrow> entries labels podOwnerLabel = None"

definition harmless_body :: "Body \<Rightarrow> bool" where
  "harmless_body b \<longleftrightarrow> (\<forall>req. body_Create b = Inr req \<longrightarrow> sets_no_owner (req_PodLabels req)) \<and>
     (\<forall>req. body_Update b = Inr req \<longrightarrow> sets_no_owner (upd_PodLabels req))"

definition reads_harmless :: "'k Client \<Rightarrow> 'k \<Rightarrow> bool" where
  "reads_harmless C k \<longleftrightarrow> (\<forall>n a. fst (get_agent C n k) = Inr a \<longrightarrow> keeps_owner (agent_Spec a))"

definition sends_benign :: "('k, 'h, 'c) Server \<Rightarrow> meth \<Rightarrow> ('k, 'h, 'c) handler \<Rightarrow> bool" where
  "sends_benign s m h \<longleftrightarrow> (\<forall>c b w. harmless_body b \<longrightarrow> reads_harmless (s_Client s) (kube w) \<longrightarrow>
     (\<forall>x \<in> set (sent (h c b) w). benign (fst x)))"

lemma touching_silent:
  "\<exists>w'. run_state (touching s h c b) w = run_state (h c b) w' \<and> kube w' = kube w \<and> calls w' = calls w"
  by (auto simp: touching_def activityMiddleware_def Let_def run_TouchActivity split: option.split)

lemma sends_benign_touching: "sends_benign s m h \<Longrightarrow> sends_benign s m (touching s h)"
  unfolding sends_benign_def
proof (intro allI impI)
  fix c b and w :: "('a, 'b, 'c) world"
  assume h: "\<forall>c b w. harmless_body b \<longrightarrow> reads_harmless (s_Client s) (kube w) \<longrightarrow> (\<forall>x \<in> set (sent (h c b) w). benign (fst x))"
    and b: "harmless_body b" "reads_harmless (s_Client s) (kube w)"
  obtain w' where w': "run_state (touching s h c b) (w\<lparr>calls := []\<rparr>) = run_state (h c b) w'"
    "kube w' = kube w" "calls w' = []"
    using touching_silent [of s h c b "w\<lparr>calls := []\<rparr>"] by auto
  have "w'\<lparr>calls := []\<rparr> = w'" using w'(3) by simp
  with w' h b show "\<forall>x \<in> set (sent (touching s h c b) w). benign (fst x)" by (metis sent_def)
qed

lemma emits_sends: "(\<And>c b. harmless_body b \<Longrightarrow> emits benign (h c b)) \<Longrightarrow> sends_benign s m h"
  unfolding sends_benign_def using emits_sent by blast

lemma sends_benign_intros:
  "(\<And>c. emits benign (h c)) \<Longrightarrow> sends_benign s m (returns h)"
  "(\<And>c b. harmless_body b \<Longrightarrow> emits benign (h' c (f b))) \<Longrightarrow> sends_benign s m (with_body f h')"
  by (rule emits_sends; simp add: returns_def with_body_def emits_bind emits_ret)+

lemma benign_reading:
  "emits benign (handleInfo s c)" "emits benign (handleHealthz s c)" "emits benign (handleReadyz s c)"
  "emits benign (handleListAgents s c)" "emits benign (handleListAgentServices s c)" "emits benign (handleGetAgent s c)"
  "emits benign (handleGetAgentHistory s c)" "emits benign (handleGetEnv s c)" "emits benign (handleGetLogs logs s c)"
  unfolding handleInfo_def handleHealthz_def handleReadyz_def handleListAgents_def handleListAgentServices_def
    handleGetAgent_def handleGetAgentHistory_def handleGetEnv_def Let_def
  by (intro emits_intros; simp)+

lemma benign_patching:
  "emits benign (handleRestartAgent s c)" "emits benign (handleStopAgent s c)" "emits benign (handleStartAgent s c)"
  "emits benign (handleDisableSelfHealing s c)" "emits benign (handleEnableSelfHealing s c)"
  "emits benign (handleSetEnv s c e)" "emits benign (handleMergeEnv s c e)" "emits benign (handleDeleteEnvKey s c)"
  "emits benign (handleDeleteAgent s c)"
  unfolding handleRestartAgent_def handleStopAgent_def handleStartAgent_def handleDisableSelfHealing_def
    handleEnableSelfHealing_def handleSetEnv_def handleMergeEnv_def handleDeleteEnvKey_def handleDeleteAgent_def
    delete_now_def set_env_def Let_def
  by (intro emits_intros; simp add: annotate_def)+

lemma benign_create: "harmless_body b \<Longrightarrow> emits benign (handleCreateAgent s c (body_Create b))"
  unfolding handleCreateAgent_def
  by (intro emits_intros) (simp add: harmless_body_def requested_agent_def keeps_owner_def sets_no_owner_def)

lemma benign_keepalive: "emits benign (handleKeepalive fuel s c)"
proof (rule emits_mono [OF may_handleKeepalive])
  fix q show "keepalive_may (nsName s c) q \<Longrightarrow> benign q"
    by (cases q) (auto simp: woken_def annotate_def)
qed

lemma publish_calls:
  assumes "run_state (publish s a n re m) w = (x, w')"
  shows "calls w' = calls w"
proof -
  obtain l where "calls w' = calls w @ l" "\<forall>x \<in> set l. False"
    using emitsD [where P = "\<lambda>_. False" and m = "publish s a n re m" and w = w, OF emits_publish(3)] assms by auto
  then show ?thesis by (cases l) auto
qed

lemma update_trace:
  assumes "body_Update b = Inr req" and "get_agent (s_Client s) (nsName s c) (kube w) = (Inr a, k)"
  defines "u \<equiv> update_spec (apply_update req) a"
  shows "calls (snd (run_state (with_body body_Update (handleUpdateAgent s) c b) w)) =
    calls w @ [(GetAgent (nsName s c), Done), (UpdateAgent u, outcome_of (fst (update_agent (s_Client s) u k)))]"
  using assms(1,2) unfolding u_def
  by (auto simp: with_body_def handleUpdateAgent_def with_agent_def monad_simps dest!: publish_calls
      split: sum.split prod.split)

text \<open>An update sends the agent that it has read, with the labels of the body if it has any.\<close>

lemma benign_update: "sends_benign s m (with_body body_Update (handleUpdateAgent s))"
  unfolding sends_benign_def
proof (intro allI impI)
  fix c b and w :: "('a, 'b, 'c) world"
  assume b: "harmless_body b" "reads_harmless (s_Client s) (kube w)"
  show "\<forall>x \<in> set (sent (with_body body_Update (handleUpdateAgent s) c b) w). benign (fst x)"
  proof (cases "body_Update b")
    case (Inl e)
    then show ?thesis by (simp add: sent_def with_body_def handleUpdateAgent_def)
  next
    case (Inr req)
    obtain x k where x: "get_agent (s_Client s) (nsName s c) (kube w) = (x, k)" by fastforce
    show ?thesis
    proof (cases x)
      case (Inl e)
      then show ?thesis
        using \<open>body_Update b = Inr req\<close> x
        by (simp add: sent_def with_body_def handleUpdateAgent_def with_agent_def monad_simps)
    next
      case a: (Inr a)
      have keeps: "keeps_owner (agent_Spec a)" using b(2) x a unfolding reads_harmless_def by (metis fst_conv)
      have "entries (upd_PodLabels req) podOwnerLabel = None"
        using b(1) Inr by (simp add: harmless_body_def sets_no_owner_def)
      with keeps have "keeps_owner (apply_update req (agent_Spec a))"
        by (simp add: keeps_owner_def apply_update_def)
      then show ?thesis
        using update_trace [OF Inr, of s c "w\<lparr>calls := []\<rparr>" a k] x a by (simp add: sent_def)
    qed
  qed
qed

lemma routes_benign: "all_routes (sends_benign s) (registerRoutes d s)"
  by (intro all_routesI sends_benign_touching)
    (simp_all add: named_routes_def sends_benign_intros benign_update benign_reading benign_patching benign_create
      emits_cache_handlers emits_sends benign_keepalive)

section \<open>The watcher and resurrections\<close>

lemma benign_ticks: "emits benign (ticks wt m)"
proof (rule emits_mono [OF may_ticks])
  fix q show "watcher_may q \<Longrightarrow> benign q" by (cases q) (auto simp: is_pause_of_def)
qed

lemma benign_attempt: "keeps_owner (agent_Spec a) \<Longrightarrow> emits benign (resurrect_attempt r rs a i)"
  unfolding resurrect_attempt_def by (intro emits_intros) simp_all

lemma benign_resurrect_loop: "keeps_owner (agent_Spec a) \<Longrightarrow> emits benign (resurrect_loop r rs a is)"
  by (induction "is") (auto simp: give_up_def intro!: emits_intros benign_attempt)

lemma benign_resurrection: "keeps_owner (res_spec rs) \<Longrightarrow> emits benign (resurrectAgentAsync r rs)"
  unfolding resurrectAgentAsync_def
  by (intro emits_intros benign_resurrect_loop) (simp add: resurrected_agent_def)

section \<open>Properties\<close>

text \<open>
  C5. The writers beside the reconciler are as \<open>at_most_one_pod\<close> needs them, whatever the API server answers: a REST route
  sends only benign requests if the body sets no owner label and the agent that is read sets none, so does the idle watcher in any
  number of ticks, and so does a resurrection of an agent that sets none.
\<close>

theorem other_writers_benign:
  fixes w :: "('k, 'h, 'c) world" and w1 :: "('k1, 'h1, 'c1) world" and w2 :: "('k2, 'h2, 'c2) world"
  assumes "r \<in> set (registerRoutes d s)" and "harmless_body b" and "reads_harmless (s_Client s) (kube w)"
    and "keeps_owner (res_spec rs)"
  shows "(\<forall>x \<in> set (sent (serve_route r c b) w). benign (fst x)) \<and>
    (\<forall>x \<in> set (sent (ticks wt m) w1). benign (fst x)) \<and>
    (\<forall>x \<in> set (sent (resurrectAgentAsync rc rs) w2). benign (fst x))"
proof -
  have "sends_benign s (rt_Method r) (rt_Handler r)"
    using routes_benign [of s d] assms(1) by (simp add: all_routes_def)
  then have "\<forall>x \<in> set (sent (serve_route r c b) w). benign (fst x)"
    using assms(2,3) by (simp add: serve_route_def corsMiddleware_def sends_benign_def sent_def)
  moreover note emits_sent [OF benign_ticks] emits_sent [OF benign_resurrection [OF assms(4)]]
  ultimately show ?thesis by blast
qed

text \<open>A body that adds a label of its own, to the agent of the witnesses.\<close>

definition ref_labels :: UpdateAgentRequest where
  "ref_labels = \<lparr>upd_Image = '''', upd_ImagePullPolicy = '''', upd_Env = None, upd_EnvFrom = None,
     upd_Resources = K8sValue '''', upd_Command = None, upd_Args = None, upd_ServiceAccount = '''',
     upd_RestartPolicy = '''', upd_PodLabels = Some [''team'' \<mapsto> ''x''], upd_PodAnnotations = None, upd_IdleTimeout = None\<rparr>"

definition ref_update :: Body where
  "ref_update = ref_body\<lparr>body_Update := Inr ref_labels\<rparr>"

lemma ref_update_simps [simp]: "body_Update ref_update = Inr ref_labels"
  by (simp add: ref_update_def)

abbreviation put_route :: "(cluster, InMemoryHistory, InMemoryCache) Route" where
  "put_route \<equiv> route PUT ''/api/v1/agents/:name'' (touching ref_server (with_body body_Update (handleUpdateAgent ref_server)))"

theorem other_writers_benign_witness:
  "benign (UpdateAgent (update_spec (apply_update ref_labels) ref_agent)) \<and>
   (UpdateAgent (update_spec (apply_update ref_labels) ref_agent), Done) \<in>
     set (sent (serve_route put_route (ref_request ''a'' '''') ref_update) (mem_world (ref_cluster ref_agent [])))"
proof -
  let ?q = "UpdateAgent (update_spec (apply_update ref_labels) ref_agent)"
  have "put_route \<in> set (registerRoutes ref_deps ref_server)"
    by (simp add: registerRoutes_def registerAgentRoutes_def group_def named_routes_def)
  moreover have "harmless_body ref_update"
    by (simp add: harmless_body_def ref_update_def ref_body_def ref_labels_def sets_no_owner_def)
  moreover have "reads_harmless (s_Client ref_server) (kube (mem_world (ref_cluster ref_agent [])))"
    using owners_keptD [OF ref_owners] by (auto simp: reads_harmless_def ref_kube_reads split: option.splits)
  moreover have "keeps_owner (res_spec (resurrection_of ref_agent))"
    using owners_keptD [OF ref_owners ref_cluster_simps(1)] by (simp add: resurrection_of_def)
  ultimately have all: "\<forall>x \<in> set (sent (serve_route put_route (ref_request ''a'' '''') ref_update)
      (mem_world (ref_cluster ref_agent []))). benign (fst x)"
    using other_writers_benign [of put_route ref_deps ref_server ref_update] by blast
  have "(?q, Done) \<in> set (sent (serve_route put_route (ref_request ''a'' '''') ref_update) (mem_world (ref_cluster ref_agent [])))"
    using ref_cluster_simps(1) [of ref_agent]
    by (simp add: sent_def serve_route_def corsMiddleware_def touching_def activityMiddleware_def run_TouchActivity
        update_trace [OF ref_update_simps] ref_kube_reads) (simp add: ref_kube_def agent_key_def Let_def)
  with all show ?thesis by fastforce
qed

end
