(* ===== verification/Stale_Reads.thy ===== *)
theory Stale_Reads
  imports Reconcile_Convergence
begin

text \<open>
  The client of the reconciler is the one of the manager (\<open>Client: mgr.GetClient()\<close> in \<open>cmd/main.go\<close>), whose lists come
  from an informer cache that is behind the server for a while. What the reconciler does with such a list is the
  counterpart of the theorem \<open>at_most_one_pod\<close>, which assumes lists that are not stale.
\<close>

section \<open>Lists from the past\<close>

definition lagging :: "'k Client \<Rightarrow> 'k \<Rightarrow> 'k Client" where
  "lagging C past = C\<lparr>list_pods := \<lambda>ns sel k. (fst (list_pods C ns sel past), k)\<rparr>"

lemma lagging_simps [simp]:
  "list_pods (lagging C past) ns sel k = (fst (list_pods C ns sel past), k)"
  "get_agent (lagging C past) = get_agent C" "create_pod (lagging C past) = create_pod C"
  by (simp_all add: lagging_def)

context reconciler_env
begin

lemma stale_step:
  assumes a: "agents (kube w) n = Some a" and t: "tended a" and up: "\<not> spec_Paused (agent_Spec a)"
    and plain: "plain_pod a" and none: "live_pods (pods past) a = {}"
  shows "\<exists>p w'. snd (run_state (Reconcile (r\<lparr>r_Client := lagging C past\<rparr>) n) w) = w' \<and> p \<notin> pods (kube w) \<and>
    live_pods (pods (kube w')) a = insert p (live_pods (pods (kube w)) a) \<and> \<not> specChanged a p \<and>
    agents (kube w') = agents (kube w)"
proof -
  let ?r = "r\<lparr>r_Client := lagging C past\<rparr>"
  let ?w = "recorded (GetAgent n) (Inr a :: kerr + Agent) (kube w) w"
  obtain ps where ps: "list_pods C (agent_Namespace a) (pod_selector a) past = (Inr ps, past)" "find pod_live ps = None"
    using run_list [of a past] none by auto
  let ?u = "recorded (ListPods (agent_Namespace a) (pod_selector a)) (Inr ps :: kerr + Pod list) (kube w) ?w"
  have "run_state (Reconcile ?r n) w = run_state (reconcile_agent ?r a) ?w"
    using get_agent_found [OF a] by (intro run_Reconcile) simp
  also have "\<dots> = run_state (reconcile_missing ?r a) ?u"
    using t up ps run_findAgentPod [of ?r a ?w "Inr ps" "kube w"]
    by (simp add: reconcile_agent_def tended_def contains reconcile_found_def)
  finally have run: "run_state (Reconcile ?r n) w = run_state (reconcile_missing ?r a) ?u" .
  obtain x where own: "r_OwnPod r a (buildPod a) = Inr (buildPod a\<lparr>pod_Meta := (pod_Meta (buildPod a))\<lparr>meta_Owner := x\<rparr>\<rparr>)"
    using own_pod by blast
  let ?p = "buildPod a\<lparr>pod_Meta := (pod_Meta (buildPod a))\<lparr>meta_Owner := x\<rparr>\<rparr>"
  obtain p k' where k': "create_pod C ?p (kube w) = (Inr p, k')" "p \<notin> pods (kube w)" "pods k' = insert p (pods (kube w))"
    "meta_Namespace (pod_Meta p) = agent_Namespace a" "pod_Labels p = pod_Labels (buildPod a)"
    "pod_Annotations p = pod_Annotations (buildPod a)" "pod_live p" "agents k' = agents (kube w)"
    using create_pod_fresh [of ?p "kube w"] t by (auto simp: tended_def)
  have "live_pods (pods k') a = insert p (live_pods (pods (kube w)) a)"
    using k' plain_matches [OF plain] by (auto simp: live_pods_def)
  moreover have "kube (snd (run_state (reconcile_missing ?r a) ?u)) = k'"
    using k'(1) by (simp add: reconcile_missing_def report_creation_def createPod_def own monad_simps)
  ultimately show ?thesis using run k' plain_current [OF plain] by auto
qed

lemma stale_times:
  assumes a: "agents (kube w) n = Some a" and t: "tended a" and up: "\<not> spec_Paused (agent_Spec a)"
    and plain: "plain_pod a" and none: "live_pods (pods (kube w)) a = {}"
  defines "v \<equiv> \<lambda>j. reconcile_times j (r\<lparr>r_Client := lagging C (kube w)\<rparr>) n w"
  shows "finite (live_pods (pods (kube (v j))) a) \<and> card (live_pods (pods (kube (v j))) a) = j \<and>
    (\<forall>p \<in> live_pods (pods (kube (v j))) a. \<not> specChanged a p) \<and> agents (kube (v j)) n = Some a"
proof (induction j)
  case 0
  then show ?case using a none by (simp add: v_def)
next
  case (Suc j)
  then have "agents (kube (v j)) n = Some a" by simp
  from stale_step [OF this t up plain none] obtain p where "p \<notin> pods (kube (v j))"
    "live_pods (pods (kube (v (Suc j)))) a = insert p (live_pods (pods (kube (v j))) a)" "\<not> specChanged a p"
    "agents (kube (v (Suc j))) = agents (kube (v j))"
    by (auto simp: v_def)
  moreover from this(1) have "p \<notin> live_pods (pods (kube (v j))) a" by (simp add: live_pods_def)
  ultimately show ?case using Suc by simp
qed

text \<open>Reconciliations with lists that are up to date keep all live pods, if they are current.\<close>

lemma current_times:
  assumes "agents (kube w) n = Some a" and t: "tended a" and up: "\<not> spec_Paused (agent_Spec a)"
    and some: "live_pods (pods (kube w)) a \<noteq> {}" and current: "\<forall>p \<in> live_pods (pods (kube w)) a. \<not> specChanged a p"
  shows "pods (kube (reconcile_times m r n w)) = pods (kube w) \<and>
    (\<exists>b. same_spec a b \<and> agents (kube (reconcile_times m r n w)) n = Some b)"
proof (induction m)
  case 0
  then show ?case using assms(1) by auto
next
  case (Suc m)
  let ?v = "reconcile_times m r n w"
  obtain b where b: "same_spec a b" "agents (kube ?v) n = Some b" using Suc by blast
  have "\<not> spec_Paused (agent_Spec b)" using b(1) up by (simp add: same_spec_def)
  from step_current [OF b(2) _ this] show ?case
    using Suc b(1) t some current same_spec_cong [OF b(1)] same_spec_trans [OF b(1)] by auto
qed

lemma stale_lists_create:
  assumes "agents (kube w) n = Some a" and "tended a" and "\<not> spec_Paused (agent_Spec a)"
    and "plain_pod a" and "live_pods (pods (kube w)) a = {}" and "0 < j"
  shows "card (live_pods (pods (kube (reconcile_times m r n
    (reconcile_times j (r\<lparr>r_Client := lagging C (kube w)\<rparr>) n w)))) a) = j"
proof -
  let ?v = "reconcile_times j (r\<lparr>r_Client := lagging C (kube w)\<rparr>) n w"
  note v = stale_times [OF assms(1-5), of j]
  then have "live_pods (pods (kube ?v)) a \<noteq> {}" using assms(6) by auto
  with current_times [of ?v n a m] v assms(2,3) show ?thesis by simp
qed

end

section \<open>Properties\<close>

text \<open>
  C8. The reconciler trusts a list of pods that may be stale: if a list from before the first reconciliation is
  what the first \<open>j\<close> of them are given, they create \<open>j\<close> live pods for the one agent, and no number of later
  reconciliations with lists that are up to date removes one of them. Nothing in \<open>Reconcile\<close> guards against it: the
  generated names differ, and of several live pods only the first is looked at.
\<close>

theorem stale_lists_multiply_pods:
  fixes w :: "('k, 'h, 'c) world"
  assumes "reconciler_env C agents pods services r"
    and "agents (kube w) n = Some a" and "tended a" and "\<not> spec_Paused (agent_Spec a)"
    and "plain_pod a" and "live_pods (pods (kube w)) a = {}" and "0 < j"
  shows "card (live_pods (pods (kube (reconcile_times m r n
    (reconcile_times j (r\<lparr>r_Client := lagging C (kube w)\<rparr>) n w)))) a) = j"
  using assms by (rule reconciler_env.stale_lists_create)

theorem stale_lists_multiply_pods_witness:
  "card (live_pods (ref_pods (kube (reconcile_times 5 ref_reconciler (''default'', ''a'')
     (reconcile_times 2 (ref_reconciler\<lparr>r_Client := lagging ref_kube (ref_cluster ref_agent [])\<rparr>) (''default'', ''a'')
       (ref_world (ref_cluster ref_agent [])))))) ref_agent) = 2"
proof -
  have "ref_agents (kube (ref_world (ref_cluster ref_agent []))) (''default'', ''a'') = Some ref_agent"
    using ref_cluster_simps(1) [of ref_agent] by simp
  moreover have "live_pods (ref_pods (kube (ref_world (ref_cluster ref_agent [])))) ref_agent = {}"
    by (simp add: live_pods_def ref_pods_def)
  ultimately show ?thesis
    using stale_lists_multiply_pods [OF ref_reconciler_env _ ref_agent_tended(1,3,2), of "ref_world (ref_cluster ref_agent [])"]
    by simp
qed

end
