(* ===== verification/End_To_End.thy ===== *)
theory End_To_End
  imports Rest_Lifecycle Rest_Keepalive Run_Logic
begin

text \<open>
  The components together, on a cluster that nobody else writes to: a change of the environment variables over REST
  reaches the pod, and an idle agent is scaled to zero by the watcher and the reconciler and comes back with a keepalive.
\<close>

section \<open>A new spec reaches the pod\<close>

text \<open>The pod is one that the reconciler made for this very state of the spec.\<close>

definition reflects :: "Agent \<Rightarrow> Pod \<Rightarrow> bool" where
  "reflects a p \<longleftrightarrow> \<not> specChanged a p \<and> pod_Containers p = pod_Containers (buildPod a)"

lemma containers_of_spec: "agent_Spec a = agent_Spec b \<Longrightarrow> pod_Containers (buildPod a) = pod_Containers (buildPod b)"
  by (simp add: buildPod_def Let_def)

lemma live_pods_key: "agent_key a = agent_key b \<Longrightarrow> live_pods ps a = live_pods ps b"
  by (simp add: live_pods_def pod_selector_def agent_key_def)

context reconciler_env
begin

lemma spec_reaches_pod:
  assumes a: "agents (kube w) n = Some a" and t: "tended a"
    and spec: "spec_becomes agents pods services n a sp (kube w) (kube w2)"
    and sp: "\<not> spec_Paused sp" "spec_PodLabels sp = spec_PodLabels (agent_Spec a)"
      "spec_PodAnnotations sp = spec_PodAnnotations (agent_Spec a)"
    and plain: "plain_pod a" and most: "live_pods (pods (kube w)) a \<subseteq> {p0}"
    and up: "\<forall>p \<in> live_pods (pods (kube w)) a. reflects a p"
  shows "\<exists>p. pod_Containers p = pod_Containers (buildPod (a\<lparr>agent_Spec := sp\<rparr>)) \<and>
    (\<forall>j. live_pods (pods (kube (reconcile_times (j + 3) r n w2))) a = {p})"
proof -
  obtain b where b: "agents (kube w2) n = Some b" "agent_Spec b = sp" "agent_key b = agent_key a"
    "meta_Finalizers (agent_Meta b) = meta_Finalizers (agent_Meta a)"
    "meta_DeletionTimestamp (agent_Meta b) = meta_DeletionTimestamp (agent_Meta a)"
    "agent_Generation b = (if sp = agent_Spec a then agent_Generation a else agent_Generation a + 1)"
    "pods (kube w2) = pods (kube w)"
    using spec by (auto simp: spec_becomes_def)
  have live: "live_pods ps b = live_pods ps a" for ps using live_pods_key [OF b(3)] .
  have "tended b" "plain_pod b" "\<not> spec_Paused (agent_Spec b)"
    using t plain b sp by (simp_all add: tended_def plain_pod_def agent_key_def)
  then obtain p where p: "kept_or_built (pods (kube w2)) b p"
    "\<forall>j. live_pods (pods (kube (reconcile_times (j + 3) r n w2))) b = {p}"
    using converges [OF b(1), of p0] most live b(7) by metis
  have "pod_Containers p = pod_Containers (buildPod b)"
  proof (cases "p \<in> live_pods (pods (kube w)) a \<and> \<not> specChanged b p")
    case True
    then have r: "reflects a p" using up by blast
    then have "agent_Generation b = agent_Generation a"
      using True by (auto simp: reflects_def specChanged_def int_str_inject)
    then have "sp = agent_Spec a" using b(6) by (simp split: if_splits)
    then show ?thesis using r containers_of_spec [of a b] b(2) by (simp add: reflects_def)
  next
    case False
    then show ?thesis using p(1) live b(7) by (auto simp: kept_or_built_def)
  qed
  then show ?thesis using p(2) live containers_of_spec [of b "a\<lparr>agent_Spec := sp\<rparr>"] b(2) by auto
qed

end


lemma ref_pod_reflects: "reflects ref_agent ref_pod"
  using ref_pod_live(2) by (simp add: reflects_def ref_pod_def)


section \<open>Scaled to zero and back\<close>

text \<open>The stored agent after pauses: as it was listed, except that it may be paused by now.\<close>

definition pausable :: "Agent \<Rightarrow> Agent \<Rightarrow> bool" where
  "pausable b a \<longleftrightarrow> agent_key a = agent_key b \<and> meta_Finalizers (agent_Meta a) = meta_Finalizers (agent_Meta b) \<and>
     meta_DeletionTimestamp (agent_Meta a) = meta_DeletionTimestamp (agent_Meta b) \<and>
     agent_Spec a \<in> {agent_Spec b, (agent_Spec b)\<lparr>spec_Paused := True\<rparr>}"

lemma merged_pause: "\<not> spec_Paused b \<Longrightarrow> merged_spec b (b\<lparr>spec_Paused := True\<rparr>) s = s\<lparr>spec_Paused := True\<rparr>"
  by (simp add: merged_spec_def)

lemma pausable_patched:
  assumes "pausable b a" and "\<not> spec_Paused (agent_Spec b)" and "agent_Spec m = (agent_Spec b)\<lparr>spec_Paused := True\<rparr>"
  shows "pausable b (patched_agent b m a)" "agent_Spec (patched_agent b m a) = (agent_Spec b)\<lparr>spec_Paused := True\<rparr>"
  using assms by (auto simp: pausable_def merged_pause agent_key_def)

lemma replays_check: "replays (w_Client wt) (check wt)"
proof -
  have agent: "replays (w_Client wt) (check_agent wt now a)" for now a
    unfolding check_agent_def pauseAgent_def TouchActivity_def by (intro replays_intros)
  have "replays (w_Client wt) (check_all wt now as)" for now "as"
    by (induction "as") (auto intro!: replays_intros agent)
  then show ?thesis unfolding check_def by (intro replays_intros)
qed

context kube_api
begin

text \<open>The requests of a check pause agents, and do nothing else to the cluster.\<close>

lemma pauses:
  assumes "\<forall>x \<in> set l. watcher_may (fst x) \<and> (\<forall>b' m. fst x = PatchAgent b' m \<longrightarrow> b' \<in> set bs)"
    and "distinct (map agent_key bs)" and "\<forall>b' \<in> set bs. \<exists>a. agents k (agent_key b') = Some a \<and> pausable b' a" and "b \<in> set bs"
  shows "\<exists>a. agents (replayed C l k) (agent_key b) = Some a \<and> pausable b a \<and> pods (replayed C l k) = pods k \<and>
    (spec_Paused (agent_Spec (the (agents k (agent_key b)))) \<or> (\<exists>m oc. (PatchAgent b m, oc) \<in> set l) \<longrightarrow> spec_Paused (agent_Spec a))"
  using assms(1,3)
proof (induction l arbitrary: k)
  case Nil
  then obtain a where "agents k (agent_key b) = Some a" "pausable b a" using assms(4) by blast
  then show ?case by simp
next
  case (Cons x l)
  obtain q oc where x: "x = (q, oc)" by fastforce
  have step: "watcher_may q" "\<And>b' m. q = PatchAgent b' m \<Longrightarrow> b' \<in> set bs" using Cons.prems(1) x by auto
  have rest: "\<forall>x \<in> set l. watcher_may (fst x) \<and> (\<forall>b' m. fst x = PatchAgent b' m \<longrightarrow> b' \<in> set bs)"
    using Cons.prems(1) by simp
  show ?case
  proof (cases "\<exists>b' m. q = PatchAgent b' m")
    case False
    then have "q = ListAgents None None" using step(1) by (cases q) auto
    then have "after_call C q k = k" using list_agents_all [of k] by auto
    then show ?thesis using Cons.IH [OF rest Cons.prems(2)] x False by auto
  next
    case True
    then obtain b' m where q: "q = PatchAgent b' m" by blast
    then have b': "b' \<in> set bs" "\<not> spec_Paused (agent_Spec b')" "is_pause_of b' m" using step by auto
    obtain a where a: "agents k (agent_key b') = Some a" "pausable b' a" using Cons.prems(2) b'(1) by blast
    have m: "agent_key m = agent_key b'" "agent_Spec m = (agent_Spec b')\<lparr>spec_Paused := True\<rparr>"
      using b'(3) by (simp_all add: is_pause_of_def)
    note p = pausable_patched [OF a(2) b'(2) m(2)]
    obtain k' where k': "patch_agent C b' m k = (Inr (patched_agent b' m a), k')"
      "agents k' = (agents k)(agent_key b' \<mapsto> patched_agent b' m a)" "pods k' = pods k"
      using patch_agent_there [of k m a b'] a(1) m(1) by auto
    have "b'' = b'" if "b'' \<in> set bs" "agent_key b'' = agent_key b'" for b''
      using assms(2) b'(1) that by (metis distinct_map inj_on_def)
    then have stored: "\<forall>b'' \<in> set bs. \<exists>a. agents k' (agent_key b'') = Some a \<and> pausable b'' a"
      and paused: "spec_Paused (agent_Spec (the (agents k (agent_key b)))) \<or> b = b' \<Longrightarrow>
        spec_Paused (agent_Spec (the (agents k' (agent_key b))))"
      using Cons.prems(2) p k'(2) assms(4) by auto
    show ?thesis using Cons.IH [OF rest stored] x q k'(1,3) paused by auto
  qed
qed

text \<open>Unpausing by a keepalive, down to the metadata.\<close>

lemma keepalive_unpauses:
  assumes "s_Client s = C" and a: "agents (kube w) (nsName s c) = Some a" and paused: "spec_Paused (agent_Spec a)"
  shows "\<exists>a'. agents (kube (snd (run_state (handleKeepalive fuel s c) w))) (nsName s c) = Some a' \<and>
    agent_Spec a' = (agent_Spec a)\<lparr>spec_Paused := False\<rparr> \<and> agent_key a' = agent_key a \<and>
    meta_Finalizers (agent_Meta a') = meta_Finalizers (agent_Meta a) \<and>
    meta_DeletionTimestamp (agent_Meta a') = meta_DeletionTimestamp (agent_Meta a) \<and>
    pods (kube (snd (run_state (handleKeepalive fuel s c) w))) = pods (kube w)"
proof -
  let ?m = "woken (format_rfc3339 (clock w 1)) a"
  have key: "agent_key a = nsName s c" using agents_key [OF a] .
  then have "agents (kube w) (agent_key ?m) = Some a" using a by simp
  from patch_agent_there [OF this, of a]
  obtain k' where "patch_agent C a ?m (kube w) = (Inr (patched_agent a ?m a), k')"
    "agents k' = (agents (kube w))(nsName s c \<mapsto> patched_agent a ?m a)" "pods k' = pods (kube w)"
    by (auto simp: key)
  with kube_handleKeepalive [OF assms, of fuel] show ?thesis
    by (simp add: merged_spec_onto_base agent_key_def)
qed

end

text \<open>The agent is idle: it has been inactive since \<open>j\<close>, for at least its timeout.\<close>

definition idle_for :: "('k, 'c) Watcher \<Rightarrow> int \<Rightarrow> int \<Rightarrow> Agent \<Rightarrow> bool" where
  "idle_for wt now j b \<longleftrightarrow> \<not> spec_Paused (agent_Spec b) \<and> effective_timeout wt b \<noteq> 0 \<and>
     effective_timeout wt b \<le> sat64 (now - j)"

lemma check_pauses:
  assumes K: "kube_api (w_Client wt) agents pods services"
    and A: "activity_cache (w_Cache wt) seen back legal ttl_ok invar slack"
    and c: "invar (cach w)" "mono (clock w)" "activity_at seen (clock w 0) (cach w) n j" "calls w = []"
    and legal: "\<forall>m \<in> dom (agents (kube w)). legal (fst m) (snd m)"
    and b: "agents (kube w) n = Some b" "idle_for wt (clock w 0) j b"
  shows "\<exists>a. agents (kube (snd (run_state (check wt) w))) n = Some a \<and> pausable b a \<and> spec_Paused (agent_Spec a) \<and>
    pods (kube (snd (run_state (check wt) w))) = pods (kube w)"
proof -
  let ?l = "sent (check wt) w"
  obtain bs where bs: "list_agents (w_Client wt) None None (kube w) = (Inr bs, kube w)"
    "set bs = {a. agents (kube w) (agent_key a) = Some a}" "distinct (map agent_key bs)"
    using kube_api.list_agents_all [OF K] by blast
  have key: "agent_key b = n" and mem: "b \<in> set bs" using kube_api.agents_key [OF K b(1)] b(1) bs(2) by auto
  have items: "fst (list_agents (w_Client wt) None None (kube w)) = Inr bs" using bs(1) by simp
  have legals: "\<forall>b \<in> set bs. legal (agent_Namespace b) (agent_Name b)"
    using bs(2) legal by (force simp: agent_key_def)
  have "activity_cache.tracking seen legal invar n j w"
    using c legal b(1) by (force simp add: activity_cache.tracking_def [OF A])
  note tracked = activity_cache.check_tracking [OF A this refl items legals]
  have overdue: "activity_cache.overdue wt (clock w 0) j b"
    using b(2) unfolding idle_for_def activity_cache.overdue_def [OF A] .
  have listed: "b' \<in> set bs" if "(PatchAgent b' m, oc) \<in> set ?l" for b' m oc using tracked that by blast
  have "\<forall>x \<in> set ?l. watcher_may (fst x) \<and> (\<forall>b' m. fst x = PatchAgent b' m \<longrightarrow> b' \<in> set bs)"
    using emits_sent [OF may_check] listed by (fastforce simp del: watcher_may.simps)
  moreover have "\<forall>b' \<in> set bs. \<exists>a. agents (kube w) (agent_key b') = Some a \<and> pausable b' a"
    using bs(2) by (auto simp: pausable_def)
  moreover have "\<exists>m oc. (PatchAgent b m, oc) \<in> set ?l"
    using tracked mem key overdue by blast
  moreover have "w\<lparr>calls := []\<rparr> = w" using c(4) by simp
  then have "kube (snd (run_state (check wt) w)) = replayed (w_Client wt) ?l (kube w)"
    using replays_sent [OF replays_check, of wt w] by simp
  ultimately show ?thesis
    using kube_api.pauses [OF K _ bs(3) _ mem, of ?l "kube w"] key by metis
qed


text \<open>The agent of the witnesses with its pod, 61 seconds after its last activity.\<close>

definition idle_world :: "(cluster, InMemoryHistory, InMemoryCache) world" where
  "idle_world = clock_world (ref_cluster ref_agent [ref_pod]) (NewInMemoryHistory 0) touched_cache (61 * Second)"

lemma idle_world_simps [simp]:
  "kube idle_world = ref_cluster ref_agent [ref_pod]" "cach idle_world = touched_cache" "calls idle_world = []"
  "clock idle_world 0 = 61 * Second" "mono (clock idle_world)"
  by (simp_all add: idle_world_def mono_clock)


end
