(* ===== verification/Api_Docs.thy ===== *)
theory Api_Docs
  imports Rest_Routes
begin

text \<open>
  The API documentation that the program serves, the template in \<open>docs/docs.go\<close>, against the routes and the
  handlers. Of every operation of the template its method, tags, media types, parameters and answers are
  modelled, not the summary and the descriptions of the operation and its parameters. The schema of a body is given by
  its name; the schemas themselves are in \<open>Api_Bodies\<close>.
\<close>

section \<open>The documentation\<close>

record Parameter =
  prm_Name :: string
  prm_In :: string
  prm_Required :: bool
  prm_Type :: string \<comment> \<open>the type, or the name of the schema\<close>
  prm_Default :: "string option"

abbreviation path_param :: "string \<Rightarrow> Parameter" where
  "path_param n \<equiv> \<lparr>prm_Name = n, prm_In = ''path'', prm_Required = True, prm_Type = ''string'', prm_Default = None\<rparr>"

abbreviation body_param :: "string \<Rightarrow> string \<Rightarrow> Parameter" where
  "body_param n ty \<equiv> \<lparr>prm_Name = n, prm_In = ''body'', prm_Required = True, prm_Type = ty, prm_Default = None\<rparr>"

abbreviation query_param :: "string \<Rightarrow> string \<Rightarrow> string option \<Rightarrow> Parameter" where
  "query_param n ty d \<equiv> \<lparr>prm_Name = n, prm_In = ''query'', prm_Required = False, prm_Type = ty, prm_Default = d\<rparr>"

text \<open>
  The schema of an answer: an object whose members are all strings, an object with members of any type, or a
  text.
\<close>

datatype Schema = StringMap | AnyMap | Text

record Answer =
  ans_Code :: nat
  ans_Description :: string
  ans_Schema :: Schema

abbreviation any_map :: "nat \<Rightarrow> string \<Rightarrow> Answer" where
  "any_map n d \<equiv> \<lparr>ans_Code = n, ans_Description = d, ans_Schema = AnyMap\<rparr>"

abbreviation string_map :: "nat \<Rightarrow> string \<Rightarrow> Answer" where
  "string_map n d \<equiv> \<lparr>ans_Code = n, ans_Description = d, ans_Schema = StringMap\<rparr>"

abbreviation text_answer :: "nat \<Rightarrow> string \<Rightarrow> Answer" where
  "text_answer n d \<equiv> \<lparr>ans_Code = n, ans_Description = d, ans_Schema = Text\<rparr>"

record Operation =
  op_Method :: meth
  op_Tags :: "string list"
  op_Consumes :: "string list"
  op_Produces :: "string list"
  op_Parameters :: "Parameter list"
  op_Responses :: "Answer list"

definition docs_agents :: "string \<times> Operation list" where
  "docs_agents = (''/api/v1/agents'',
    [\<lparr>op_Method = GET, op_Tags = [''agents''], op_Consumes = [], op_Produces = [''application/json''],
     op_Parameters = [],
     op_Responses = [any_map 200 ''list of agents'', string_map 500 ''Internal Server Error'']\<rparr>,
     \<lparr>op_Method = POST, op_Tags = [''agents''], op_Consumes = [''application/json''],
       op_Produces = [''application/json''],
     op_Parameters = [body_param ''body'' ''internal_rest.CreateAgentRequest''],
     op_Responses = [any_map 201 ''created'', string_map 400 ''invalid body'',
       string_map 409 ''agent already exists'', string_map 500 ''internal error'']\<rparr>])"

definition docs_services :: "string \<times> Operation list" where
  "docs_services = (''/api/v1/agents/services'',
    [\<lparr>op_Method = GET, op_Tags = [''agents''], op_Consumes = [], op_Produces = [''application/json''],
     op_Parameters = [],
     op_Responses = [any_map 200 ''list of agent service URLs'', string_map 500 ''Internal Server Error'']\<rparr>])"

definition docs_agent :: "string \<times> Operation list" where
  "docs_agent = (''/api/v1/agents/{name}'',
    [\<lparr>op_Method = GET, op_Tags = [''agents''], op_Consumes = [], op_Produces = [''application/json''],
     op_Parameters = [path_param ''name''],
     op_Responses = [any_map 200 ''OK'', string_map 404 ''Not Found'',
       string_map 500 ''Internal Server Error'']\<rparr>,
     \<lparr>op_Method = PUT, op_Tags = [''agents''], op_Consumes = [''application/json''],
       op_Produces = [''application/json''],
     op_Parameters = [path_param ''name'', body_param ''body'' ''internal_rest.CreateAgentRequest''],
     op_Responses = [any_map 200 ''OK'', string_map 400 ''Bad Request'', string_map 404 ''Not Found'',
       string_map 500 ''Internal Server Error'']\<rparr>,
     \<lparr>op_Method = DELETE, op_Tags = [''agents''], op_Consumes = [], op_Produces = [''application/json''],
     op_Parameters = [path_param ''name''],
     op_Responses = [string_map 200 ''deleted'', string_map 404 ''Not Found'',
       string_map 500 ''Internal Server Error'']\<rparr>])"

definition docs_cache :: "string \<times> Operation list" where
  "docs_cache = (''/api/v1/agents/{name}/cache'',
    [\<lparr>op_Method = GET, op_Tags = [''cache''], op_Consumes = [], op_Produces = [''application/json''],
     op_Parameters = [path_param ''name''],
     op_Responses = [any_map 200 ''OK'']\<rparr>,
     \<lparr>op_Method = DELETE, op_Tags = [''cache''], op_Consumes = [], op_Produces = [''application/json''],
     op_Parameters = [path_param ''name''],
     op_Responses = [any_map 200 ''cleared: true'']\<rparr>])"

definition docs_cache_field :: "string \<times> Operation list" where
  "docs_cache_field = (''/api/v1/agents/{name}/cache/{field}'',
    [\<lparr>op_Method = GET, op_Tags = [''cache''], op_Consumes = [], op_Produces = [''application/json''],
     op_Parameters = [path_param ''name'', path_param ''field''],
     op_Responses = [any_map 200 ''OK'', string_map 404 ''Not Found'']\<rparr>,
     \<lparr>op_Method = PUT, op_Tags = [''cache''], op_Consumes = [''application/json''],
       op_Produces = [''application/json''],
     op_Parameters = [path_param ''name'', path_param ''field'',
       body_param ''body'' ''internal_rest.CacheSetRequest''],
     op_Responses = [any_map 200 ''OK'', string_map 400 ''Bad Request'']\<rparr>,
     \<lparr>op_Method = DELETE, op_Tags = [''cache''], op_Consumes = [], op_Produces = [''application/json''],
     op_Parameters = [path_param ''name'', path_param ''field''],
     op_Responses = [any_map 200 ''deleted: true'']\<rparr>])"

definition docs_disable_healing :: "string \<times> Operation list" where
  "docs_disable_healing = (''/api/v1/agents/{name}/disable-healing'',
    [\<lparr>op_Method = POST, op_Tags = [''lifecycle''], op_Consumes = [], op_Produces = [''application/json''],
     op_Parameters = [path_param ''name''],
     op_Responses = [any_map 200 ''selfHealingDisabled: true'', string_map 404 ''Not Found'',
       string_map 500 ''Internal Server Error'']\<rparr>])"

definition docs_enable_healing :: "string \<times> Operation list" where
  "docs_enable_healing = (''/api/v1/agents/{name}/enable-healing'',
    [\<lparr>op_Method = POST, op_Tags = [''lifecycle''], op_Consumes = [], op_Produces = [''application/json''],
     op_Parameters = [path_param ''name''],
     op_Responses = [any_map 200 ''selfHealingDisabled: false'', string_map 404 ''Not Found'',
       string_map 500 ''Internal Server Error'']\<rparr>])"

definition docs_env :: "string \<times> Operation list" where
  "docs_env = (''/api/v1/agents/{name}/env'',
    [\<lparr>op_Method = GET, op_Tags = [''env''], op_Consumes = [], op_Produces = [''application/json''],
     op_Parameters = [path_param ''name''],
     op_Responses = [any_map 200 ''list of EnvVar'', string_map 404 ''Not Found'',
       string_map 500 ''Internal Server Error'']\<rparr>,
     \<lparr>op_Method = PUT, op_Tags = [''env''], op_Consumes = [''application/json''],
       op_Produces = [''application/json''],
     op_Parameters = [path_param ''name'', body_param ''body'' ''internal_rest.EnvSetRequest''],
     op_Responses = [any_map 200 ''OK'', string_map 400 ''Bad Request'', string_map 404 ''Not Found'',
       string_map 500 ''Internal Server Error'']\<rparr>,
     \<lparr>op_Method = PATCH, op_Tags = [''env''], op_Consumes = [''application/json''],
       op_Produces = [''application/json''],
     op_Parameters = [path_param ''name'', body_param ''body'' ''internal_rest.EnvMergeRequest''],
     op_Responses = [any_map 200 ''OK'', string_map 400 ''Bad Request'', string_map 404 ''Not Found'',
       string_map 500 ''Internal Server Error'']\<rparr>])"

definition docs_env_key :: "string \<times> Operation list" where
  "docs_env_key = (''/api/v1/agents/{name}/env/{key}'',
    [\<lparr>op_Method = DELETE, op_Tags = [''env''], op_Consumes = [], op_Produces = [''application/json''],
     op_Parameters = [path_param ''name'', path_param ''key''],
     op_Responses = [any_map 200 ''OK'', string_map 404 ''Not Found'',
       string_map 500 ''Internal Server Error'']\<rparr>])"

definition docs_history :: "string \<times> Operation list" where
  "docs_history = (''/api/v1/agents/{name}/history'',
    [\<lparr>op_Method = GET, op_Tags = [''agents''], op_Consumes = [], op_Produces = [''application/json''],
     op_Parameters = [path_param ''name''],
     op_Responses = [any_map 200 ''OK'', string_map 404 ''Not Found'',
       string_map 500 ''Internal Server Error'']\<rparr>])"

definition docs_keepalive :: "string \<times> Operation list" where
  "docs_keepalive = (''/api/v1/agents/{name}/keepalive'',
    [\<lparr>op_Method = POST, op_Tags = [''lifecycle''], op_Consumes = [], op_Produces = [''application/json''],
     op_Parameters = [path_param ''name'', query_param ''wait'' ''integer'' None],
     op_Responses = [any_map 200 ''status + svcUrl'', string_map 404 ''Not Found'',
       string_map 500 ''Internal Server Error'']\<rparr>])"

definition docs_logs :: "string \<times> Operation list" where
  "docs_logs = (''/api/v1/agents/{name}/logs'',
    [\<lparr>op_Method = GET, op_Tags = [''logs''], op_Consumes = [], op_Produces = [''text/plain''],
     op_Parameters = [path_param ''name'', query_param ''tailLines'' ''integer'' (Some ''100''),
       query_param ''sinceSeconds'' ''integer'' None, query_param ''container'' ''string'' (Some ''agent''),
       query_param ''follow'' ''boolean'' (Some ''false'')],
     op_Responses = [text_answer 200 ''log lines'', string_map 404 ''Not Found'',
       string_map 500 ''Internal Server Error'']\<rparr>])"

definition docs_restart :: "string \<times> Operation list" where
  "docs_restart = (''/api/v1/agents/{name}/restart'',
    [\<lparr>op_Method = POST, op_Tags = [''lifecycle''], op_Consumes = [], op_Produces = [''application/json''],
     op_Parameters = [path_param ''name''],
     op_Responses = [any_map 200 ''restarted: true'', string_map 404 ''Not Found'',
       string_map 500 ''Internal Server Error'']\<rparr>])"

definition docs_start :: "string \<times> Operation list" where
  "docs_start = (''/api/v1/agents/{name}/start'',
    [\<lparr>op_Method = POST, op_Tags = [''lifecycle''], op_Consumes = [], op_Produces = [''application/json''],
     op_Parameters = [path_param ''name''],
     op_Responses = [any_map 200 ''started: true'', string_map 404 ''Not Found'',
       string_map 500 ''Internal Server Error'']\<rparr>])"

definition docs_stop :: "string \<times> Operation list" where
  "docs_stop = (''/api/v1/agents/{name}/stop'',
    [\<lparr>op_Method = POST, op_Tags = [''lifecycle''], op_Consumes = [], op_Produces = [''application/json''],
     op_Parameters = [path_param ''name''],
     op_Responses = [any_map 200 ''stopped: true'', string_map 404 ''Not Found'',
       string_map 500 ''Internal Server Error'']\<rparr>])"

definition docs_healthz :: "string \<times> Operation list" where
  "docs_healthz = (''/healthz'',
    [\<lparr>op_Method = GET, op_Tags = [''health''], op_Consumes = [], op_Produces = [''application/json''],
     op_Parameters = [],
     op_Responses = [string_map 200 ''ok'']\<rparr>])"

definition docs_readyz :: "string \<times> Operation list" where
  "docs_readyz = (''/readyz'',
    [\<lparr>op_Method = GET, op_Tags = [''health''], op_Consumes = [], op_Produces = [''application/json''],
     op_Parameters = [],
     op_Responses = [string_map 200 ''ready'', string_map 503 ''k8s api not reachable'']\<rparr>])"

definition docTemplate :: "(string \<times> Operation list) list" where
  "docTemplate =
    [docs_agents, docs_services, docs_agent, docs_cache, docs_cache_field,
     docs_disable_healing, docs_enable_healing, docs_env, docs_env_key, docs_history,
     docs_keepalive, docs_logs, docs_restart, docs_start, docs_stop, docs_healthz, docs_readyz]"

section \<open>Paths\<close>

text \<open>gin writes the parameter \<open>{name}\<close> of a path as \<open>:name\<close>.\<close>

fun gin_path :: "string \<Rightarrow> string" where
  "gin_path [] = []"
| "gin_path (c # cs) =
     (if c = CHR ''{'' then CHR '':'' # gin_path cs else if c = CHR ''}'' then gin_path cs else c # gin_path cs)"

text \<open>The names in braces, in order.\<close>

fun braced :: "string \<Rightarrow> string option \<Rightarrow> string list" where
  "braced [] _ = []"
| "braced (c # cs) None = (if c = CHR ''{'' then braced cs (Some []) else braced cs None)"
| "braced (c # cs) (Some x) = (if c = CHR ''}'' then x # braced cs None else braced cs (Some (x @ [c])))"

definition documented :: "((meth \<times> string) \<times> Operation) list" where
  "documented = concat (map (\<lambda>(p, ops). map (\<lambda>op. ((op_Method op, gin_path p), op)) ops) docTemplate)"

text \<open>Every operation documents exactly the parameters of its path, and none twice.\<close>

lemma path_parameters:
  "list_all (\<lambda>(p, ops). list_all (\<lambda>op. map prm_Name (filter (\<lambda>q. prm_In q = ''path'') (op_Parameters op)) = braced p None) ops)
     docTemplate \<and> distinct (map fst documented)"
  by code_simp

section \<open>Routes\<close>

text \<open>The methods and paths of the table of routes, without the handlers.\<close>

definition below :: "string \<Rightarrow> (meth \<times> string) list \<Rightarrow> (meth \<times> string) list" where
  "below p = map (\<lambda>(m, q). (m, p @ q))"

definition route_keys :: "(meth \<times> string) list" where
  "route_keys =
     (let named = below ''/:name'' [(GET, ''''), (GET, ''/history''), (PUT, ''''), (DELETE, ''''), (POST, ''/restart''),
            (POST, ''/stop''), (POST, ''/start''), (POST, ''/disable-healing''), (POST, ''/enable-healing''),
            (POST, ''/keepalive''), (GET, ''/env''), (PUT, ''/env''), (PATCH, ''/env''), (DELETE, ''/env/:key''),
            (GET, ''/logs''), (GET, ''/cache''), (GET, ''/cache/:field''), (PUT, ''/cache/:field''),
            (DELETE, ''/cache/:field''), (DELETE, ''/cache'')];
          agents = [(POST, ''''), (GET, ''''), (GET, ''/services'')] @ named
      in [(GET, ''/api/v1/info''), (GET, ''/healthz''), (GET, ''/readyz'')]
         @ below ''/api/v1/namespaces/:namespace/agents'' agents @ below ''/api/v1/agents'' agents)"

lemma keys_of_routes: "map (\<lambda>r. (rt_Method r, rt_Path r)) (registerRoutes d s) = route_keys"
  by (simp add: registerRoutes_def registerAgentRoutes_def named_routes_def group_def route_keys_def below_def Let_def)

abbreviation under_namespaces :: "string \<Rightarrow> bool" where
  "under_namespaces p \<equiv> take 18 p = ''/api/v1/namespaces''"

lemma documented_keys:
  "set (map fst documented) = set (filter (\<lambda>(m, p). \<not> under_namespaces p \<and> p \<noteq> ''/api/v1/info'') route_keys)"
  by code_simp

section \<open>Answers\<close>

text \<open>
  The schema that an answer of a handler meets: only members that are strings; a nested value under \<open>data\<close>; or a
  plain text. A field with another status than those of \<open>respondOK\<close> and \<open>respondCreated\<close> stands beside \<open>status\<close>.
\<close>

definition shape :: "Response \<Rightarrow> Schema" where
  "shape r = (case resp_Data r of
     PNone \<Rightarrow> StringMap
   | PText t \<Rightarrow> Text
   | PField f v \<Rightarrow> if resp_Status r \<in> {''ok'', ''created''} then AnyMap else StringMap
   | _ \<Rightarrow> AnyMap)"

abbreviation any_ok :: "nat \<times> Schema" where "any_ok \<equiv> (200, AnyMap)"
abbreviation flat :: "nat \<Rightarrow> nat \<times> Schema" where "flat n \<equiv> (n, StringMap)"

definition answered :: "Answer \<Rightarrow> nat \<times> Schema" where
  "answered a = (ans_Code a, ans_Schema a)"

text \<open>The status codes and schemas of a handler's answers.\<close>

definition code_in :: "(nat \<times> Schema) list \<Rightarrow> Response \<Rightarrow> bool" where
  "code_in cs r \<longleftrightarrow> (resp_Code r, shape r) \<in> set cs"

lemma shape_simps [simp]:
  "d \<noteq> PNone \<Longrightarrow> (\<And>t. d \<noteq> PText t) \<Longrightarrow> shape (respondOK d) = AnyMap"
  "d \<noteq> PNone \<Longrightarrow> (\<And>t. d \<noteq> PText t) \<Longrightarrow> shape (respondCreated d) = AnyMap"
  "shape (respondError n m) = StringMap" "shape (respondStatus n st PNone) = StringMap"
  "shape (respondStatus n st (PText t)) = Text"
  "st \<noteq> ''ok'' \<Longrightarrow> st \<noteq> ''created'' \<Longrightarrow> shape (respondStatus n st (PField f v)) = StringMap"
  by (simp_all add: shape_def respondOK_def respondCreated_def respondError_def respondStatus_def split: payload.split)

lemma code_in_simps [simp]:
  "code_in cs (respondOK d) \<longleftrightarrow> (200, shape (respondOK d)) \<in> set cs"
  "code_in cs (respondCreated d) \<longleftrightarrow> (201, shape (respondCreated d)) \<in> set cs"
  "code_in cs (respondError n m) \<longleftrightarrow> flat n \<in> set cs"
  "code_in cs (respondStatus n st d) \<longleftrightarrow> (n, shape (respondStatus n st d)) \<in> set cs"
  by (simp_all add: code_in_def)

definition answers_in :: "(nat \<times> Schema) list \<Rightarrow> ('k, 'h, 'c) handler \<Rightarrow> bool" where
  "answers_in cs h \<longleftrightarrow> (\<forall>c b. yields (pred_option (code_in cs)) (h c b))"

lemma answers_in_intros:
  "(\<And>c. yields (code_in cs) (h c)) \<Longrightarrow> answers_in cs (returns h)"
  "(\<And>c b. yields (code_in cs) (h' c b)) \<Longrightarrow> answers_in cs (with_body f h')"
  by (auto simp: answers_in_def returns_def with_body_def
      intro!: yields_bind_result [where Q = "code_in cs"] yields_ret)

lemma answers_in_touching: "answers_in cs h \<Longrightarrow> answers_in cs (touching s h)"
  unfolding answers_in_def touching_def activityMiddleware_def by (intro allI yields_bind) simp

lemma codes_with_agent:
  "flat 404 \<in> set cs \<Longrightarrow> flat 500 \<in> set cs \<Longrightarrow> (\<And>a. yields (code_in cs) (f a)) \<Longrightarrow>
   yields (code_in cs) (with_agent s n f)"
  unfolding with_agent_def by (intro yields_intros) simp_all

lemma codes_with_patch:
  "flat 500 \<in> set cs \<Longrightarrow> (\<And>a. yields (code_in cs) (f a)) \<Longrightarrow>
   yields (code_in cs) (with_patch s b m f)"
  unfolding with_patch_def by (intro yields_intros) simp_all

lemma code_cases [simp]:
  "code_in cs (case x of Inl e \<Rightarrow> f e | Inr a \<Rightarrow> g a) \<longleftrightarrow>
     (\<forall>e. x = Inl e \<longrightarrow> code_in cs (f e)) \<and> (\<forall>a. x = Inr a \<longrightarrow> code_in cs (g a))"
  "code_in cs (case y of None \<Rightarrow> r | Some v \<Rightarrow> h v) \<longleftrightarrow> (y = None \<longrightarrow> code_in cs r) \<and> (\<forall>v. y = Some v \<longrightarrow> code_in cs (h v))"
  "code_in cs (if b then r else r') \<longleftrightarrow> (b \<longrightarrow> code_in cs r) \<and> (\<not> b \<longrightarrow> code_in cs r')"
  by (auto split: sum.split option.split)

lemmas codes_intros = codes_with_agent codes_with_patch yields_intros answers_in_intros

lemma code_serve_logs [simp]: "(200, Text) \<in> set cs \<Longrightarrow> flat 500 \<in> set cs \<Longrightarrow> code_in cs (serve_logs opts src)"
  by (simp add: serve_logs_def split: log_source.split)

lemma codes_reading:
  "answers_in [flat 200] (returns (handleHealthz s))" "answers_in [flat 200, flat 503] (returns (handleReadyz s))"
  "answers_in [any_ok, flat 500] (returns (handleListAgents s))"
  "answers_in [any_ok, flat 500] (returns (handleListAgentServices s))"
  "answers_in [any_ok, flat 404, flat 500] (returns (handleGetAgent s))"
  "answers_in [any_ok, flat 404, flat 500] (returns (handleGetAgentHistory s))"
  "answers_in [any_ok, flat 404, flat 500] (returns (handleGetEnv s))"
  unfolding handleHealthz_def handleReadyz_def handleListAgents_def handleListAgentServices_def handleGetAgent_def
    handleGetAgentHistory_def handleGetEnv_def Let_def
  by (intro codes_intros; simp)+

lemma codes_logs: "answers_in [(200, Text), flat 404, flat 500] (returns (handleGetLogs logs s))"
  unfolding handleGetLogs_def Let_def by (intro codes_intros; simp)

lemma codes_writing:
  "answers_in [(201, AnyMap), flat 400, flat 409, flat 500] (with_body f1 (handleCreateAgent s))"
  "answers_in [any_ok, flat 400, flat 404, flat 500] (with_body f2 (handleUpdateAgent s))"
  "answers_in [flat 200, flat 404, flat 500] (returns (handleDeleteAgent s))"
  "answers_in [any_ok, flat 404, flat 500] (returns (handleRestartAgent s))"
  "answers_in [any_ok, flat 404, flat 500] (returns (handleStopAgent s))"
  "answers_in [any_ok, flat 404, flat 500] (returns (handleStartAgent s))"
  "answers_in [any_ok, flat 404, flat 500] (returns (handleDisableSelfHealing s))"
  "answers_in [any_ok, flat 404, flat 500] (returns (handleEnableSelfHealing s))"
  "answers_in [any_ok, flat 400, flat 404, flat 500] (with_body f3 (handleSetEnv s))"
  "answers_in [any_ok, flat 400, flat 404, flat 500] (with_body f4 (handleMergeEnv s))"
  "answers_in [any_ok, flat 404, flat 500] (returns (handleDeleteEnvKey s))"
  unfolding handleCreateAgent_def handleUpdateAgent_def handleDeleteAgent_def delete_now_def handleRestartAgent_def
    handleStopAgent_def handleStartAgent_def handleDisableSelfHealing_def handleEnableSelfHealing_def
    handleSetEnv_def handleMergeEnv_def handleDeleteEnvKey_def Let_def
  by (intro codes_intros; simp)+

lemma codes_cache:
  "answers_in [any_ok] (returns (handleListCache s))" "answers_in [any_ok, flat 404] (returns (handleGetCacheField s))"
  "answers_in [any_ok, flat 400] (with_body f (handleSetCacheField s))" "answers_in [any_ok] (returns (handleDeleteCacheField s))"
  "answers_in [any_ok] (returns (handleClearCache s))"
  unfolding cache_handler_defs Let_def by (intro codes_intros; simp)+

lemma codes_keepalive: "answers_in [any_ok, flat 404, flat 500] (\<lambda>c b. handleKeepalive fuel s c)"
  unfolding answers_in_def handleKeepalive_def Let_def by (intro allI yields_intros) simp_all

lemmas handler_codes = codes_reading codes_logs codes_writing codes_cache codes_keepalive

section \<open>Properties\<close>

definition codes_at :: "meth \<times> string \<Rightarrow> (nat \<times> Schema) list option" where
  "codes_at k = map_option (\<lambda>op. map answered (op_Responses op)) (map_of documented k)"

lemma documented_codes:
  "map codes_at (filter (\<lambda>(m, p). \<not> under_namespaces p) route_keys) = [None, Some [flat 200], Some [flat 200, flat 503],
      Some [(201, AnyMap), flat 400, flat 409, flat 500], Some [any_ok, flat 500], Some [any_ok, flat 500],
      Some [any_ok, flat 404, flat 500], Some [any_ok, flat 404, flat 500], Some [any_ok, flat 400, flat 404, flat 500], Some [flat 200, flat 404, flat 500],
      Some [any_ok, flat 404, flat 500], Some [any_ok, flat 404, flat 500], Some [any_ok, flat 404, flat 500], Some [any_ok, flat 404, flat 500],
      Some [any_ok, flat 404, flat 500], Some [any_ok, flat 404, flat 500], Some [any_ok, flat 404, flat 500],
      Some [any_ok, flat 400, flat 404, flat 500], Some [any_ok, flat 400, flat 404, flat 500], Some [any_ok, flat 404, flat 500],
      Some [(200, Text), flat 404, flat 500], Some [any_ok], Some [any_ok, flat 404], Some [any_ok, flat 400],
      Some [any_ok], Some [any_ok]]"
  by code_simp

definition public_routes :: "Deps \<Rightarrow> ('k, 'h, 'c) Server \<Rightarrow> ('k, 'h, 'c) Route list" where
  "public_routes d s = filter (\<lambda>r. \<not> under_namespaces (rt_Path r)) (registerRoutes d s)"

lemma public_codes: "map (\<lambda>r. codes_at (rt_Method r, rt_Path r)) (public_routes d s) =
    map codes_at (filter (\<lambda>(m, p). \<not> under_namespaces p) route_keys)"
  by (simp add: public_routes_def keys_of_routes [of d s, symmetric] filter_map comp_def)

lemma public_conform:
  "list_all2 (\<lambda>r co. \<forall>cs. co = Some cs \<longrightarrow> answers_in cs (rt_Handler r)) (public_routes d s)
     (map (\<lambda>r. codes_at (rt_Method r, rt_Path r)) (public_routes d s))"
  unfolding public_codes documented_codes
  by (simp add: public_routes_def registerRoutes_def registerAgentRoutes_def named_routes_def group_def
      answers_in_touching handler_codes)

lemma answers_documented:
  assumes "r \<in> set (public_routes d s)" and "codes_at (rt_Method r, rt_Path r) = Some cs"
  shows "answers_in cs (rt_Handler r)"
  using public_conform [of d s] assms by (auto simp: list.rel_map list_all2_same)

lemma documented_public: "(k, op) \<in> set documented \<Longrightarrow> \<not> under_namespaces (snd k) \<and> codes_at k = Some (map answered (op_Responses op))"
proof -
  assume k: "(k, op) \<in> set documented"
  then have "k \<in> set (map fst documented)" by force
  then have "\<not> under_namespaces (snd k)" unfolding documented_keys by auto
  moreover have "distinct (map fst documented)" using path_parameters by simp
  then have "map_of documented k = Some op" using k by (rule map_of_is_SomeI)
  ultimately show ?thesis by (simp add: codes_at_def)
qed

lemma no_options: "list_all (\<lambda>r. rt_Method r \<noteq> OPTIONS) (registerRoutes d s)"
  by (simp add: registerRoutes_def registerAgentRoutes_def named_routes_def group_def)

text \<open>
  The documentation lists exactly the routes that the server registers, with the methods they are registered for, except
  the whole group of routes under \<open>/api/v1/namespaces/:namespace\<close> and \<open>/api/v1/info\<close>, of which it does not know;
  and every operation documents exactly the parameters that its path has.
\<close>

lemma documented_routes:
  fixes s :: "('k, 'h, 'c) Server"
  shows "fst ` set documented =
      {(rt_Method r, rt_Path r) | r. r \<in> set (registerRoutes d s) \<and> \<not> under_namespaces (rt_Path r) \<and> rt_Path r \<noteq> ''/api/v1/info''} \<and>
    list_all (\<lambda>(p, ops). list_all (\<lambda>op. map prm_Name (filter (\<lambda>q. prm_In q = ''path'') (op_Parameters op)) = braced p None) ops)
      docTemplate"
proof -
  have "set route_keys = (\<lambda>r. (rt_Method r, rt_Path r)) ` set (registerRoutes d s)"
    by (simp add: keys_of_routes [of d s, symmetric])
  moreover have "fst ` set documented = set (filter (\<lambda>(m, p). \<not> under_namespaces p \<and> p \<noteq> ''/api/v1/info'') route_keys)"
    using documented_keys by simp
  ultimately have "fst ` set documented =
      {(rt_Method r, rt_Path r) | r. r \<in> set (registerRoutes d s) \<and> \<not> under_namespaces (rt_Path r) \<and> rt_Path r \<noteq> ''/api/v1/info''}"
    by auto
  then show ?thesis using path_parameters by blast
qed

text \<open>
  C28. Whatever the API server and the stores do, a documented route answers only with a status code that the
  documentation lists for it, and its body meets the schema given there.
\<close>

theorem documented_answers:
  assumes "r \<in> set (registerRoutes d s)" and "((rt_Method r, rt_Path r), op) \<in> set documented"
    and "fst (run_state (serve_route r c b) w) = Some resp"
  shows "\<exists>a \<in> set (op_Responses op). ans_Code a = resp_Code resp \<and> ans_Schema a = shape resp"
proof -
  note k = documented_public [OF assms(2)]
  then have "r \<in> set (public_routes d s)" using assms(1) by (simp add: public_routes_def)
  from answers_documented [OF this conjunct2 [OF k]]
  have "yields (pred_option (code_in (map answered (op_Responses op)))) (rt_Handler r c b)"
    by (simp add: answers_in_def)
  moreover have "rt_Method r \<noteq> OPTIONS" using no_options [of d s] assms(1) by (simp add: list_all_iff)
  ultimately have "code_in (map answered (op_Responses op)) resp"
    using yieldsD [of "pred_option (code_in (map answered (op_Responses op)))" "rt_Handler r c b" w] assms(3)
    by (simp add: serve_route_def corsMiddleware_def)
  then show ?thesis by (auto simp: code_in_def answered_def)
qed

theorem documented_answers_witness:
  "((GET, ''/api/v1/agents/:name''), hd (snd docs_agent)) \<in> set documented \<and>
   (\<exists>a \<in> set (op_Responses (hd (snd docs_agent))). ans_Code a = 200 \<and> ans_Schema a = AnyMap)"
proof -
  have doc: "((GET, ''/api/v1/agents/:name''), hd (snd docs_agent)) \<in> set documented"
    by (simp add: documented_def docTemplate_def docs_agent_def)
  have run: "fst (run_state (serve_route registered_get (ref_request ''a'' '''') ref_body)
      (mem_world (ref_cluster idle_agent []))) = Some (respondOK (PAgent idle_agent))"
    using ref_cluster_simps(1) [of idle_agent]
    by (subst run_registered_get) (simp_all add: run_get_route run_TouchActivity)
  have "\<exists>a \<in> set (op_Responses (hd (snd docs_agent))). ans_Code a = resp_Code (respondOK (PAgent idle_agent)) \<and>
      ans_Schema a = shape (respondOK (PAgent idle_agent))"
    by (rule documented_answers [OF get_route_registered(1) _ run]) (simp add: doc)
  with doc show ?thesis by simp
qed

text \<open>
  The defaults that the documentation gives for the parameters of the log route are those of the handler, and a
  keepalive waits 30 seconds unless it is told otherwise.
\<close>

lemma documented_log_defaults:
  "map (\<lambda>q. (prm_Name q, prm_Default q)) (tl (op_Parameters (hd (snd docs_logs)))) =
     [(''tailLines'', Some (int_str (log_TailLines (log_options (c\<lparr>p_query := \<lambda>_. None\<rparr>))))),
      (''sinceSeconds'', map_option int_str (log_SinceSeconds (log_options (c\<lparr>p_query := \<lambda>_. None\<rparr>)))),
      (''container'', Some (log_Container (log_options (c\<lparr>p_query := \<lambda>_. None\<rparr>)))),
      (''follow'', Some (if log_Follow (log_options (c\<lparr>p_query := \<lambda>_. None\<rparr>)) then ''true'' else ''false''))] \<and>
   wait_seconds (query (c\<lparr>p_query := \<lambda>_. None\<rparr>) ''wait'') = 30"
proof -
  have "int_str 100 = ''100''" by code_simp
  then show ?thesis by (simp add: docs_logs_def log_options_def query_def DefaultQuery_def wait_seconds_def)
qed

end
