(* ===== verification/Rest_Bodies.thy ===== *)
theory Rest_Bodies
  imports Rest_Routes Redis_Client
begin

text \<open>
  The JSON bodies of the requests: what \<open>ShouldBindJSON\<close> makes of a document for each request type of
  \<open>internal/rest/handlers.go\<close>, that is, the decoding of \<open>encoding/json\<close> by the tags of the struct and then the rule
  \<open>binding:"required"\<close>, by which a string must not be empty and a slice or an interface must not be nil.

  Only whether a document is accepted is modelled, not the text of the error. Names are in ASCII and do not
  occur twice in one object. The types of Kubernetes that the program only passes on decode themselves.
\<close>

section \<open>Decoding by the type of the field\<close>

text \<open>Names of fields are compared without regard to case.\<close>

definition lower :: "char \<Rightarrow> char" where
  "lower c = (let n = of_char c :: nat in if 65 \<le> n \<and> n \<le> 90 then char_of (n + 32) else c)"

definition same_name :: "string \<Rightarrow> string \<Rightarrow> bool" where
  "same_name k k' \<longleftrightarrow> map lower k = map lower k'"

text \<open>A struct is decoded from an object; \<open>null\<close> leaves it as it is. A field that is absent is like one that is \<open>null\<close>.\<close>

fun members :: "json \<Rightarrow> (string \<times> json) list option" where
  "members (JObject kjs) = Some kjs"
| "members JNull = Some []"
| "members _ = None"

fun member :: "string \<Rightarrow> (string \<times> json) list \<Rightarrow> json" where
  "member k [] = JNull"
| "member k ((k', j) # kjs) = (if same_name k' k then j else member k kjs)"

fun as_string :: "json \<Rightarrow> string option" where
  "as_string JNull = Some ''''"
| "as_string (JString s) = Some s"
| "as_string _ = None"

fun as_bool :: "json \<Rightarrow> bool option" where
  "as_bool JNull = Some False"
| "as_bool (JBool b) = Some b"
| "as_bool _ = None"

text \<open>An integer of a width; a literal with a fraction or an exponent is refused.\<close>

fun as_int :: "(int \<Rightarrow> bool) \<Rightarrow> json \<Rightarrow> int option" where
  "as_int fits JNull = Some 0"
| "as_int fits (JInt i) = (if fits i then Some i else None)"
| "as_int fits _ = None"

fun as_ptr :: "(json \<Rightarrow> 'a option) \<Rightarrow> json \<Rightarrow> 'a option option" where
  "as_ptr d JNull = Some None"
| "as_ptr d j = map_option Some (d j)"

fun as_slice :: "(json \<Rightarrow> 'a option) \<Rightarrow> json \<Rightarrow> 'a slice option" where
  "as_slice d JNull = Some None"
| "as_slice d (JArray js) = map_option Some (those (map d js))"
| "as_slice d _ = None"

fun as_map :: "json \<Rightarrow> gomap option" where
  "as_map JNull = Some None"
| "as_map (JObject kjs) =
     map_option (\<lambda>kvs. Some (map_of kvs)) (those (map (\<lambda>(k, j). map_option (Pair k) (as_string j)) kjs))"
| "as_map _ = None"

text \<open>An \<open>interface{}\<close>: every number becomes a \<open>float64\<close>, which it must not overflow.\<close>

fun finite_numbers :: "json \<Rightarrow> bool" where
  "finite_numbers (JInt i) \<longleftrightarrow> \<bar>i\<bar> < 2 ^ 1024 - 2 ^ 970"
| "finite_numbers (JFloat q) \<longleftrightarrow> \<bar>q\<bar> < 2 ^ 1024 - 2 ^ 970"
| "finite_numbers (JArray js) \<longleftrightarrow> list_all finite_numbers js"
| "finite_numbers (JObject kjs) \<longleftrightarrow> list_all (\<lambda>kj. finite_numbers (snd kj)) kjs"
| "finite_numbers _ \<longleftrightarrow> True"

definition as_any :: "json \<Rightarrow> gval option" where
  "as_any j = (if finite_numbers j then Some (from_json j) else None)"

section \<open>The request types\<close>

text \<open>How the Kubernetes types decode; a struct that is \<open>null\<close> stays zero.\<close>

record KTypes =
  kt_EnvVarSource :: "json \<Rightarrow> k8s_value option"
  kt_EnvFromSource :: "json \<Rightarrow> k8s_value option"
  kt_ResourceRequirements :: "json \<Rightarrow> k8s_value option"

definition as_struct :: "(json \<Rightarrow> k8s_value option) \<Rightarrow> json \<Rightarrow> k8s_value option" where
  "as_struct d j = (if j = JNull then Some (K8sValue '''') else d j)"

definition as_env :: "KTypes \<Rightarrow> json \<Rightarrow> EnvVar option" where
  "as_env K j = do {
     kjs \<leftarrow> members j;
     name \<leftarrow> as_string (member ''name'' kjs);
     value \<leftarrow> as_string (member ''value'' kjs);
     src \<leftarrow> as_ptr (kt_EnvVarSource K) (member ''valueFrom'' kjs);
     Some \<lparr>env_Name = name, env_Value = value, env_ValueFrom = src\<rparr> }"

definition bind_Create :: "KTypes \<Rightarrow> json \<Rightarrow> CreateAgentRequest option" where
  "bind_Create K j = do {
     kjs \<leftarrow> members j;
     name \<leftarrow> as_string (member ''name'' kjs);
     image \<leftarrow> as_string (member ''image'' kjs);
     pullPolicy \<leftarrow> as_string (member ''imagePullPolicy'' kjs);
     env \<leftarrow> as_slice (as_env K) (member ''env'' kjs);
     envFrom \<leftarrow> as_slice (as_struct (kt_EnvFromSource K)) (member ''envFrom'' kjs);
     resources \<leftarrow> as_struct (kt_ResourceRequirements K) (member ''resources'' kjs);
     command \<leftarrow> as_slice as_string (member ''command'' kjs);
     args \<leftarrow> as_slice as_string (member ''args'' kjs);
     account \<leftarrow> as_string (member ''serviceAccountName'' kjs);
     restartPolicy \<leftarrow> as_string (member ''restartPolicy'' kjs);
     podLabels \<leftarrow> as_map (member ''podLabels'' kjs);
     podAnnotations \<leftarrow> as_map (member ''podAnnotations'' kjs);
     labels \<leftarrow> as_map (member ''labels'' kjs);
     annotations \<leftarrow> as_map (member ''annotations'' kjs);
     healingDisabled \<leftarrow> as_bool (member ''selfHealingDisabled'' kjs);
     paused \<leftarrow> as_bool (member ''paused'' kjs);
     port \<leftarrow> as_int in_int32 (member ''servicePort'' kjs);
     protocol \<leftarrow> as_string (member ''serviceProtocol'' kjs);
     idle \<leftarrow> as_int in_int32 (member ''idleTimeout'' kjs);
     if name = '''' \<or> image = '''' then None
     else Some \<lparr>req_Name = name, req_Image = image, req_ImagePullPolicy = pullPolicy, req_Env = env,
       req_EnvFrom = envFrom, req_Resources = resources, req_Command = command, req_Args = args,
       req_ServiceAccount = account, req_RestartPolicy = restartPolicy, req_PodLabels = podLabels,
       req_PodAnnotations = podAnnotations, req_Labels = labels, req_Annotations = annotations,
       req_SelfHealingDisabled = healingDisabled, req_Paused = paused, req_ServicePort = port,
       req_ServiceProtocol = protocol, req_IdleTimeout = idle\<rparr> }"

definition bind_Update :: "KTypes \<Rightarrow> json \<Rightarrow> UpdateAgentRequest option" where
  "bind_Update K j = do {
     kjs \<leftarrow> members j;
     image \<leftarrow> as_string (member ''image'' kjs);
     pullPolicy \<leftarrow> as_string (member ''imagePullPolicy'' kjs);
     env \<leftarrow> as_slice (as_env K) (member ''env'' kjs);
     envFrom \<leftarrow> as_slice (as_struct (kt_EnvFromSource K)) (member ''envFrom'' kjs);
     resources \<leftarrow> as_struct (kt_ResourceRequirements K) (member ''resources'' kjs);
     command \<leftarrow> as_slice as_string (member ''command'' kjs);
     args \<leftarrow> as_slice as_string (member ''args'' kjs);
     account \<leftarrow> as_string (member ''serviceAccountName'' kjs);
     restartPolicy \<leftarrow> as_string (member ''restartPolicy'' kjs);
     podLabels \<leftarrow> as_map (member ''podLabels'' kjs);
     podAnnotations \<leftarrow> as_map (member ''podAnnotations'' kjs);
     idle \<leftarrow> as_ptr (as_int in_int32) (member ''idleTimeout'' kjs);
     Some \<lparr>upd_Image = image, upd_ImagePullPolicy = pullPolicy, upd_Env = env, upd_EnvFrom = envFrom,
       upd_Resources = resources, upd_Command = command, upd_Args = args, upd_ServiceAccount = account,
       upd_RestartPolicy = restartPolicy, upd_PodLabels = podLabels, upd_PodAnnotations = podAnnotations,
       upd_IdleTimeout = idle\<rparr> }"

definition bind_SetEnv :: "KTypes \<Rightarrow> json \<Rightarrow> EnvVar slice option" where
  "bind_SetEnv K j = do {
     kjs \<leftarrow> members j;
     env \<leftarrow> as_slice (as_env K) (member ''env'' kjs);
     if env = None then None else Some env }"

definition bind_MergeEnv :: "KTypes \<Rightarrow> json \<Rightarrow> EnvVar slice option" where
  "bind_MergeEnv K j = do {
     kjs \<leftarrow> members j;
     env \<leftarrow> as_slice (as_env K) (member ''env'' kjs);
     if env = None then None else Some env }"

definition bind_Cache :: "json \<Rightarrow> CacheSetRequest option" where
  "bind_Cache j = do {
     kjs \<leftarrow> members j;
     value \<leftarrow> as_any (member ''value'' kjs);
     ttl \<leftarrow> as_int in_int64 (member ''ttl_seconds'' kjs);
     if value = VNil then None else Some \<lparr>set_Value = value, set_TTL = ttl\<rparr> }"

text \<open>
  What the handlers get for a document; \<open>None\<close> is a body that is not JSON. \<open>why\<close> gives the text of the error.
\<close>

definition bound :: "(json option \<Rightarrow> string) \<Rightarrow> (json \<Rightarrow> 'a option) \<Rightarrow> json option \<Rightarrow> string + 'a" where
  "bound why bnd raw = (case Option.bind raw bnd of None \<Rightarrow> Inl (why raw) | Some r \<Rightarrow> Inr r)"

definition read_body :: "KTypes \<Rightarrow> (json option \<Rightarrow> string) \<Rightarrow> json option \<Rightarrow> Body" where
  "read_body K why raw =
     \<lparr>body_Create = bound why (bind_Create K) raw, body_Update = bound why (bind_Update K) raw,
      body_SetEnv = bound why (bind_SetEnv K) raw, body_MergeEnv = bound why (bind_MergeEnv K) raw,
      body_Cache = bound why bind_Cache raw\<rparr>"

end
