(* ===== verification/Api_Bodies.thy ===== *)
theory Api_Bodies
  imports Api_Docs Rest_Bodies
begin

text \<open>
  The schemas of bodies in the template of \<open>docs/docs.go\<close>, its tags and its fixed fields, and whether a client that follows the
  schemas is understood by the handlers. The descriptions are left out.
\<close>

section \<open>The schemas\<close>

datatype BodySchema =
    TString
  | TBoolean
  | TInteger
  | TAny \<comment> \<open>no type at all\<close>
  | TEnum "string list"
  | TArray BodySchema
  | TMap BodySchema \<comment> \<open>an object with \<open>additionalProperties\<close>\<close>
  | TRef string
  | TAllOf "BodySchema list"
  | TObject "string list" "(string \<times> BodySchema) list" \<comment> \<open>the required and all properties\<close>

definition schema_CacheSetRequest :: "string \<times> BodySchema" where
  "schema_CacheSetRequest = (''internal_rest.CacheSetRequest'', TObject [''value'']
     [(''ttl_seconds'', TInteger), (''value'', TAny)])"

definition schema_CreateAgentRequest :: "string \<times> BodySchema" where
  "schema_CreateAgentRequest = (''internal_rest.CreateAgentRequest'', TObject [''image'', ''name'']
     [(''annotations'', TMap TString), (''args'', TArray TString), (''command'', TArray TString),
      (''env'', TArray (TRef ''v1.EnvVar'')), (''envFrom'', TArray (TRef ''v1.EnvFromSource'')),
      (''idleTimeout'', TInteger), (''image'', TString), (''imagePullPolicy'', TString),
      (''labels'', TMap TString), (''name'', TString), (''paused'', TBoolean),
      (''podAnnotations'', TMap TString), (''podLabels'', TMap TString),
      (''resources'', TRef ''v1.ResourceRequirements''), (''restartPolicy'', TString),
      (''selfHealingDisabled'', TBoolean), (''serviceAccountName'', TString), (''servicePort'', TInteger),
      (''serviceProtocol'', TString)])"

definition schema_EnvMergeRequest :: "string \<times> BodySchema" where
  "schema_EnvMergeRequest = (''internal_rest.EnvMergeRequest'', TObject [''env'']
     [(''env'', TArray (TRef ''v1.EnvVar''))])"

definition schema_EnvSetRequest :: "string \<times> BodySchema" where
  "schema_EnvSetRequest = (''internal_rest.EnvSetRequest'', TObject [''env'']
     [(''env'', TArray (TRef ''v1.EnvVar''))])"

definition schema_Quantity :: "string \<times> BodySchema" where
  "schema_Quantity = (''resource.Quantity'', TObject []
     [(''Format'', TEnum [''DecimalExponent'', ''BinarySI'', ''DecimalSI''])])"

definition schema_ConfigMapEnvSource :: "string \<times> BodySchema" where
  "schema_ConfigMapEnvSource = (''v1.ConfigMapEnvSource'', TObject []
     [(''name'', TString), (''optional'', TBoolean)])"

definition schema_ConfigMapKeySelector :: "string \<times> BodySchema" where
  "schema_ConfigMapKeySelector = (''v1.ConfigMapKeySelector'', TObject []
     [(''key'', TString), (''name'', TString), (''optional'', TBoolean)])"

definition schema_EnvFromSource :: "string \<times> BodySchema" where
  "schema_EnvFromSource = (''v1.EnvFromSource'', TObject []
     [(''configMapRef'', TAllOf [TRef ''v1.ConfigMapEnvSource'']), (''prefix'', TString),
      (''secretRef'', TAllOf [TRef ''v1.SecretEnvSource''])])"

definition schema_EnvVar :: "string \<times> BodySchema" where
  "schema_EnvVar = (''v1.EnvVar'', TObject []
     [(''name'', TString), (''value'', TString), (''valueFrom'', TAllOf [TRef ''v1.EnvVarSource''])])"

definition schema_EnvVarSource :: "string \<times> BodySchema" where
  "schema_EnvVarSource = (''v1.EnvVarSource'', TObject []
     [(''configMapKeyRef'', TAllOf [TRef ''v1.ConfigMapKeySelector'']),
      (''fieldRef'', TAllOf [TRef ''v1.ObjectFieldSelector'']),
      (''resourceFieldRef'', TAllOf [TRef ''v1.ResourceFieldSelector'']),
      (''secretKeyRef'', TAllOf [TRef ''v1.SecretKeySelector''])])"

definition schema_ObjectFieldSelector :: "string \<times> BodySchema" where
  "schema_ObjectFieldSelector = (''v1.ObjectFieldSelector'', TObject []
     [(''apiVersion'', TString), (''fieldPath'', TString)])"

definition schema_ResourceClaim :: "string \<times> BodySchema" where
  "schema_ResourceClaim = (''v1.ResourceClaim'', TObject []
     [(''name'', TString), (''request'', TString)])"

definition schema_ResourceFieldSelector :: "string \<times> BodySchema" where
  "schema_ResourceFieldSelector = (''v1.ResourceFieldSelector'', TObject []
     [(''containerName'', TString), (''divisor'', TAllOf [TRef ''resource.Quantity'']),
      (''resource'', TString)])"

definition schema_ResourceList :: "string \<times> BodySchema" where
  "schema_ResourceList = (''v1.ResourceList'', TMap (TRef ''resource.Quantity''))"

definition schema_ResourceRequirements :: "string \<times> BodySchema" where
  "schema_ResourceRequirements = (''v1.ResourceRequirements'', TObject []
     [(''claims'', TArray (TRef ''v1.ResourceClaim'')), (''limits'', TAllOf [TRef ''v1.ResourceList'']),
      (''requests'', TAllOf [TRef ''v1.ResourceList''])])"

definition schema_SecretEnvSource :: "string \<times> BodySchema" where
  "schema_SecretEnvSource = (''v1.SecretEnvSource'', TObject []
     [(''name'', TString), (''optional'', TBoolean)])"

definition schema_SecretKeySelector :: "string \<times> BodySchema" where
  "schema_SecretKeySelector = (''v1.SecretKeySelector'', TObject []
     [(''key'', TString), (''name'', TString), (''optional'', TBoolean)])"

definition definitions :: "(string \<times> BodySchema) list" where
  "definitions = [schema_CacheSetRequest, schema_CreateAgentRequest, schema_EnvMergeRequest, schema_EnvSetRequest,
     schema_Quantity, schema_ConfigMapEnvSource, schema_ConfigMapKeySelector, schema_EnvFromSource, schema_EnvVar,
     schema_EnvVarSource, schema_ObjectFieldSelector, schema_ResourceClaim, schema_ResourceFieldSelector,
     schema_ResourceList, schema_ResourceRequirements, schema_SecretEnvSource, schema_SecretKeySelector]"

lemmas schema_defs =
  schema_CacheSetRequest_def schema_CreateAgentRequest_def schema_EnvMergeRequest_def schema_EnvSetRequest_def
  schema_Quantity_def schema_ConfigMapEnvSource_def schema_ConfigMapKeySelector_def schema_EnvFromSource_def
  schema_EnvVar_def schema_EnvVarSource_def schema_ObjectFieldSelector_def schema_ResourceClaim_def
  schema_ResourceFieldSelector_def schema_ResourceList_def schema_ResourceRequirements_def
  schema_SecretEnvSource_def schema_SecretKeySelector_def

text \<open>The names of the tags, and the fields of \<open>SwaggerInfo\<close> that the template takes over.\<close>

definition docs_tags :: "string list" where
  "docs_tags = [''health'', ''agents'', ''lifecycle'', ''env'', ''logs'', ''cache'']"

record SwaggerSpec =
  swag_Version :: string
  swag_Host :: string
  swag_BasePath :: string
  swag_Schemes :: "string list"
  swag_Title :: string
  swag_InfoInstanceName :: string

definition SwaggerInfo :: SwaggerSpec where
  "SwaggerInfo = \<lparr>swag_Version = ''1.0'', swag_Host = ''localhost:8082'', swag_BasePath = ''/'',
     swag_Schemes = [''http''], swag_Title = ''K8s Agent Orchestrator API'', swag_InfoInstanceName = ''swagger''\<rparr>"

text \<open>The template is closed: it declares every tag and every schema that it uses, and no tag for nothing.\<close>

fun refs :: "BodySchema \<Rightarrow> string list" where
  "refs (TArray s) = refs s"
| "refs (TMap s) = refs s"
| "refs (TRef x) = [x]"
| "refs (TAllOf ss) = concat (map refs ss)"
| "refs (TObject req props) = concat (map (\<lambda>p. refs (snd p)) props)"
| "refs _ = []"

definition body_schema :: "Operation \<Rightarrow> string option" where
  "body_schema op = map_option prm_Type (find (\<lambda>q. prm_In q = ''body'') (op_Parameters op))"

lemma template_closed:
  "set (concat (map (\<lambda>(k, op). op_Tags op) documented)) = set docs_tags"
  "set (concat (map (\<lambda>(x, s). refs s) definitions)) \<subseteq> set (map fst definitions)"
  "set (List.map_filter (\<lambda>(k, op). body_schema op) documented) \<subseteq> set (map fst definitions)"
  "distinct (map fst definitions)"
  by code_simp+

section \<open>Documents that meet a schema\<close>

text \<open>
  The meaning of a schema. The number bounds the depth of references; the references of the template have a depth of
  at most five.
\<close>

lemma property_size: "(k, s) \<in> set props \<Longrightarrow> size s \<le> size_list (size_prod (\<lambda>x. 0) size) props"
  by (induction props) auto

function meets :: "nat \<Rightarrow> BodySchema \<Rightarrow> json \<Rightarrow> bool" where
  "meets n TString j \<longleftrightarrow> (case j of JString s \<Rightarrow> True | _ \<Rightarrow> False)"
| "meets n TBoolean j \<longleftrightarrow> (case j of JBool b \<Rightarrow> True | _ \<Rightarrow> False)"
| "meets n TInteger j \<longleftrightarrow> (case j of JInt i \<Rightarrow> True | _ \<Rightarrow> False)"
| "meets n TAny j \<longleftrightarrow> True"
| "meets n (TEnum xs) j \<longleftrightarrow> (case j of JString s \<Rightarrow> s \<in> set xs | _ \<Rightarrow> False)"
| "meets n (TArray s) j \<longleftrightarrow> (case j of JArray js \<Rightarrow> list_all (meets n s) js | _ \<Rightarrow> False)"
| "meets n (TMap s) j \<longleftrightarrow> (case j of JObject kjs \<Rightarrow> list_all (\<lambda>kj. meets n s (snd kj)) kjs | _ \<Rightarrow> False)"
| "meets n (TRef x) j \<longleftrightarrow> (case n of 0 \<Rightarrow> False
     | Suc m \<Rightarrow> (case map_of definitions x of None \<Rightarrow> False | Some s \<Rightarrow> meets m s j))"
| "meets n (TAllOf ss) j \<longleftrightarrow> list_all (\<lambda>s. meets n s j) ss"
| "meets n (TObject req props) j \<longleftrightarrow> (case j of
     JObject kjs \<Rightarrow> list_all (\<lambda>k. map_of kjs k \<noteq> None) req \<and>
       list_all (\<lambda>p. case map_of kjs (fst p) of None \<Rightarrow> True | Some v \<Rightarrow> meets n (snd p) v) props
   | _ \<Rightarrow> False)"
  by pat_completeness auto

termination
  by (relation "measures [\<lambda>(n, s, j). n, \<lambda>(n, s, j). size s]")
    (auto simp: less_Suc_eq_le property_size dest: size_list_estimation' [OF _ order.refl, of _ _ size])

section \<open>What the schemas leave open\<close>

text \<open>
  A document is plain if it keeps the rules of the handlers that no schema states: a name in it that is the name of a field
  up to the case is spelled like it, \<open>name\<close> and \<open>image\<close> are not empty, numbers fit their fields, a cached value is
  not \<open>null\<close>, and Kubernetes understands the values of its own types (the schema of a quantity, an object with a
  format, is not what it understands).
\<close>

definition spelled :: "string list \<Rightarrow> (string \<times> json) list \<Rightarrow> bool" where
  "spelled ks kjs \<longleftrightarrow> list_all (\<lambda>kj. list_all (\<lambda>k. same_name (fst kj) k \<longrightarrow> fst kj = k) ks) kjs"

definition accepted_by :: "(json \<Rightarrow> 'a option) \<Rightarrow> json \<Rightarrow> bool" where
  "accepted_by d j \<longleftrightarrow> j = JNull \<or> d j \<noteq> None"

fun items :: "json \<Rightarrow> json list" where
  "items (JArray js) = js"
| "items _ = []"

definition plain_env :: "KTypes \<Rightarrow> json \<Rightarrow> bool" where
  "plain_env K j = (case members j of None \<Rightarrow> True | Some kjs \<Rightarrow>
     spelled [''name'', ''value'', ''valueFrom''] kjs \<and> accepted_by (kt_EnvVarSource K) (member ''valueFrom'' kjs))"

fun fits_or_other :: "(int \<Rightarrow> bool) \<Rightarrow> json \<Rightarrow> bool" where
  "fits_or_other fits (JInt i) = fits i"
| "fits_or_other fits _ = True"

fun properties :: "BodySchema \<Rightarrow> string list" where
  "properties (TObject req props) = map fst props"
| "properties _ = []"

definition plain_body :: "KTypes \<Rightarrow> json \<Rightarrow> bool" where
  "plain_body K j = (case members j of None \<Rightarrow> True | Some kjs \<Rightarrow>
     spelled (concat (map (\<lambda>d. properties (snd d)) [schema_CreateAgentRequest, schema_CacheSetRequest])) kjs \<and>
     member ''name'' kjs \<noteq> JString '''' \<and> member ''image'' kjs \<noteq> JString '''' \<and>
     fits_or_other in_int32 (member ''servicePort'' kjs) \<and> fits_or_other in_int32 (member ''idleTimeout'' kjs) \<and>
     fits_or_other in_int64 (member ''ttl_seconds'' kjs) \<and>
     map_of kjs ''value'' \<noteq> Some JNull \<and> finite_numbers (member ''value'' kjs) \<and>
     list_all (plain_env K) (items (member ''env'' kjs)) \<and>
     list_all (accepted_by (kt_EnvFromSource K)) (items (member ''envFrom'' kjs)) \<and>
     accepted_by (kt_ResourceRequirements K) (member ''resources'' kjs))"

section \<open>Fields that meet their schemas are decoded\<close>

text \<open>A field may also be absent.\<close>

definition may_meet :: "nat \<Rightarrow> BodySchema \<Rightarrow> json \<Rightarrow> bool" where
  "may_meet n s j \<longleftrightarrow> j = JNull \<or> meets n s j"

lemma member_spelled:
  "spelled ks kjs \<Longrightarrow> k \<in> set ks \<Longrightarrow> member k kjs = (case map_of kjs k of None \<Rightarrow> JNull | Some j \<Rightarrow> j)"
  by (induction kjs) (auto simp: spelled_def same_name_def list_all_iff)

lemma fields_may_meet:
  assumes "spelled ks kjs" and "meets n (TObject req props) (JObject kjs)" and "list_all (\<lambda>p. fst p \<in> set ks) props"
  shows "list_all (\<lambda>p. may_meet n (snd p) (member (fst p) kjs)) props"
    and "list_all (\<lambda>p. fst p \<in> set req \<longrightarrow> meets n (snd p) (member (fst p) kjs)) props"
proof -
  have there: "member (fst p) kjs = (case map_of kjs (fst p) of None \<Rightarrow> JNull | Some j \<Rightarrow> j)" if "p \<in> set props" for p
    using assms(3) that by (simp add: list_all_iff member_spelled [OF assms(1)])
  show "list_all (\<lambda>p. may_meet n (snd p) (member (fst p) kjs)) props"
    using assms(2) by (auto simp: list_all_iff may_meet_def there split: option.split)
  show "list_all (\<lambda>p. fst p \<in> set req \<longrightarrow> meets n (snd p) (member (fst p) kjs)) props"
    using assms(2) by (fastforce simp: list_all_iff there split: option.split)
qed

lemma those_some: "(\<And>x. x \<in> set xs \<Longrightarrow> \<exists>y. d x = Some y) \<Longrightarrow> \<exists>ys. those (map d xs) = Some ys"
  by (induction xs) fastforce+

lemma meets_string: "meets n TString j \<longleftrightarrow> (\<exists>s. j = JString s)"
  by (cases j) auto

lemma decoded_fields:
  "may_meet n TString j \<Longrightarrow> as_string j \<noteq> None"
  "may_meet n TBoolean j \<Longrightarrow> as_bool j \<noteq> None"
  "may_meet n TInteger j \<Longrightarrow> fits_or_other fits j \<Longrightarrow> as_int fits j \<noteq> None"
  "may_meet n (TArray TString) j \<Longrightarrow> as_slice as_string j \<noteq> None"
  "may_meet n (TMap TString) j \<Longrightarrow> as_map j \<noteq> None"
  "accepted_by d j \<Longrightarrow> as_struct d j \<noteq> None"
  "accepted_by d' j \<Longrightarrow> as_ptr d' j \<noteq> None"
  "finite_numbers j \<Longrightarrow> as_any j \<noteq> None"
proof -
  show "may_meet n TString j \<Longrightarrow> as_string j \<noteq> None" "may_meet n TBoolean j \<Longrightarrow> as_bool j \<noteq> None"
    "may_meet n TInteger j \<Longrightarrow> fits_or_other fits j \<Longrightarrow> as_int fits j \<noteq> None"
    by (cases j; simp add: may_meet_def)+
  show "may_meet n (TArray TString) j \<Longrightarrow> as_slice as_string j \<noteq> None"
    by (cases j) (auto simp: may_meet_def meets_string list_all_iff simp del: meets.simps(1) dest!: bspec intro!: those_some)
  show "may_meet n (TMap TString) j \<Longrightarrow> as_map j \<noteq> None"
    by (cases j) (fastforce simp: may_meet_def meets_string list_all_iff simp del: meets.simps(1) intro!: those_some)+
  show "accepted_by d j \<Longrightarrow> as_struct d j \<noteq> None" by (auto simp: accepted_by_def as_struct_def)
  show "accepted_by d' j \<Longrightarrow> as_ptr d' j \<noteq> None" by (cases j) (auto simp: accepted_by_def)
  show "finite_numbers j \<Longrightarrow> as_any j \<noteq> None" by (simp add: as_any_def)
qed

lemma decoded_slices:
  "may_meet n (TArray (TRef x)) j \<Longrightarrow> list_all (accepted_by d) (items j) \<Longrightarrow> as_slice (as_struct d) j \<noteq> None"
  by (cases j) (auto simp: may_meet_def list_all_iff simp del: meets.simps(8) dest!: bspec decoded_fields(6) intro!: those_some)

lemma bind_some: "x \<noteq> None \<Longrightarrow> (\<And>a. x = Some a \<Longrightarrow> f a \<noteq> None) \<Longrightarrow> Option.bind x f \<noteq> None"
  by (cases x) auto

lemma meets_object: "meets n (TObject req props) j \<Longrightarrow> \<exists>kjs. j = JObject kjs"
  by (cases j) auto

lemma meets_ref: "meets n (TRef x) j \<Longrightarrow> \<exists>m s. map_of definitions x = Some s \<and> meets m s j"
  by (auto split: nat.splits option.splits)

lemma decoded_env:
  assumes "meets n (TRef ''v1.EnvVar'') j" and "plain_env K j"
  shows "as_env K j \<noteq> None"
proof -
  obtain m where m: "meets m (snd schema_EnvVar) j"
    using meets_ref [OF assms(1)] by (auto simp: definitions_def schema_defs)
  then obtain kjs where j: "j = JObject kjs"
    unfolding schema_EnvVar_def snd_conv by (blast dest: meets_object)
  note sp = assms(2) [unfolded plain_env_def j, simplified]
  have "may_meet m TString (member ''name'' kjs) \<and> may_meet m TString (member ''value'' kjs)"
    using fields_may_meet(1) [OF conjunct1 [OF sp] m [unfolded schema_EnvVar_def snd_conv j]] by simp
  then have "as_string (member ''name'' kjs) \<noteq> None" "as_string (member ''value'' kjs) \<noteq> None"
    "as_ptr (kt_EnvVarSource K) (member ''valueFrom'' kjs) \<noteq> None"
    using sp by - (rule decoded_fields; blast)+
  then show ?thesis unfolding as_env_def j by (intro bind_some; simp)
qed

lemma decoded_env_slice:
  "may_meet n (TArray (TRef ''v1.EnvVar'')) j \<Longrightarrow> list_all (plain_env K) (items j) \<Longrightarrow> as_slice (as_env K) j \<noteq> None"
  by (cases j) (auto simp: may_meet_def list_all_iff simp del: meets.simps(8) dest!: bspec dest: decoded_env intro!: those_some)

section \<open>Bodies that meet their schemas are accepted\<close>

text \<open>A document for a schema of the template, as an object.\<close>

lemma plain_object:
  assumes "meets n (TRef x) j" and "map_of definitions x = Some (TObject req props)" and "plain_body K j"
    and "list_all (\<lambda>p. fst p \<in> set (concat (map (\<lambda>d. properties (snd d)) [schema_CreateAgentRequest, schema_CacheSetRequest]))) props"
  shows "\<exists>m kjs. j = JObject kjs \<and> meets m (TObject req props) (JObject kjs) \<and>
    list_all (\<lambda>p. may_meet m (snd p) (member (fst p) kjs)) props \<and>
    list_all (\<lambda>p. fst p \<in> set req \<longrightarrow> meets m (snd p) (member (fst p) kjs)) props"
proof -
  obtain m where m: "meets m (TObject req props) j" using meets_ref [OF assms(1)] assms(2) by auto
  then obtain kjs where j: "j = JObject kjs" by (blast dest: meets_object)
  note sp = conjunct1 [OF assms(3) [unfolded plain_body_def j members.simps option.case]]
  from m fields_may_meet [OF sp m [unfolded j] assms(4)] j show ?thesis by blast
qed

lemma create_accepted:
  assumes "meets n (TRef ''internal_rest.CreateAgentRequest'') j" and "plain_body K j"
  shows "bind_Create K j \<noteq> None" "bind_Update K j \<noteq> None"
proof -
  obtain m kjs where j: "j = JObject kjs" and f: "may_meet m TString (member ''imagePullPolicy'' kjs)"
      "may_meet m (TArray (TRef ''v1.EnvVar'')) (member ''env'' kjs)"
      "may_meet m (TArray (TRef ''v1.EnvFromSource'')) (member ''envFrom'' kjs)"
      "may_meet m (TArray TString) (member ''command'' kjs)" "may_meet m (TArray TString) (member ''args'' kjs)"
      "may_meet m TString (member ''serviceAccountName'' kjs)" "may_meet m TString (member ''restartPolicy'' kjs)"
      "may_meet m (TMap TString) (member ''podLabels'' kjs)" "may_meet m (TMap TString) (member ''podAnnotations'' kjs)"
      "may_meet m (TMap TString) (member ''labels'' kjs)" "may_meet m (TMap TString) (member ''annotations'' kjs)"
      "may_meet m TBoolean (member ''selfHealingDisabled'' kjs)" "may_meet m TBoolean (member ''paused'' kjs)"
      "may_meet m TInteger (member ''servicePort'' kjs)" "may_meet m TString (member ''serviceProtocol'' kjs)"
      "may_meet m TInteger (member ''idleTimeout'' kjs)"
    and r: "meets m TString (member ''name'' kjs)" "meets m TString (member ''image'' kjs)"
    using plain_object [OF assms(1) _ assms(2)]
    by (simp add: definitions_def schema_defs meets_string del: meets.simps) blast
  note p = assms(2) [unfolded plain_body_def j members.simps option.case]
  obtain name image where ni: "member ''name'' kjs = JString name" "member ''image'' kjs = JString image"
    "name \<noteq> ''''" "image \<noteq> ''''"
    using r p by (auto simp: meets_string simp del: meets.simps)
  have d: "as_string (member ''imagePullPolicy'' kjs) \<noteq> None"
    "as_slice (as_env K) (member ''env'' kjs) \<noteq> None"
    "as_slice (as_struct (kt_EnvFromSource K)) (member ''envFrom'' kjs) \<noteq> None"
    "as_struct (kt_ResourceRequirements K) (member ''resources'' kjs) \<noteq> None"
    "as_slice as_string (member ''command'' kjs) \<noteq> None" "as_slice as_string (member ''args'' kjs) \<noteq> None"
    "as_string (member ''serviceAccountName'' kjs) \<noteq> None" "as_string (member ''restartPolicy'' kjs) \<noteq> None"
    "as_map (member ''podLabels'' kjs) \<noteq> None" "as_map (member ''podAnnotations'' kjs) \<noteq> None"
    "as_map (member ''labels'' kjs) \<noteq> None" "as_map (member ''annotations'' kjs) \<noteq> None"
    "as_bool (member ''selfHealingDisabled'' kjs) \<noteq> None" "as_bool (member ''paused'' kjs) \<noteq> None"
    "as_int in_int32 (member ''servicePort'' kjs) \<noteq> None" "as_string (member ''serviceProtocol'' kjs) \<noteq> None"
    "as_int in_int32 (member ''idleTimeout'' kjs) \<noteq> None"
    by (rule decoded_fields decoded_slices decoded_env_slice, use f p in blast, (use p in blast)?)+
  have "as_ptr (as_int in_int32) (member ''idleTimeout'' kjs) \<noteq> None"
    using d(17) by (intro decoded_fields) (simp add: accepted_by_def)
  then show "bind_Create K j \<noteq> None" "bind_Update K j \<noteq> None"
    unfolding bind_Create_def bind_Update_def j by (intro bind_some; use d ni in simp)+
qed

lemma env_accepted:
  assumes "x \<in> {''internal_rest.EnvSetRequest'', ''internal_rest.EnvMergeRequest''}" and "meets n (TRef x) j" and "plain_body K j"
  shows "bind_SetEnv K j \<noteq> None" "bind_MergeEnv K j \<noteq> None"
proof -
  obtain m kjs where j: "j = JObject kjs" and r: "meets m (TArray (TRef ''v1.EnvVar'')) (member ''env'' kjs)"
    using plain_object [OF assms(2) _ assms(3)] assms(1)
    by (auto simp: definitions_def schema_defs simp del: meets.simps)
  note p = assms(3) [unfolded plain_body_def j members.simps option.case]
  have "may_meet m (TArray (TRef ''v1.EnvVar'')) (member ''env'' kjs)" using r unfolding may_meet_def by blast
  then have "as_slice (as_env K) (member ''env'' kjs) \<noteq> None" using p by - (rule decoded_env_slice; blast)
  moreover have "as_slice (as_env K) (member ''env'' kjs) \<noteq> Some None" using r by (cases "member ''env'' kjs") auto
  ultimately show "bind_SetEnv K j \<noteq> None" "bind_MergeEnv K j \<noteq> None"
    unfolding bind_SetEnv_def bind_MergeEnv_def j by (intro bind_some; force)+
qed

lemma from_json_nil: "from_json j = VNil \<longleftrightarrow> j = JNull"
  by (cases j) auto

lemma cache_accepted:
  assumes "meets n (TRef ''internal_rest.CacheSetRequest'') j" and "plain_body K j"
  shows "bind_Cache j \<noteq> None"
proof -
  obtain m kjs where j: "j = JObject kjs" and ttl: "may_meet m TInteger (member ''ttl_seconds'' kjs)"
    and v: "meets m (TObject [''value''] [(''ttl_seconds'', TInteger), (''value'', TAny)]) (JObject kjs)"
    using plain_object [OF assms(1) _ assms(2)] by (auto simp: definitions_def schema_defs simp del: meets.simps)
  note p = assms(2) [unfolded plain_body_def j members.simps option.case]
  have "member ''value'' kjs \<noteq> JNull"
    using v p member_spelled [OF conjunct1 [OF p], of "''value''"] by (auto simp: schema_defs)
  moreover have "as_any (member ''value'' kjs) = Some (from_json (member ''value'' kjs))" using p by (simp add: as_any_def)
  moreover have "as_int in_int64 (member ''ttl_seconds'' kjs) \<noteq> None" using ttl p by - (rule decoded_fields; blast)
  ultimately show ?thesis
    unfolding bind_Cache_def j by (intro bind_some) (auto simp: from_json_nil)
qed

section \<open>No answer 400\<close>

definition understands :: "('k, 'h, 'c) handler \<Rightarrow> Body \<Rightarrow> bool" where
  "understands h b \<longleftrightarrow> (\<forall>c. yields (pred_option (\<lambda>r. resp_Code r \<noteq> 400)) (h c b))"

lemma understands_any: "answers_in cs h \<Longrightarrow> list_all (\<lambda>x. fst x \<noteq> 400) cs \<Longrightarrow> understands h b"
  unfolding answers_in_def understands_def yields_def code_in_def
  by (fastforce simp: list_all_iff pred_option_def)

lemma understands_touching: "understands h b \<Longrightarrow> understands (touching s h) b"
  unfolding understands_def touching_def activityMiddleware_def by (intro allI yields_bind) simp

lemma understands_body:
  "f b = Inr req \<Longrightarrow> (\<And>c. yields (code_in [any_ok, (201, AnyMap), flat 404, flat 409, flat 500]) (h c (Inr req))) \<Longrightarrow>
   understands (with_body f h) b"
  unfolding understands_def with_body_def
  by (auto intro!: yields_bind_result [where Q = "code_in [any_ok, (201, AnyMap), flat 404, flat 409, flat 500]"] yields_ret
      simp: code_in_def)

lemma understood:
  "bind_Create K j \<noteq> None \<Longrightarrow> understands (with_body body_Create (handleCreateAgent s)) (read_body K why (Some j))"
  "bind_Update K j \<noteq> None \<Longrightarrow> understands (with_body body_Update (handleUpdateAgent s)) (read_body K why (Some j))"
  "bind_SetEnv K j \<noteq> None \<Longrightarrow> understands (with_body body_SetEnv (handleSetEnv s)) (read_body K why (Some j))"
  "bind_MergeEnv K j \<noteq> None \<Longrightarrow> understands (with_body body_MergeEnv (handleMergeEnv s)) (read_body K why (Some j))"
  "bind_Cache j \<noteq> None \<Longrightarrow> understands (with_body body_Cache (handleSetCacheField s)) (read_body K why (Some j))"
  unfolding handleCreateAgent_def handleUpdateAgent_def handleSetEnv_def handleMergeEnv_def handleSetCacheField_def Let_def
  by (clarsimp simp: read_body_def bound_def, rule understands_body, simp, simp only: sum.case,
      (intro codes_intros; simp))+

text \<open>A body, if one is documented, that meets its schema.\<close>

definition follows :: "KTypes \<Rightarrow> json \<Rightarrow> string option \<Rightarrow> bool" where
  "follows K j sc \<longleftrightarrow> (case sc of None \<Rightarrow> True | Some x \<Rightarrow> (\<exists>n. meets n (TRef x) j) \<and> plain_body K j)"

lemma follows_understood:
  "follows K j (Some ''internal_rest.CreateAgentRequest'') \<Longrightarrow>
   understands (with_body body_Create (handleCreateAgent s)) (read_body K why (Some j))"
  "follows K j (Some ''internal_rest.CreateAgentRequest'') \<Longrightarrow>
   understands (with_body body_Update (handleUpdateAgent s)) (read_body K why (Some j))"
  "follows K j (Some ''internal_rest.EnvSetRequest'') \<Longrightarrow>
   understands (with_body body_SetEnv (handleSetEnv s)) (read_body K why (Some j))"
  "follows K j (Some ''internal_rest.EnvMergeRequest'') \<Longrightarrow>
   understands (with_body body_MergeEnv (handleMergeEnv s)) (read_body K why (Some j))"
  "follows K j (Some ''internal_rest.CacheSetRequest'') \<Longrightarrow>
   understands (with_body body_Cache (handleSetCacheField s)) (read_body K why (Some j))"
  unfolding follows_def option.case
  by (elim conjE exE; rule understood; rule create_accepted env_accepted cache_accepted; (assumption | simp))+

definition schema_at :: "meth \<times> string \<Rightarrow> string option" where
  "schema_at k = Option.bind (map_of documented k) body_schema"

lemma documented_schemas:
  "map (\<lambda>k. (codes_at k = None, schema_at k)) (filter (\<lambda>(m, p). \<not> under_namespaces p) route_keys) =
     [(True, None), (False, None), (False, None), (False, Some ''internal_rest.CreateAgentRequest''), (False, None),
      (False, None), (False, None), (False, None), (False, Some ''internal_rest.CreateAgentRequest''), (False, None),
      (False, None), (False, None), (False, None), (False, None), (False, None), (False, None), (False, None),
      (False, Some ''internal_rest.EnvSetRequest''), (False, Some ''internal_rest.EnvMergeRequest''), (False, None),
      (False, None), (False, None), (False, None), (False, Some ''internal_rest.CacheSetRequest''),
      (False, None), (False, None)]"
  by code_simp

lemma public_understand:
  "list_all2 (\<lambda>r k. follows K j (snd k) \<longrightarrow> fst k \<or> understands (rt_Handler r) (read_body K why (Some j))) (public_routes d s)
     (map (\<lambda>r. (codes_at (rt_Method r, rt_Path r) = None, schema_at (rt_Method r, rt_Path r))) (public_routes d s))"
proof -
  have "map (\<lambda>r. (codes_at (rt_Method r, rt_Path r) = None, schema_at (rt_Method r, rt_Path r))) (public_routes d s) =
      map (\<lambda>k. (codes_at k = None, schema_at k)) (filter (\<lambda>(m, p). \<not> under_namespaces p) route_keys)"
    by (simp add: public_routes_def keys_of_routes [of d s, symmetric] filter_map comp_def)
  then show ?thesis unfolding documented_schemas
    by (simp add: public_routes_def registerRoutes_def registerAgentRoutes_def named_routes_def group_def
        follows_understood understands_touching handler_codes [THEN understands_any])
qed

section \<open>Properties\<close>


definition create_doc :: json where
  "create_doc = JObject [(''name'', JString ''b''), (''image'', JString ''nginx''), (''servicePort'', JInt 80),
     (''env'', JArray [JObject [(''name'', JString ''X''), (''value'', JString ''1'')]])]"

definition no_types :: KTypes where
  "no_types = \<lparr>kt_EnvVarSource = \<lambda>_. None, kt_EnvFromSource = \<lambda>_. None, kt_ResourceRequirements = \<lambda>_. None\<rparr>"

lemma create_doc_follows: "follows no_types create_doc (Some ''internal_rest.CreateAgentRequest'')"
proof -
  have "meets 2 (TRef ''internal_rest.CreateAgentRequest'') create_doc" by code_simp
  moreover have "plain_body no_types create_doc" by code_simp
  ultimately show ?thesis unfolding follows_def option.case by blast
qed

abbreviation registered_create :: "(cluster, InMemoryHistory, InMemoryCache) Route" where
  "registered_create \<equiv> route POST ''/api/v1/agents'' (with_body body_Create (handleCreateAgent ref_server))"

lemma with_body_answers: "\<exists>resp. fst (run_state (with_body f h c b) w) = Some resp"
  by (simp add: with_body_def split: prod.split)


text \<open>
  Documents that meet their schemas and are refused, because they are not plain: an empty name, a port beyond 32 bits, a
  value \<open>null\<close>. And one that the update of an agent accepts although it does not meet the schema that is documented for it.
\<close>

lemma schemas_too_wide:
  "meets 1 (TRef ''internal_rest.CreateAgentRequest'') (JObject [(''name'', JString ''''), (''image'', JString ''x'')]) \<and>
   bind_Create no_types (JObject [(''name'', JString ''''), (''image'', JString ''x'')]) = None"
  "meets 1 (TRef ''internal_rest.CreateAgentRequest'')
     (JObject [(''name'', JString ''b''), (''image'', JString ''x''), (''servicePort'', JInt 2147483648)]) \<and>
   bind_Create no_types (JObject [(''name'', JString ''b''), (''image'', JString ''x''), (''servicePort'', JInt 2147483648)]) = None"
  "meets 1 (TRef ''internal_rest.CacheSetRequest'') (JObject [(''value'', JNull)]) \<and> bind_Cache (JObject [(''value'', JNull)]) = None"
  "\<not> meets 1 (TRef ''internal_rest.CreateAgentRequest'') (JObject []) \<and> bind_Update no_types (JObject []) \<noteq> None"
  by code_simp+

end
