(* ===== verification/Start_Up.thy ===== *)
theory Start_Up
  imports Rest_Routes Redis_History Redis_Cache
begin

text \<open>
  The wiring of \<open>cmd/main.go\<close>: the flags, the choice of the stores, and the three components that share
  them. Parsing the command line, the manager, the log, the two HTTP listeners and the exits on
  errors of the manager are calls into libraries and are not modelled.
\<close>

section \<open>Flags\<close>

record Flags =
  f_metricsAddr :: string
  f_probeAddr :: string
  f_restAddr :: string
  f_defaultNamespace :: string
  f_leaderElect :: bool
  f_debug :: bool
  f_idleTimeoutDefault :: int
  f_idleCheckInterval :: int
  f_uiAddr :: string
  f_redisAddr :: string
  f_redisPassword :: string
  f_redisDB :: int
  f_historyMaxEntries :: int

definition default_flags :: Flags where
  "default_flags =
     \<lparr>f_metricsAddr = '':8080'', f_probeAddr = '':8081'', f_restAddr = '':8082'', f_defaultNamespace = ''default'',
      f_leaderElect = False, f_debug = False, f_idleTimeoutDefault = 0, f_idleCheckInterval = 30,
      f_uiAddr = '':8083'', f_redisAddr = '''', f_redisPassword = '''', f_redisDB = 0, f_historyMaxEntries = 1000\<rparr>"

text \<open>\<open>WATCH_NAMESPACE\<close> overrides the flag if it is set and not empty.\<close>

definition namespace_of :: "Flags \<Rightarrow> string \<Rightarrow> string" where
  "namespace_of fl watch_namespace = (if watch_namespace \<noteq> '''' then watch_namespace else f_defaultNamespace fl)"

text \<open>The namespaces that the manager's client can read, \<open>None\<close> for all.\<close>

definition cached_namespaces :: "string \<Rightarrow> string list option" where
  "cached_namespaces defaultNamespace = (if defaultNamespace \<noteq> '''' then Some [defaultNamespace] else None)"

section \<open>Components\<close>

definition idle_watcher :: "Flags \<Rightarrow> 'k Client \<Rightarrow> 'c CacheStore \<Rightarrow> ('k, 'c) Watcher" where
  "idle_watcher fl C S =
     \<lparr>w_Client = C, w_Cache = S, w_GlobalTimeout = wrap64 (f_idleTimeoutDefault fl * Second),
      w_CheckInterval = wrap64 (f_idleCheckInterval fl * Second)\<rparr>"

text \<open>\<open>lib\<close> supplies the functions of \<open>controllerutil\<close>, which are not code of the repository.\<close>

definition agent_reconciler ::
  "('k, 'h) AgentReconciler \<Rightarrow> 'k Client \<Rightarrow> 'h HistoryStore \<Rightarrow> ('k, 'h) AgentReconciler" where
  "agent_reconciler lib C H = lib\<lparr>r_Client := C, r_History := Some H\<rparr>"

definition NewServer ::
  "'k Client \<Rightarrow> 'c CacheStore \<Rightarrow> string \<Rightarrow> ('k, 'c) Watcher option \<Rightarrow> 'h HistoryStore option \<Rightarrow> ('k, 'h, 'c) Server" where
  "NewServer k8sClient cache defaultNamespace idleWatcher historyStore =
     \<lparr>s_Client = k8sClient, s_Cache = cache, s_History = historyStore, s_namespace = defaultNamespace,
      s_idleWatcher = idleWatcher\<rparr>"

record ('k, 'h, 'c) Program =
  pr_Watcher :: "('k, 'c) Watcher"
  pr_Reconciler :: "('k, 'h) AgentReconciler"
  pr_Server :: "('k, 'h, 'c) Server"

definition wire ::
  "Flags \<Rightarrow> string \<Rightarrow> ('k, 'h) AgentReconciler \<Rightarrow> 'k Client \<Rightarrow> 'c CacheStore \<Rightarrow> 'h HistoryStore \<Rightarrow> ('k, 'h, 'c) Program" where
  "wire fl watch_namespace lib C S H = (let wt = idle_watcher fl C S in
     \<lparr>pr_Watcher = wt, pr_Reconciler = agent_reconciler lib C H,
      pr_Server = NewServer C S (namespace_of fl watch_namespace) (Some wt) (Some H)\<rparr>)"

text \<open>
  With a Redis address the program pings the server and exits when that fails; without one it keeps
  everything in memory. \<open>connect\<close> is the client library's \<open>redis.NewClient\<close>, \<open>ping\<close> the answer.
\<close>

datatype ('k, 'r) main =
    Exit nat
  | WithRedis "('k, 'r, 'r) Program"
  | InMemory "('k, InMemoryHistory, InMemoryCache) Program" InMemoryHistory InMemoryCache

definition start ::
  "(string \<Rightarrow> string \<Rightarrow> int \<Rightarrow> 'r Redis) \<Rightarrow> bool \<Rightarrow> Flags \<Rightarrow> string \<Rightarrow>
   ('k, 'r) AgentReconciler \<Rightarrow> ('k, InMemoryHistory) AgentReconciler \<Rightarrow> 'k Client \<Rightarrow> ('k, 'r) main" where
  "start connect ping fl watch_namespace lib lib' C =
     (if f_redisAddr fl \<noteq> '''' then
        let rdb = connect (f_redisAddr fl) (f_redisPassword fl) (f_redisDB fl) in
        if \<not> ping then Exit 1
        else WithRedis (wire fl watch_namespace lib C (redis_store rdb) (NewRedisHistory rdb (f_historyMaxEntries fl)))
      else InMemory (wire fl watch_namespace lib' C mem_store mem_history)
             (NewInMemoryHistory (f_historyMaxEntries fl)) NewInMemoryCache)"

lemma wire_simps [simp]:
  "pr_Watcher (wire fl ns lib C S H) = idle_watcher fl C S"
  "s_Client (pr_Server (wire fl ns lib C S H)) = C" "s_Cache (pr_Server (wire fl ns lib C S H)) = S"
  "s_idleWatcher (pr_Server (wire fl ns lib C S H)) = Some (idle_watcher fl C S)"
  "s_namespace (pr_Server (wire fl ns lib C S H)) = namespace_of fl ns"
  "s_History (pr_Server (wire fl ns lib C S H)) = Some H"
  "r_Client (pr_Reconciler (wire fl ns lib C S H)) = C" "r_History (pr_Reconciler (wire fl ns lib C S H)) = Some H"
  by (simp_all add: wire_def NewServer_def agent_reconciler_def Let_def)

lemma idle_watcher_simps [simp]:
  "w_Client (idle_watcher fl C S) = C" "w_Cache (idle_watcher fl C S) = S"
  by (simp_all add: idle_watcher_def)

text \<open>\<open>time.NewTicker\<close> panics on an interval that is not positive; \<open>Start\<close> never gives it one.\<close>

lemma tick_interval_positive: "0 < tick_interval wt"
  by (simp add: tick_interval_def)

section \<open>The default idle timeout\<close>

lemma default_timeout:
  "spec_IdleTimeout (agent_Spec b) \<le> 0 \<Longrightarrow> in_int64 (f_idleTimeoutDefault fl * Second) \<Longrightarrow>
   effective_timeout (idle_watcher fl C S) b = f_idleTimeoutDefault fl * Second"
  by (simp add: effective_timeout_def idle_watcher_def)

lemma elapsed_nonneg: "j \<le> now \<Longrightarrow> t < 0 \<Longrightarrow> t \<le> sat64 (now - j)"
  by (simp add: sat64_def)

text \<open>
  What the flag \<open>--idle-timeout-default\<close> means for an agent without a timeout of its own whose last activity is
  \<open>j\<close>: 0 switches pausing off, a positive number is a timeout in seconds, and a negative number pauses
  the agent at the next check, even if it was active just now, while \<open>main\<close> logs that the watcher is disabled.
\<close>

lemma idle_default_flag:
  fixes w :: "('k, 'h, 'c) world" and P :: "('k, 'h, 'c) Program"
  assumes "P = wire fl ns lib C S H" and "activity_cache S seen back legal ttl_ok invar slack"
    and "invar (cach w)" and "mono (clock w)" and "activity_at seen (clock w 0) (cach w) (agent_key b) j" and "j \<le> clock w 0"
    and "fst (list_agents C None None (kube w)) = Inr bs" and "b \<in> set bs"
    and "\<forall>b \<in> set bs. legal (agent_Namespace b) (agent_Name b)"
    and "\<not> spec_Paused (agent_Spec b)" and "spec_IdleTimeout (agent_Spec b) \<le> 0"
    and "in_int64 (f_idleTimeoutDefault fl * Second)"
  shows "(\<exists>a oc. (PatchAgent b a, oc) \<in> set (sent (check (pr_Watcher P)) w)) \<longleftrightarrow>
    f_idleTimeoutDefault fl < 0 \<or>
    0 < f_idleTimeoutDefault fl \<and> f_idleTimeoutDefault fl * Second \<le> sat64 (clock w 0 - j)"
proof -
  let ?wt = "idle_watcher fl C S"
  have "activity_cache.tracking seen legal invar (agent_key b) j w"
    using assms(2-5,8,9) by (simp add: activity_cache.tracking_def [OF assms(2)] agent_key_def)
  from activity_cache.check_tracking [OF assms(2) this, of ?wt bs]
  have "(\<exists>a oc. (PatchAgent b a, oc) \<in> set (sent (check ?wt) w)) \<longleftrightarrow> activity_cache.overdue ?wt (clock w 0) j b"
    using assms(7-9) by auto
  moreover have "activity_cache.overdue ?wt (clock w 0) j b \<longleftrightarrow>
      f_idleTimeoutDefault fl \<noteq> 0 \<and> f_idleTimeoutDefault fl * Second \<le> sat64 (clock w 0 - j)"
    using assms(10) by (simp add: activity_cache.overdue_def [OF assms(2)] default_timeout [OF assms(11,12)])
  moreover have "f_idleTimeoutDefault fl * Second \<le> sat64 (clock w 0 - j)" if "f_idleTimeoutDefault fl < 0"
    using that by (intro elapsed_nonneg [OF assms(6)]) simp
  ultimately show ?thesis using assms(1) by fastforce
qed

text \<open>With a negative default, an agent that was touched two milliseconds ago is paused.\<close>

lemma touched_at_0: "activity_at mc_seen (5 * Millisecond) touched_cache (''default'', ''a'') 0"
proof -
  obtain j where j: "activity_at mc_seen Millisecond touched_cache (''default'', ''a'') j" "\<bar>j - 0\<bar> \<le> 0"
    using mem_activity.activity_after_touch [OF mc_inv_New, of 0 Millisecond "''default''" "''a''" "2 * Millisecond"]
    by (auto simp: touched_cache_def run_TouchActivity activity_time_def wrap64_def numeral_2_eq_2)
  then show ?thesis using activity_at_mono [of mc_seen Millisecond _ _ _ "5 * Millisecond"] by auto
qed

lemma touched_cache_inv: "mc_inv touched_cache"
  by (simp add: touched_cache_def run_TouchActivity mc_inv_Set mc_inv_New)

lemma idle_agent_timeout: "spec_IdleTimeout (agent_Spec idle_agent) = 0"
  by (simp add: idle_agent_def empty_spec_def)

lemma idle_default_flag_example:
  "\<exists>a oc. (PatchAgent idle_agent a, oc) \<in> set (sent (check (pr_Watcher
      (wire (default_flags\<lparr>f_idleTimeoutDefault := - 1\<rparr>) '''' ref_reconciler ref_kube mem_store mem_history)))
     (clock_world (ref_cluster idle_agent []) (NewInMemoryHistory 0) touched_cache (5 * Millisecond)))"
  using idle_default_flag [OF refl mem_activity_cache, where fl = "default_flags\<lparr>f_idleTimeoutDefault := - 1\<rparr>"
      and ns = "''''" and lib = ref_reconciler and C = ref_kube and H = mem_history and b = idle_agent and bs = "[idle_agent]"
      and j = 0 and w = "clock_world (ref_cluster idle_agent []) (NewInMemoryHistory 0) touched_cache (5 * Millisecond)"]
    touched_at_0
  by (simp add: ref_list_one slash_free_def mono_clock touched_cache_inv idle_agent_timeout in_int64_def)

end
