(* ===== verification/Main_Program.thy ===== *)
theory Main_Program
  imports Start_Up "HOL-Library.Sublist"
begin

text \<open>
  The process of \<open>cmd/main.go\<close>: the calls that \<open>main\<close> makes one after the other, each of which ends the process
  with exit code 1 if it fails, the three goroutines that it starts in between, and what becomes of the
  process when one of them ends. The calls themselves are into libraries (the manager, Redis, the two
  listeners): whether and when each returns, and with which result, is left to the environment, so a run
  of the process is any sequence of events that the step relation allows.
\<close>

section \<open>Scheme and controller\<close>

text \<open>
  \<open>AddToScheme\<close> registers the two types that \<open>init\<close> of \<open>agent_types.go\<close> gives to \<open>SchemeBuilder\<close>, in the group
  version of \<open>groupversion_info.go\<close>. A kind is a group, a version and a name.
\<close>

type_synonym kind = "string \<times> string \<times> string"

definition GroupVersion :: "string \<times> string" where
  "GroupVersion = (''orchestrator.dev'', ''v1alpha1'')"

definition registered_types :: "string list" where
  "registered_types = [''Agent'', ''AgentList'']"

definition AddToScheme :: "kind set \<Rightarrow> kind set" where
  "AddToScheme sch = sch \<union> (\<lambda>t. (fst GroupVersion, snd GroupVersion, t)) ` set registered_types"

text \<open>\<open>client_go\<close> are the kinds of \<open>clientgoscheme.AddToScheme\<close>.\<close>

definition init_scheme :: "kind set \<Rightarrow> kind set" where
  "init_scheme client_go = AddToScheme client_go"

record Controller =
  ct_For :: kind
  ct_Owns :: "kind list"

definition SetupWithManager :: Controller where
  "SetupWithManager =
     \<lparr>ct_For = (fst GroupVersion, snd GroupVersion, ''Agent''), ct_Owns = [('''', ''v1'', ''Pod''), ('''', ''v1'', ''Service'')]\<rparr>"

section \<open>The statements of main\<close>

record ManagerOptions =
  mo_Metrics :: string
  mo_Namespaces :: "string list option"
  mo_HealthProbe :: string
  mo_LeaderElection :: bool
  mo_LeaderElectionID :: string

definition manager_options :: "Flags \<Rightarrow> string \<Rightarrow> ManagerOptions" where
  "manager_options fl watch_namespace =
     \<lparr>mo_Metrics = f_metricsAddr fl, mo_Namespaces = cached_namespaces (namespace_of fl watch_namespace),
      mo_HealthProbe = f_probeAddr fl, mo_LeaderElection = f_leaderElect fl,
      mo_LeaderElectionID = ''k8s-agent-orchestrator-leader''\<rparr>"

datatype Call =
    NewManager ManagerOptions
  | Ping string string int
  | Setup Controller
  | AddHealthzCheck string
  | AddReadyzCheck string
  | StartManager

datatype Task = RestServer string | WebUI string | IdleWatcher

text \<open>A call with its check of the error, or a \<open>go\<close> statement.\<close>

datatype Stmt = Try Call | Go Task

definition connect_stmts :: "Flags \<Rightarrow> Stmt list" where
  "connect_stmts fl =
     (if f_redisAddr fl \<noteq> '''' then [Try (Ping (f_redisAddr fl) (f_redisPassword fl) (f_redisDB fl))] else [])"

definition setup_stmts :: "Flags \<Rightarrow> string \<Rightarrow> Stmt list" where
  "setup_stmts fl watch_namespace =
     Try (NewManager (manager_options fl watch_namespace)) # connect_stmts fl @
     [Try (Setup SetupWithManager), Try (AddHealthzCheck ''healthz''), Try (AddReadyzCheck ''readyz'')]"

text \<open>Both branches of the test of \<open>--idle-timeout-default\<close> start the watcher; they differ in what they log.\<close>

definition watcher_stmts :: "Flags \<Rightarrow> Stmt list" where
  "watcher_stmts fl = (if 0 < f_idleTimeoutDefault fl then [Go IdleWatcher] else [Go IdleWatcher])"

definition main_stmts :: "Flags \<Rightarrow> string \<Rightarrow> Stmt list" where
  "main_stmts fl watch_namespace =
     setup_stmts fl watch_namespace @
     [Go (RestServer (f_restAddr fl)), Go (WebUI (f_uiAddr fl))] @ watcher_stmts fl @ [Try StartManager]"

section \<open>The process\<close>

text \<open>
  A call returns with or without an error, a goroutine is started, a goroutine ends with or without an
  error, or \<open>main\<close> returns, which ends the process with code 0 whatever the goroutines do.
\<close>

datatype Event = Returned Call bool | Started Task | Ended Task bool | MainReturned

record Process =
  p_Rest :: "Stmt list"
  p_Tasks :: "Task list"
  p_Exit :: "nat option"

definition main_process :: "Flags \<Rightarrow> string \<Rightarrow> Process" where
  "main_process fl watch_namespace = \<lparr>p_Rest = main_stmts fl watch_namespace, p_Tasks = [], p_Exit = None\<rparr>"

text \<open>Only the goroutine of the REST server ends the process, when \<open>Run\<close> returns an error.\<close>

fun task_exit :: "Task \<Rightarrow> bool \<Rightarrow> nat option" where
  "task_exit (RestServer addr) ok = (if ok then None else Some 1)"
| "task_exit (WebUI addr) ok = None"
| "task_exit IdleWatcher ok = None"

inductive proc_step :: "Process \<Rightarrow> Event \<Rightarrow> Process \<Rightarrow> bool" where
  call_ok: "proc_step \<lparr>p_Rest = Try c # ss, p_Tasks = ts, p_Exit = None\<rparr> (Returned c True)
              \<lparr>p_Rest = ss, p_Tasks = ts, p_Exit = None\<rparr>"
| call_error: "proc_step \<lparr>p_Rest = Try c # ss, p_Tasks = ts, p_Exit = None\<rparr> (Returned c False)
              \<lparr>p_Rest = ss, p_Tasks = ts, p_Exit = Some 1\<rparr>"
| go: "proc_step \<lparr>p_Rest = Go t # ss, p_Tasks = ts, p_Exit = None\<rparr> (Started t)
              \<lparr>p_Rest = ss, p_Tasks = t # ts, p_Exit = None\<rparr>"
| task_end: "t \<in> set ts \<Longrightarrow> proc_step \<lparr>p_Rest = ss, p_Tasks = ts, p_Exit = None\<rparr> (Ended t ok)
              \<lparr>p_Rest = ss, p_Tasks = remove1 t ts, p_Exit = task_exit t ok\<rparr>"
| main_end: "proc_step \<lparr>p_Rest = [], p_Tasks = ts, p_Exit = None\<rparr> MainReturned
              \<lparr>p_Rest = [], p_Tasks = ts, p_Exit = Some 0\<rparr>"

inductive_cases proc_step_cases: "proc_step p e q"

inductive main_runs :: "Flags \<Rightarrow> string \<Rightarrow> Event list \<Rightarrow> Process \<Rightarrow> bool" for fl ns where
  at_start: "main_runs fl ns [] (main_process fl ns)"
| one_more: "main_runs fl ns tr p \<Longrightarrow> proc_step p e q \<Longrightarrow> main_runs fl ns (tr @ [e]) q"

section \<open>What main has done\<close>

text \<open>The events of \<open>main\<close> itself, and the one that a statement has when it goes well.\<close>

fun own :: "Event \<Rightarrow> bool" where
  "own (Ended t ok) = False"
| "own e = True"

fun performed :: "Stmt \<Rightarrow> Event" where
  "performed (Try c) = Returned c True"
| "performed (Go t) = Started t"

text \<open>An event that ends the process with code 1.\<close>

fun fatal :: "Event \<Rightarrow> bool" where
  "fatal (Returned c ok) = (\<not> ok)"
| "fatal (Ended t ok) = (task_exit t ok = Some 1)"
| "fatal e = False"

definition all_done :: "Flags \<Rightarrow> string \<Rightarrow> Event list" where
  "all_done fl ns = map performed (main_stmts fl ns) @ [MainReturned]"

lemma performed_not_fatal [simp]: "\<not> fatal (performed s)"
  by (cases s) simp_all

lemma own_performed [simp]: "own (performed s)"
  by (cases s) simp_all

lemma task_exit_code: "task_exit t ok = None \<or> task_exit t ok = Some 1"
  by (cases t) simp_all

definition progress :: "Flags \<Rightarrow> string \<Rightarrow> Event list \<Rightarrow> Process \<Rightarrow> bool" where
  "progress fl ns tr p \<longleftrightarrow>
     (p_Exit p = Some 1 \<longleftrightarrow> (\<exists>e \<in> set tr. fatal e)) \<and>
     (p_Exit p = None \<longrightarrow> filter own tr @ map performed (p_Rest p) = map performed (main_stmts fl ns)) \<and>
     (p_Exit p = Some 0 \<longrightarrow> filter own tr = all_done fl ns) \<and>
     prefix (filter own (filter (\<lambda>e. \<not> fatal e) tr)) (all_done fl ns)"

lemma progress_own:
  assumes "progress fl ns tr \<lparr>p_Rest = st # ss, p_Tasks = ts, p_Exit = None\<rparr>"
  shows "progress fl ns (tr @ [performed st]) \<lparr>p_Rest = ss, p_Tasks = us, p_Exit = None\<rparr>"
proof -
  have calm: "\<forall>e \<in> set tr. \<not> fatal e"
    and rest: "filter own tr @ performed st # map performed ss = map performed (main_stmts fl ns)"
    using assms by (simp_all add: progress_def)
  have "all_done fl ns = (filter own tr @ [performed st]) @ map performed ss @ [MainReturned]"
    by (simp add: all_done_def flip: rest)
  then have "prefix (filter own tr @ [performed st]) (all_done fl ns)" by (rule prefixI)
  moreover have "filter (\<lambda>e. \<not> fatal e) tr = tr" using calm by (simp add: filter_id_conv)
  ultimately show ?thesis using calm rest by (simp add: progress_def)
qed

lemma progress_calm: "progress fl ns tr p \<Longrightarrow> p_Exit p = None \<Longrightarrow> filter (\<lambda>e. \<not> fatal e) tr = tr"
  by (simp add: progress_def filter_id_conv)

lemma progress_step:
  assumes "progress fl ns tr p" and "proc_step p e q"
  shows "progress fl ns (tr @ [e]) q"
proof -
  note calm = progress_calm [OF assms(1)]
  from assms(2) show ?thesis
  proof cases
    case (call_ok c ss ts)
    with assms(1) progress_own [of fl ns tr "Try c" ss ts ts] show ?thesis by simp
  next
    case (call_error c ss ts)
    with assms(1) calm show ?thesis by (simp add: progress_def)
  next
    case (go t ss ts)
    with assms(1) progress_own [of fl ns tr "Go t" ss ts "t # ts"] show ?thesis by simp
  next
    case (task_end t ts ss ok)
    with assms(1) calm task_exit_code [of t ok] show ?thesis by (auto simp: progress_def)
  next
    case (main_end ts)
    with assms(1) calm show ?thesis by (simp add: progress_def all_done_def)
  qed
qed

lemma main_progress: "main_runs fl ns tr p \<Longrightarrow> progress fl ns tr p"
proof (induction rule: main_runs.induct)
  case at_start
  show ?case by (simp add: progress_def main_process_def)
next
  case (one_more tr p e q)
  then show ?case by (blast intro: progress_step)
qed

lemma main_runs_butlast: "main_runs fl ns (tr @ [e]) q \<Longrightarrow> \<exists>p. main_runs fl ns tr p \<and> proc_step p e q"
  by (erule main_runs.cases) auto

lemma main_runs_prefix: "main_runs fl ns (tr @ tr') q \<Longrightarrow> \<exists>p. main_runs fl ns tr p"
proof (induction tr' arbitrary: q rule: rev_induct)
  case (snoc e es)
  then show ?case using main_runs_butlast [of fl ns "tr @ es" e q] by auto
qed auto

text \<open>A process that still runs has had no fatal event.\<close>

lemma step_running: "proc_step p e q \<Longrightarrow> p_Exit p = None"
  by (erule proc_step.cases) simp_all

text \<open>What \<open>main\<close> has done before an event of its own that goes well is what stands before it in the program.\<close>

lemma own_before:
  assumes "main_runs fl ns (pre @ e # post) p" and "own e" and "\<not> fatal e"
  shows "prefix (filter own pre @ [e]) (all_done fl ns)"
proof -
  obtain q where q: "main_runs fl ns (pre @ [e]) q"
    using main_runs_prefix [of fl ns "pre @ [e]" post p] assms(1) by auto
  then obtain q' where q': "main_runs fl ns pre q'" "proc_step q' e q" using main_runs_butlast by blast
  have "filter (\<lambda>e. \<not> fatal e) pre = pre"
    using main_progress [OF q'(1)] step_running [OF q'(2)] by (auto simp: progress_def filter_id_conv)
  then show ?thesis using main_progress [OF q] assms(2,3) by (simp add: progress_def)
qed

lemma started_after_setup:
  assumes "prefix (es @ [Started t]) (all_done fl ns)"
  shows "prefix (map performed (setup_stmts fl ns)) es"
proof -
  define ks where "ks = map performed (setup_stmts fl ns)"
  obtain rs where all: "all_done fl ns = ks @ rs" by (simp add: all_done_def main_stmts_def ks_def)
  have "Started t \<notin> set ks" by (auto simp: ks_def setup_stmts_def connect_stmts_def)
  obtain zs where zs: "ks @ rs = es @ Started t # zs" using assms unfolding all by (auto simp: prefix_def)
  have "prefix es ks \<or> prefix ks es"
    using prefix_same_cases [of es "ks @ rs" ks] by (metis prefixI zs)
  then have "prefix ks es"
  proof
    assume "prefix es ks"
    then obtain us where us: "ks = es @ us" by (auto simp: prefix_def)
    with zs \<open>Started t \<notin> set ks\<close> have "us = []" by (cases us) auto
    with us show ?thesis by simp
  qed
  then show ?thesis by (simp add: ks_def)
qed

lemma started_performed:
  assumes "main_runs fl ns (pre @ Started t # post) p" and "st \<in> set (setup_stmts fl ns)"
  shows "performed st \<in> set pre"
proof -
  have "prefix (map performed (setup_stmts fl ns)) (filter own pre)"
    using own_before [OF assms(1)] by (intro started_after_setup) simp
  from set_mono_prefix [OF this] assms(2) show ?thesis by auto
qed

lemma manager_started_last:
  assumes "main_runs fl ns (pre @ Returned StartManager b # post) p" and "st \<in> set (butlast (main_stmts fl ns))"
  shows "performed st \<in> set pre"
proof -
  obtain q where q: "main_runs fl ns (pre @ [Returned StartManager b]) q"
    using main_runs_prefix [of fl ns "pre @ [Returned StartManager b]" post p] assms(1) by auto
  then obtain q' where q': "main_runs fl ns pre q'" "proc_step q' (Returned StartManager b) q"
    using main_runs_butlast by blast
  obtain ss where ss: "p_Rest q' = Try StartManager # ss" using q'(2) by (auto elim: proc_step.cases)
  have own: "filter own pre @ performed (Try StartManager) # map performed ss = map performed (main_stmts fl ns)"
    using main_progress [OF q'(1)] step_running [OF q'(2)] ss by (simp add: progress_def)
  have "Returned StartManager True \<notin> set (map performed (butlast (main_stmts fl ns)))"
    by (auto simp: main_stmts_def setup_stmts_def connect_stmts_def watcher_stmts_def butlast_append)
  moreover have "map performed (main_stmts fl ns) = map performed (butlast (main_stmts fl ns)) @ [Returned StartManager True]"
    by (simp add: main_stmts_def butlast_append)
  ultimately have "filter own pre = map performed (butlast (main_stmts fl ns))"
    using own by (metis append_eq_append_conv2 append_Cons append_Nil append_Nil2 butlast_snoc in_set_conv_decomp
        list.sel(3) tl_append2 performed.simps(1) butlast_append list.discI)
  then have "performed st \<in> set (filter own pre)" using assms(2) by simp
  then show ?thesis by simp
qed

text \<open>Every kind that the controller watches is known to the scheme.\<close>

lemma watched_kinds_registered:
  "{('''', ''v1'', ''Pod''), ('''', ''v1'', ''Service'')} \<subseteq> client_go \<Longrightarrow>
   insert (ct_For SetupWithManager) (set (ct_Owns SetupWithManager)) \<subseteq> init_scheme client_go"
  by (simp add: SetupWithManager_def init_scheme_def AddToScheme_def registered_types_def)

section \<open>The whole run\<close>

definition pinged :: "Flags \<Rightarrow> Event list \<Rightarrow> bool" where
  "pinged fl tr \<longleftrightarrow> Returned (Ping (f_redisAddr fl) (f_redisPassword fl) (f_redisDB fl)) True \<in> set tr"

lemma fatal_simp:
  "fatal e \<longleftrightarrow> (\<exists>c. e = Returned c False) \<or> (\<exists>a. e = Ended (RestServer a) False)"
proof (cases e)
  case (Ended t ok)
  then show ?thesis by (cases t) auto
qed auto

lemma manager_stmts:
  "Go IdleWatcher \<in> set (butlast (main_stmts fl ns))" "Go (WebUI (f_uiAddr fl)) \<in> set (butlast (main_stmts fl ns))"
  "Go (RestServer (f_restAddr fl)) \<in> set (butlast (main_stmts fl ns))"
  by (simp_all add: main_stmts_def watcher_stmts_def butlast_append)

lemma start_pinged:
  assumes "main_runs fl ns (pre @ Started t # post) p"
  shows "start connect (pinged fl pre) fl ns lib lib' C \<noteq> Exit n"
proof -
  have "pinged fl pre" if "f_redisAddr fl \<noteq> ''''"
    using started_performed [OF assms, of "Try (Ping (f_redisAddr fl) (f_redisPassword fl) (f_redisDB fl))"] that
    by (simp add: setup_stmts_def connect_stmts_def pinged_def)
  then show ?thesis by (simp add: start_def Let_def)
qed


text \<open>A start with Redis where the port of the REST server is taken.\<close>

definition redis_flags :: Flags where
  "redis_flags = default_flags\<lparr>f_redisAddr := ''redis:6379''\<rparr>"

definition taken_port :: "Event list" where
  "taken_port = map performed (setup_stmts redis_flags '''') @ [Started (RestServer '':8082''), Ended (RestServer '':8082'') False]"

lemma main_runs_append:
  "main_runs fl ns tr \<lparr>p_Rest = xs @ ys, p_Tasks = ts, p_Exit = None\<rparr> \<Longrightarrow> \<forall>s \<in> set xs. \<exists>c. s = Try c \<Longrightarrow>
   main_runs fl ns (tr @ map performed xs) \<lparr>p_Rest = ys, p_Tasks = ts, p_Exit = None\<rparr>"
proof (induction xs arbitrary: tr)
  case (Cons x xs)
  then obtain c where x: "x = Try c" by auto
  have "main_runs fl ns (tr @ [performed x]) \<lparr>p_Rest = xs @ ys, p_Tasks = ts, p_Exit = None\<rparr>"
    using one_more [OF Cons.prems(1), of "Returned c True"] call_ok [of c "xs @ ys" ts] by (simp add: x)
  from Cons.IH [OF this] Cons.prems(2) show ?case by simp
qed simp

lemma taken_port_runs: "\<exists>p. main_runs redis_flags '''' taken_port p \<and> p_Exit p = Some 1"
proof -
  let ?before = "setup_stmts redis_flags ''''" and ?rest = "[Go (WebUI '':8083''), Go IdleWatcher, Try StartManager]"
  have body: "main_stmts redis_flags '''' = ?before @ Go (RestServer '':8082'') # ?rest"
    by (simp add: main_stmts_def watcher_stmts_def redis_flags_def default_flags_def)
  have "main_runs redis_flags '''' ([] @ map performed ?before)
      \<lparr>p_Rest = Go (RestServer '':8082'') # ?rest, p_Tasks = [], p_Exit = None\<rparr>"
    using at_start [of redis_flags "''''"]
    by (intro main_runs_append) (auto simp: main_process_def body setup_stmts_def connect_stmts_def split: if_splits)
  from one_more [OF one_more [OF this go] task_end [of "RestServer '':8082''" _ _ False]]
  show ?thesis by (auto simp: taken_port_def)
qed


end
