(* ===== verification/Web_UI.thy ===== *)
theory Web_UI
  imports Main_Program
begin

text \<open>
  The web UI of \<open>internal/ui/server.go\<close>: the embedded directory \<open>static\<close>, which holds one page, and
  \<open>http.FileServer\<close> over it, as \<open>net/http\<close> documents it, with which \<open>main\<close> listens at \<open>--ui-bind-address\<close>.
\<close>

section \<open>Paths\<close>

text \<open>The segments of a path between its slashes, and \<open>path.Clean\<close> of a path that starts with a slash.\<close>

fun segments :: "string \<Rightarrow> string list" where
  "segments [] = [[]]"
| "segments (c # cs) = (if c = CHR ''/'' then [] # segments cs
     else (case segments cs of [] \<Rightarrow> [[c]] | s # ss \<Rightarrow> (c # s) # ss))"

definition clean_step :: "string list \<Rightarrow> string \<Rightarrow> string list" where
  "clean_step done s = (if s = '''' \<or> s = ''.'' then done else if s = ''..'' then butlast done else done @ [s])"

definition clean :: "string \<Rightarrow> string list" where
  "clean p = foldl clean_step [] (segments p)"

section \<open>The file system\<close>

text \<open>Embedded files with their paths; a directory is there if a file below it is.\<close>

type_synonym file_system = "(string list \<times> string) list"

definition staticFiles :: "string \<Rightarrow> file_system" where
  "staticFiles page = [([''static'', ''index.html''], page)]"

definition is_dir :: "file_system \<Rightarrow> string list \<Rightarrow> bool" where
  "is_dir fs d \<longleftrightarrow> d = [] \<or> list_ex (\<lambda>f. strict_prefix d (fst f)) fs"

text \<open>The names in a directory, directories with a slash.\<close>

definition entries_of :: "file_system \<Rightarrow> string list \<Rightarrow> string list" where
  "entries_of fs d = remdups (map (\<lambda>f. let rest = drop (length d) (fst f) in
     if length rest = 1 then hd rest else hd rest @ ''/'') (filter (\<lambda>f. strict_prefix d (fst f)) fs))"

section \<open>The file server\<close>

datatype UiAnswer =
    Page string
  | Listing "string list"
  | Redirect string
  | NoSuchPage

text \<open>\<open>path.Base\<close>.\<close>

definition base_name :: "string \<Rightarrow> string" where
  "base_name p = (case rev (filter (\<lambda>s. s \<noteq> '''') (segments p)) of [] \<Rightarrow> ''/'' | s # _ \<Rightarrow> s)"

text \<open>\<open>serveFile\<close>: the name of an index page is redirected to its directory, a directory is asked for with a slash at the end.\<close>

definition FileServer :: "file_system \<Rightarrow> string \<Rightarrow> UiAnswer" where
  "FileServer fs url =
     (let p = (if take 1 url = ''/'' then url else CHR ''/'' # url);
          name = clean p;
          slash = (last p = CHR ''/'')
      in if suffix ''/index.html'' p then Redirect ''./''
         else if is_dir fs name then
           (if \<not> slash then Redirect (base_name p @ ''/'')
            else (case map_of fs (name @ [''index.html'']) of
                Some page \<Rightarrow> Page page
              | None \<Rightarrow> Listing (entries_of fs name)))
         else (case map_of fs name of
             None \<Rightarrow> NoSuchPage
           | Some page \<Rightarrow> if slash then Redirect (''../'' @ base_name p) else Page page))"

definition NewHandler :: "string \<Rightarrow> string \<Rightarrow> UiAnswer" where
  "NewHandler page = FileServer (staticFiles page)"

text \<open>\<open>http.ListenAndServe\<close> listens at port \<open>http\<close> if it is given no address.\<close>

definition listens_at :: "Task \<Rightarrow> string option" where
  "listens_at t = (case t of WebUI addr \<Rightarrow> Some (if addr = '''' then '':http'' else addr) | _ \<Rightarrow> None)"

section \<open>Where the page is\<close>

lemma static_dirs: "is_dir (staticFiles page) d \<longleftrightarrow> d = [] \<or> d = [''static'']"
  by (auto simp: is_dir_def staticFiles_def strict_prefix_def prefix_Cons)

lemma static_files:
  "map_of (staticFiles page) f = (if f = [''static'', ''index.html''] then Some page else None)"
  by (simp add: staticFiles_def)

lemma clean_rooted: "clean (CHR ''/'' # p) = clean p"
  by (simp add: clean_def clean_step_def)

lemma root_listing: "entries_of (staticFiles page) [] = [''static/'']"
  by (simp add: entries_of_def staticFiles_def strict_prefix_def)

lemma static_answer:
  assumes "p \<noteq> []" and "hd p = CHR ''/''"
  shows "NewHandler page p =
    (if suffix ''/index.html'' p then Redirect ''./''
     else if clean p = [] then if last p = CHR ''/'' then Listing [''static/''] else Redirect (base_name p @ ''/'')
     else if clean p = [''static''] then if last p = CHR ''/'' then Page page else Redirect (base_name p @ ''/'')
     else if clean p = [''static'', ''index.html''] then
       if last p = CHR ''/'' then Redirect (''../'' @ base_name p) else Page page
     else NoSuchPage)"
  using assms by (cases p) (auto simp: NewHandler_def FileServer_def static_dirs static_files root_listing Let_def)

section \<open>Properties\<close>

text \<open>
  C40. The page of the UI is only found under \<open>/static/\<close>: the root, which the README names as its address, is answered with a
  listing of the one directory \<open>static\<close>, and every other path that answers with the page is one for this directory or for the
  page in it. And there is no way to disable the UI: whatever the flag is, \<open>main\<close> starts the server, and with
  the empty address it listens at port \<open>http\<close>.
\<close>

theorem ui_page_under_static:
  "NewHandler page ''/'' = Listing [''static/''] \<and> NewHandler page ''/static/'' = Page page \<and>
   NewHandler page ''/static'' = Redirect ''static/'' \<and> NewHandler page ''/index.html'' = Redirect ''./'' \<and>
   (NewHandler page (CHR ''/'' # p) = Page x \<longleftrightarrow> x = page \<and> \<not> suffix ''/index.html'' (CHR ''/'' # p) \<and>
     (clean p = [''static''] \<and> last (CHR ''/'' # p) = CHR ''/'' \<or>
      clean p = [''static'', ''index.html''] \<and> last (CHR ''/'' # p) \<noteq> CHR ''/'')) \<and>
   Go (WebUI (f_uiAddr fl)) \<in> set (main_stmts fl ns) \<and> listens_at (WebUI (f_uiAddr fl)) \<noteq> None \<and>
   listens_at (WebUI '''') = Some '':http''"
proof -
  have "NewHandler page ''/'' = Listing [''static/''] \<and> NewHandler page ''/static/'' = Page page \<and>
      NewHandler page ''/static'' = Redirect ''static/'' \<and> NewHandler page ''/index.html'' = Redirect ''./''"
    by (simp add: static_answer clean_def clean_step_def base_name_def suffix_def)
  moreover have "Go (WebUI (f_uiAddr fl)) \<in> set (main_stmts fl ns)" by (simp add: main_stmts_def)
  ultimately show ?thesis by (auto simp: static_answer clean_rooted listens_at_def split: if_splits)
qed

end
