(* ===== verification/Redis_Shared.thy ===== *)
theory Redis_Shared
  imports Redis_Cache Redis_History
begin

text \<open>
  With \<open>--redis-addr\<close> the cache and the history are stores on one Redis server (\<open>cmd/main.go\<close> gives both
  constructors the same client). Their keys have different prefixes, so neither can tell that the other
  is there: every answer of the cache is the one it would give if only the operations of the cache had been run, and
  likewise for the history. This is why the rest of the library may give each store a state of its own.
\<close>

section \<open>A server that leaves other keys alone\<close>

text \<open>A command changes no key that it does not name, and reading changes nothing that can be seen later.\<close>

locale shared_redis = redis_server +
  assumes frame_rv: "k \<notin> keys_of c \<Longrightarrow> t \<le> t' \<Longrightarrow> rv t' (rd_exec R [c] t r) k = rv t' r k"
    and frame_sv: "k \<notin> keys_of c \<Longrightarrow> t \<le> t' \<Longrightarrow> sv t' (rd_exec R [c] t r) k = sv t' r k"
    and frame_lv: "k \<notin> keys_of c \<Longrightarrow> lv (rd_exec R [c] t r) k = lv r k"
    and get_lv: "lv (snd (rd_get R k t r)) = lv r"
    and smembers_lv: "lv (snd (rd_smembers R k t r)) = lv r"
    and lrange_rv: "t \<le> t' \<Longrightarrow> rv t' (snd (rd_lrange R k i j t r)) = rv t' r"
    and lrange_sv: "t \<le> t' \<Longrightarrow> sv t' (snd (rd_lrange R k i j t r)) = sv t' r"

interpretation ref_shared: shared_redis ref_redis ref_rv ref_sv ref_lv ref_good
  by unfold_locales (simp_all add: exec_one value_other del: ref_cmd.simps ref_redis_simps(1))

lemma ref_shared_redis: "shared_redis ref_redis ref_rv ref_sv ref_lv ref_good"
  by unfold_locales

section \<open>Operations on the shared server\<close>

datatype store_op =
    CacheSet string string string gval int
  | CacheGet string string string
  | CacheDelete string string string
  | CacheList string string
  | CacheClear string string
  | HistoryAppend string string string string string
  | HistoryList string string
  | HistoryClear string string

text \<open>The operation at time \<open>t\<close>, on the stores that \<open>main\<close> makes of one client.\<close>

fun store_step :: "'r Redis \<Rightarrow> int \<Rightarrow> int \<Rightarrow> store_op \<Rightarrow> 'r \<Rightarrow> 'r" where
  "store_step R k t (CacheSet ns n f v ttl) r = cs_Set (redis_store R) ns n f v ttl (t, t) r"
| "store_step R k t (CacheGet ns n f) r = snd (cs_Get (redis_store R) ns n f t r)"
| "store_step R k t (CacheDelete ns n f) r = cs_Delete (redis_store R) ns n f t r"
| "store_step R k t (CacheList ns n) r = snd (cs_List (redis_store R) ns n t r)"
| "store_step R k t (CacheClear ns n) r = cs_ClearAgent (redis_store R) ns n t r"
| "store_step R k t (HistoryAppend ns n ty re msg) r = hs_Append (NewRedisHistory R k) ns n ty re msg t r"
| "store_step R k t (HistoryList ns n) r = snd (hs_List (NewRedisHistory R k) ns n t r)"
| "store_step R k t (HistoryClear ns n) r = hs_Clear (NewRedisHistory R k) ns n t r"

fun run_ops :: "'r Redis \<Rightarrow> int \<Rightarrow> (int \<times> store_op) list \<Rightarrow> 'r \<Rightarrow> 'r" where
  "run_ops R k [] r = r"
| "run_ops R k ((t, c) # xs) r = run_ops R k xs (store_step R k t c r)"

fun of_cache :: "store_op \<Rightarrow> bool" where
  "of_cache (HistoryAppend _ _ _ _ _) = False"
| "of_cache (HistoryList _ _) = False"
| "of_cache (HistoryClear _ _) = False"
| "of_cache _ = True"

text \<open>The times do not decrease, and the TTLs are whole seconds, as the REST API passes them.\<close>

fun in_order :: "int \<Rightarrow> (int \<times> store_op) list \<Rightarrow> int \<Rightarrow> bool" where
  "in_order t [] t' \<longleftrightarrow> t \<le> t'"
| "in_order t ((u, c) # xs) t' \<longleftrightarrow> t \<le> u \<and> in_order u xs t'"

fun whole_ttl :: "store_op \<Rightarrow> bool" where
  "whole_ttl (CacheSet ns n f v ttl) = redis_ttl_ok ttl"
| "whole_ttl _ = True"

section \<open>What each store sees\<close>

definition cache_same ::
  "(int \<Rightarrow> 'r \<Rightarrow> string \<Rightarrow> rvalue option) \<Rightarrow> (int \<Rightarrow> 'r \<Rightarrow> string \<Rightarrow> string set) \<Rightarrow> int \<Rightarrow> 'r \<Rightarrow> 'r \<Rightarrow> bool" where
  "cache_same rv sv t r r' \<longleftrightarrow> (\<forall>u k. t \<le> u \<longrightarrow>
     (value_key k \<longrightarrow> rv u r k = rv u r' k) \<and> (index_key k \<longrightarrow> sv u r k = sv u r' k))"

definition history_same :: "('r \<Rightarrow> string \<Rightarrow> rvalue list) \<Rightarrow> 'r \<Rightarrow> 'r \<Rightarrow> bool" where
  "history_same lv r r' \<longleftrightarrow> (\<forall>k. list_key k \<longrightarrow> lv r k = lv r' k)"

lemma cache_same_later: "cache_same rv sv t r r' \<Longrightarrow> t \<le> u \<Longrightarrow> cache_same rv sv u r r'"
  by (auto simp: cache_same_def)

lemma key_kinds_apart:
  "value_key k \<Longrightarrow> k \<noteq> indexKey ns n" "value_key k \<Longrightarrow> k \<noteq> history_key ns n"
  "index_key k \<Longrightarrow> k \<noteq> fieldKey ns n f" "index_key k \<Longrightarrow> k \<noteq> history_key ns n"
  "list_key k \<Longrightarrow> k \<noteq> fieldKey ns n f" "list_key k \<Longrightarrow> k \<noteq> indexKey ns n"
  using key_kinds_disjoint key_kinds history_key_list by blast+

context shared_redis
begin

lemma Set_rv:
  "value_key x \<Longrightarrow> t \<le> u \<Longrightarrow> redis_ttl_ok ttl \<Longrightarrow> rv u (redis_Set R ns n f v ttl t r) x =
     (if x = fieldKey ns n f
      then if 0 < ttl \<and> t + ttl \<le> u then None
        else Some (REntry (to_json v) t (if 0 < ttl then Some (t + ttl) else None))
      else rv u r x)"
  by (simp add: redis_Set_def Let_def exec3 frame_rv key_kinds_apart set_rv set_rv_other redis_ttl_ok_def
      mod_Second_Millisecond)

lemma Set_sv:
  "good r \<Longrightarrow> index_key x \<Longrightarrow> t \<le> u \<Longrightarrow> redis_ttl_ok ttl \<Longrightarrow> sv u (redis_Set R ns n f v ttl t r) x =
     (if x = indexKey ns n then if t + index_life ttl \<le> u then {} else insert f (sv t r x) else sv u r x)"
  using index_after_Set [of r t u ttl ns n f v]
  by (cases "x = indexKey ns n") (simp_all add: redis_Set_def Let_def exec3 frame_sv key_kinds_apart)

lemma Delete_views:
  "value_key x \<Longrightarrow> t \<le> u \<Longrightarrow>
     rv u (redis_Delete R ns n f t r) x = (if x = fieldKey ns n f then None else rv u r x)"
  "index_key x \<Longrightarrow> t \<le> u \<Longrightarrow>
     sv u (redis_Delete R ns n f t r) x = (if x = indexKey ns n then sv u r x - {f} else sv u r x)"
  by (simp_all add: redis_Delete_def exec2 frame_rv key_kinds_apart del_rv srem_sv del_sv)

lemma Get_views:
  "t \<le> u \<Longrightarrow> rv u (snd (redis_Get R ns n f t r)) = rv u r" "t \<le> u \<Longrightarrow> sv u (snd (redis_Get R ns n f t r)) = sv u r"
  "t \<le> u \<Longrightarrow> rv u (snd (redis_GetEntry R ns n f t r)) = rv u r"
  "t \<le> u \<Longrightarrow> sv u (snd (redis_GetEntry R ns n f t r)) = sv u r"
  "lv (snd (redis_GetEntry R ns n f t r)) = lv r" "lv (snd (redis_Get R ns n f t r)) = lv r"
  by (simp_all add: Get_state GetEntry_state get_rv get_sv get_lv)

lemma List_loop_others:
  "(value_key x \<longrightarrow> t \<le> u \<longrightarrow> rv u (snd (redis_List_loop R ns n fs t m r)) x = rv u r x) \<and>
   (x \<noteq> indexKey ns n \<longrightarrow> t \<le> u \<longrightarrow> sv u (snd (redis_List_loop R ns n fs t m r)) x = sv u r x) \<and>
   (list_key x \<longrightarrow> lv (snd (redis_List_loop R ns n fs t m r)) x = lv r x)"
proof (induction fs arbitrary: m r)
  case (Cons f fs)
  obtain e r' where "redis_GetEntry R ns n f t r = (e, r')" by fastforce
  with Get_views(3,4) [of t u ns n f r] Get_views(5) [of ns n f t r] Cons.IH [of _ r']
    Cons.IH [of m "rd_exec R [RSRem (indexKey ns n) f] t r'"]
  show ?case by (cases e) (auto simp: frame_rv frame_sv frame_lv key_kinds_apart)
qed simp

lemma List_cases:
  assumes "good r"
  obtains fs r' where "rd_smembers R (indexKey ns n) t r = (Some fs, r')"
    "snd (redis_List R ns n t r) = snd (redis_List_loop R ns n fs t Map.empty r')"
    "set fs = sv t r (indexKey ns n)" "lv r' = lv r" "good r'"
    "\<And>u. t \<le> u \<Longrightarrow> rv u r' = rv u r" "\<And>u. t \<le> u \<Longrightarrow> sv u r' = sv u r"
proof -
  obtain fs r' where m: "rd_smembers R (indexKey ns n) t r = (Some fs, r')" "good r'" "set fs = sv t r (indexKey ns n)"
    "\<forall>u \<ge> t. rv u r' = rv u r \<and> sv u r' = sv u r"
    using members [OF assms] by blast
  moreover have "lv r' = lv r" using smembers_lv [of "indexKey ns n" t r] m(1) by simp
  moreover have "snd (redis_List R ns n t r) = snd (redis_List_loop R ns n fs t Map.empty r')"
    by (cases "fs = []") (simp_all add: redis_List_def m(1))
  ultimately show ?thesis using that by blast
qed

lemma List_views:
  assumes "good r"
  shows "value_key x \<Longrightarrow> t \<le> u \<Longrightarrow> rv u (snd (redis_List R ns n t r)) x = rv u r x"
    "index_key x \<Longrightarrow> t \<le> u \<Longrightarrow> sv u (snd (redis_List R ns n t r)) x =
      (if x = indexKey ns n then sv u r x - {f \<in> sv t r x. redis_seen rv t r ns n f = None} else sv u r x)"
    "list_key x \<Longrightarrow> lv (snd (redis_List R ns n t r)) x = lv r x" "good (snd (redis_List R ns n t r))"
proof -
  obtain fs r' where l: "snd (redis_List R ns n t r) = snd (redis_List_loop R ns n fs t Map.empty r')"
    "lv r' = lv r" "good r'" "\<And>u. t \<le> u \<Longrightarrow> rv u r' = rv u r" "\<And>u. t \<le> u \<Longrightarrow> sv u r' = sv u r"
    using List_cases [OF assms, of ns n t] by metis
  show "value_key x \<Longrightarrow> t \<le> u \<Longrightarrow> rv u (snd (redis_List R ns n t r)) x = rv u r x"
    "list_key x \<Longrightarrow> lv (snd (redis_List R ns n t r)) x = lv r x"
    using List_loop_others [of x t u ns n fs Map.empty r'] l by auto
  show "good (snd (redis_List R ns n t r))" using List_loop [OF l(3) order_refl, of ns n fs t Map.empty] l(1) by simp
  show "sv u (snd (redis_List R ns n t r)) x =
      (if x = indexKey ns n then sv u r x - {f \<in> sv t r x. redis_seen rv t r ns n f = None} else sv u r x)"
    if "index_key x" "t \<le> u"
    using List_loop_others [of x t u ns n fs Map.empty r'] List_spec [OF assms that(2), of ns n] l that by auto
qed

end

context shared_redis
begin

lemma Clear_views:
  assumes "good r"
  shows "value_key x \<Longrightarrow> t \<le> u \<Longrightarrow> rv u (redis_ClearAgent R ns n t r) x =
      (if x \<in> fieldKey ns n ` sv t r (indexKey ns n) then None else rv u r x)"
    "index_key x \<Longrightarrow> t \<le> u \<Longrightarrow> sv u (redis_ClearAgent R ns n t r) x = (if x = indexKey ns n then {} else sv u r x)"
    "list_key x \<Longrightarrow> lv (redis_ClearAgent R ns n t r) x = lv r x" "good (redis_ClearAgent R ns n t r)"
proof -
  obtain fs r' where m: "rd_smembers R (indexKey ns n) t r = (Some fs, r')" "set fs = sv t r (indexKey ns n)"
    "lv r' = lv r" "good r'" "\<And>u. t \<le> u \<Longrightarrow> rv u r' = rv u r" "\<And>u. t \<le> u \<Longrightarrow> sv u r' = sv u r"
    using List_cases [OF assms, of ns n t] by metis
  then have c: "redis_ClearAgent R ns n t r = rd_exec R [RDel (map (fieldKey ns n) fs @ [indexKey ns n])] t r'"
    by (simp add: redis_ClearAgent_def Let_def)
  show "value_key x \<Longrightarrow> t \<le> u \<Longrightarrow> rv u (redis_ClearAgent R ns n t r) x =
      (if x \<in> fieldKey ns n ` sv t r (indexKey ns n) then None else rv u r x)"
    "index_key x \<Longrightarrow> t \<le> u \<Longrightarrow> sv u (redis_ClearAgent R ns n t r) x = (if x = indexKey ns n then {} else sv u r x)"
    "list_key x \<Longrightarrow> lv (redis_ClearAgent R ns n t r) x = lv r x" "good (redis_ClearAgent R ns n t r)"
    using m by (auto simp: c del_rv del_sv del_lv good_exec key_kinds_apart dest: key_kinds_apart)
qed

lemma cache_writes_lv:
  "list_key x \<Longrightarrow> lv (redis_Set R ns n f v ttl t r) x = lv r x"
  "list_key x \<Longrightarrow> lv (redis_Delete R ns n f t r) x = lv r x"
  by (simp_all add: redis_Set_def redis_Delete_def Let_def exec3 exec2 frame_lv key_kinds_apart)

lemma history_views:
  "value_key x \<Longrightarrow> t \<le> u \<Longrightarrow> rv u (rh_Append R m ns n ty re msg t r) x = rv u r x"
  "index_key x \<Longrightarrow> t \<le> u \<Longrightarrow> sv u (rh_Append R m ns n ty re msg t r) x = sv u r x"
  "value_key x \<Longrightarrow> t \<le> u \<Longrightarrow> rv u (rh_Clear R ns n t r) x = rv u r x"
  "index_key x \<Longrightarrow> t \<le> u \<Longrightarrow> sv u (rh_Clear R ns n t r) x = sv u r x"
  by (simp_all add: rh_Append_def rh_Clear_def Let_def exec2 frame_rv frame_sv key_kinds_apart)

lemma rh_List_views:
  "t \<le> u \<Longrightarrow> rv u (snd (rh_List R ns n t r)) = rv u r" "t \<le> u \<Longrightarrow> sv u (snd (rh_List R ns n t r)) = sv u r"
proof -
  have "snd (rh_List R ns n t r) = snd (rd_lrange R (history_key ns n) 0 (- 1) t r)"
    by (auto simp: rh_List_def split: prod.splits option.splits)
  then show "t \<le> u \<Longrightarrow> rv u (snd (rh_List R ns n t r)) = rv u r"
    "t \<le> u \<Longrightarrow> sv u (snd (rh_List R ns n t r)) = sv u r"
    by (simp_all add: lrange_rv lrange_sv)
qed

lemma step_good: "good r \<Longrightarrow> good (store_step R k t c r)"
proof (cases c)
  case (HistoryAppend ns n ty re msg)
  then show "good r \<Longrightarrow> ?thesis" by (simp add: rh_Append_def Let_def exec2 good_exec)
next
  case (HistoryClear ns n)
  then show "good r \<Longrightarrow> ?thesis" by (simp add: rh_Clear_def good_exec)
qed (simp_all add: good_Set good_Delete good_get Get_state List_views Clear_views List_lv)

lemma cache_unmoved: "\<not> of_cache c \<Longrightarrow> cache_same rv sv t (store_step R k t c r) r"
  by (cases c) (simp_all add: cache_same_def history_views rh_List_views)

lemma history_unmoved: "of_cache c \<Longrightarrow> good r \<Longrightarrow> history_same lv (store_step R k t c r) r"
  by (cases c) (simp_all add: history_same_def cache_writes_lv Get_views List_views Clear_views)

lemma cache_step:
  assumes "of_cache c" and "whole_ttl c" and "good r" and "good r'" and "cache_same rv sv t r r'"
  shows "cache_same rv sv t (store_step R k t c r) (store_step R k t c r')"
proof -
  have same: "value_key x \<Longrightarrow> t \<le> u \<Longrightarrow> rv u r x = rv u r' x" "index_key x \<Longrightarrow> t \<le> u \<Longrightarrow> sv u r x = sv u r' x" for x u
    using assms(5) by (simp_all add: cache_same_def)
  have seen: "redis_seen rv t r = redis_seen rv t r'" by (intro ext) (simp add: redis_seen_def same)
  show ?thesis
    using assms(1-4)
    by (cases c) (simp_all add: cache_same_def same seen Set_rv Set_sv Delete_views Get_views List_views Clear_views)
qed

lemma history_step:
  assumes "\<not> of_cache c" and "good r" and "good r'" and "history_same lv r r'"
  shows "history_same lv (store_step R k t c r) (store_step R k t c r')"
  using assms history_cap_pos [of k]
  by (cases c) (simp_all add: history_same_def Append_lv List_lv rh_Clear_def del_lv)

lemma run_good: "good r \<Longrightarrow> good (run_ops R k xs r)"
proof (induction xs arbitrary: r)
  case (Cons x xs)
  then show ?case by (cases x) (simp add: step_good)
qed simp

lemma run_cache:
  assumes "in_order t xs u" and "\<forall>(s, c) \<in> set xs. whole_ttl c" and "good r" and "good r'" and "cache_same rv sv t r r'"
  shows "cache_same rv sv u (run_ops R k xs r) (run_ops R k (filter (\<lambda>x. of_cache (snd x)) xs) r')"
  using assms
proof (induction t xs u arbitrary: r r' rule: in_order.induct)
  case (1 t u)
  then show ?case by (auto intro: cache_same_later)
next
  case (2 t s c xs u)
  let ?r = "store_step R k s c r"
  have later: "cache_same rv sv s r r'" using 2 by (auto intro: cache_same_later)
  show ?case
  proof (cases "of_cache c")
    case True
    then have "cache_same rv sv s ?r (store_step R k s c r')" using 2 later by (auto intro: cache_step)
    with 2 True show ?thesis by (simp add: step_good)
  next
    case False
    from cache_unmoved [OF this, of s k r] later have "cache_same rv sv s ?r r'" by (simp add: cache_same_def)
    with 2 False show ?thesis by (simp add: step_good)
  qed
qed

lemma run_history:
  assumes "good r" and "good r'" and "history_same lv r r'"
  shows "history_same lv (run_ops R k xs r) (run_ops R k (filter (\<lambda>x. \<not> of_cache (snd x)) xs) r')"
  using assms
proof (induction xs arbitrary: r r')
  case (Cons x xs)
  obtain s c where x: "x = (s, c)" by (cases x)
  show ?case
  proof (cases "of_cache c")
    case True
    from history_unmoved [OF this Cons.prems(1), of k s] Cons.prems(3)
    have "history_same lv (store_step R k s c r) r'" by (simp add: history_same_def)
    with Cons True show ?thesis by (simp add: x step_good)
  next
    case False
    with Cons show ?thesis by (simp add: x step_good history_step)
  qed
qed simp


lemma cache_answers:
  assumes "cache_same rv sv t r r'" and "good r" and "good r'"
  shows "fst (redis_Get R ns n f t r) = fst (redis_Get R ns n f t r')"
    "fst (redis_List R ns n t r) = fst (redis_List R ns n t r')"
proof -
  have "redis_seen rv t r = redis_seen rv t r'"
    using assms(1) by (intro ext) (simp add: redis_seen_def cache_same_def)
  moreover have "sv t r (indexKey ns n) = sv t r' (indexKey ns n)" using assms(1) by (simp add: cache_same_def)
  ultimately show "fst (redis_Get R ns n f t r) = fst (redis_Get R ns n f t r')"
    "fst (redis_List R ns n t r) = fst (redis_List R ns n t r')"
    using List_spec [OF assms(2) order_refl] List_spec [OF assms(3) order_refl] by (simp_all add: Get_result)
qed

lemma stores_share:
  assumes "good r" and "in_order t0 xs t" and "\<forall>(s, c) \<in> set xs. whole_ttl c"
  shows "fst (redis_Get R ns n f t (run_ops R k xs r)) =
      fst (redis_Get R ns n f t (run_ops R k (filter (\<lambda>x. of_cache (snd x)) xs) r)) \<and>
    fst (redis_List R ns n t (run_ops R k xs r)) =
      fst (redis_List R ns n t (run_ops R k (filter (\<lambda>x. of_cache (snd x)) xs) r)) \<and>
    fst (rh_List R ns n t (run_ops R k xs r)) =
      fst (rh_List R ns n t (run_ops R k (filter (\<lambda>x. \<not> of_cache (snd x)) xs) r))"
proof -
  note good = run_good [OF assms(1), of k]
  have "cache_same rv sv t (run_ops R k xs r) (run_ops R k (filter (\<lambda>x. of_cache (snd x)) xs) r)"
    by (rule run_cache [OF assms(2,3,1,1)]) (simp add: cache_same_def)
  moreover have "history_same lv (run_ops R k xs r) (run_ops R k (filter (\<lambda>x. \<not> of_cache (snd x)) xs) r)"
    by (rule run_history [OF assms(1,1)]) (simp add: history_same_def)
  ultimately show ?thesis
    using cache_answers good by (simp add: List_lv redis_recorded_def history_same_def)
qed

end

section \<open>Properties\<close>

text \<open>
  C21. One Redis server for both stores: after any run of their operations in the order of their times, with TTLs of whole
  seconds, every read and every list of the cache answers as if only the operations of the cache had been run, and the list
  of events as if only those of the history had. In particular clearing the cache of an agent leaves its history alone, and
  trimming or clearing a history loses no entry.
\<close>

theorem redis_stores_share:
  assumes "shared_redis R rv sv lv good" and "good r" and "in_order t0 xs t" and "\<forall>(s, c) \<in> set xs. whole_ttl c"
  shows "fst (redis_Get R ns n f t (run_ops R k xs r)) =
      fst (redis_Get R ns n f t (run_ops R k (filter (\<lambda>x. of_cache (snd x)) xs) r)) \<and>
    fst (redis_List R ns n t (run_ops R k xs r)) =
      fst (redis_List R ns n t (run_ops R k (filter (\<lambda>x. of_cache (snd x)) xs) r)) \<and>
    fst (rh_List R ns n t (run_ops R k xs r)) =
      fst (rh_List R ns n t (run_ops R k (filter (\<lambda>x. \<not> of_cache (snd x)) xs) r))"
  using assms by (rule shared_redis.stores_share)

theorem redis_stores_share_witness:
  "fst (rh_List ref_redis ''default'' ''a'' 5 (run_ops ref_redis 10
     [(1, HistoryAppend ''default'' ''a'' ''Normal'' ''Created'' ''m''), (2, CacheSet ''default'' ''a'' ''f'' (VBool True) 0),
      (3, CacheClear ''default'' ''a'')] Map.empty)) =
   fst (rh_List ref_redis ''default'' ''a'' 5 (run_ops ref_redis 10
     [(1, HistoryAppend ''default'' ''a'' ''Normal'' ''Created'' ''m'')] Map.empty))"
  using redis_stores_share [OF ref_shared_redis, OF ref_good_empty,
      of 1 "[(1, HistoryAppend ''default'' ''a'' ''Normal'' ''Created'' ''m''),
             (2, CacheSet ''default'' ''a'' ''f'' (VBool True) 0), (3, CacheClear ''default'' ''a'')]" 5
         "''default''" "''a''" "''f''" 10]
  by (simp add: redis_ttl_ok_def in_int64_def del: store_step.simps)

end
