(* ===== verification/Self_Stabilisation.thy ===== *)
theory Self_Stabilisation
  imports Interference Reconcile_Convergence
begin

text \<open>
  Safety and convergence together. \<open>Interference\<close> says what holds while anything may fail and others write;
  \<open>Reconcile_Convergence\<close> says where the reconciler gets to when the server answers and nobody else writes.
  So whatever state the first part leaves behind, the second part starts well from it.
\<close>

section \<open>The server of both\<close>

text \<open>
  The documented behaviour of a server that answers, and what holds of it even when it fails and others write, for
  the same stored objects.
\<close>

locale stabilising = reconciled_cluster r agents pods + reconciler_env "r_Client r" agents pods services r
  for r :: "('k, 'h) AgentReconciler" and agents pods services

text \<open>Two pods in one namespace have different names.\<close>

definition pods_named :: "Pod set \<Rightarrow> bool" where
  "pods_named ps \<longleftrightarrow> inj_on (\<lambda>p. (meta_Namespace (pod_Meta p), pod_Name p)) ps"

text \<open>The annotation and the label that the reconciler compares are its own; the owner label is so by the invariant.\<close>

definition own_marks :: "Agent \<Rightarrow> bool" where
  "own_marks a \<longleftrightarrow> entries (spec_PodLabels (agent_Spec a)) managedByLabel = None \<and>
     entries (spec_PodAnnotations (agent_Spec a)) generationKey = None"

lemma plain_pod_own_marks: "keeps_owner (agent_Spec a) \<Longrightarrow> own_marks a \<Longrightarrow> plain_pod a"
  by (simp add: plain_pod_def own_marks_def keeps_owner_def)

lemma live_pods_owned: "p \<in> live_pods ps a \<longleftrightarrow> p \<in> ps \<and> owned_by (agent_key a) p \<and> pod_live p"
  by (auto simp: live_pods_def owned_by_def agent_key_def pod_selector_def)

lemma live_pods_single:
  assumes "one_pod_each ps" and "pods_named ps"
  shows "\<exists>p. live_pods ps a \<subseteq> {p}"
proof -
  have "p = q" if "p \<in> live_pods ps a" "q \<in> live_pods ps a" for p q
  proof -
    have "pod_Name p = pod_Name q"
      using one_pod_eachD [OF assms(1), of "pod_Name p" "agent_key a" "pod_Name q"] that
      by (auto simp: live_pods_owned live_names_def)
    moreover have "meta_Namespace (pod_Meta p) = meta_Namespace (pod_Meta q)"
      using that by (simp add: live_pods_def)
    ultimately show ?thesis
      using assms(2) that inj_onD [of "\<lambda>p. (meta_Namespace (pod_Meta p), pod_Name p)" ps p q]
      by (simp add: pods_named_def live_pods_def)
  qed
  then show ?thesis by blast
qed

section \<open>Paused for good\<close>

context reconciler_env
begin

definition halted :: "nn \<Rightarrow> Agent \<Rightarrow> ('k, 'h, 'c) world \<Rightarrow> bool" where
  "halted n a w \<longleftrightarrow> live_pods (pods (kube w)) a = {} \<and>
     (\<exists>a'. same_spec a a' \<and> agents (kube w) n = Some a' \<and> status_Phase (agent_Status a') = AgentPhaseStopped)"

lemma halted_step:
  assumes "same_spec a b" and "agents (kube w) n = Some b" and "live_pods (pods (kube w)) a \<subseteq> {p}"
    and "tended a" and "spec_Paused (agent_Spec a)"
  shows "halted n a (snd (run_state (Reconcile r n) w))"
proof -
  have "spec_Paused (agent_Spec b)" using assms(1,5) by (simp add: same_spec_def)
  from step_paused [OF assms(2) _ this, of p] same_spec_cong [OF assms(1)] same_spec_trans [OF assms(1)] assms(3,4)
  show ?thesis by (auto simp: halted_def)
qed

lemma halted_times:
  assumes "agents (kube w) n = Some a" and "live_pods (pods (kube w)) a \<subseteq> {p}"
    and "tended a" and "spec_Paused (agent_Spec a)"
  shows "halted n a (reconcile_times (j + 1) r n w)"
proof (induction j)
  case 0
  show ?case using halted_step [OF same_spec_refl assms] by simp
next
  case (Suc j)
  then obtain b where "same_spec a b" "agents (kube (reconcile_times (j + 1) r n w)) n = Some b"
    "live_pods (pods (kube (reconcile_times (j + 1) r n w))) a \<subseteq> {p}"
    by (auto simp: halted_def)
  from halted_step [OF this assms(3,4)] show ?case by simp
qed

end

context stabilising
begin

lemma stabilises:
  assumes "safe k0" and "reached r agents pods k0 (kube w)" and named: "pods_named (pods (kube w))"
    and a: "agents (kube w) n = Some a" "tended a" "own_marks a"
  shows "if spec_Paused (agent_Spec a)
    then \<forall>j. live_pods (pods (kube (reconcile_times (j + 1) r n w))) a = {} \<and>
      (\<exists>a'. same_spec a a' \<and> agents (kube (reconcile_times (j + 1) r n w)) n = Some a' \<and>
        status_Phase (agent_Status a') = AgentPhaseStopped)
    else \<exists>p. kept_or_built (pods (kube w)) a p \<and>
      (\<forall>j. live_pods (pods (kube (reconcile_times (j + 3) r n w))) a = {p} \<and> \<not> specChanged a p \<and>
        (\<exists>a'. same_spec a a' \<and> agents (kube (reconcile_times (j + 3) r n w)) n = Some a' \<and>
          status_Phase (agent_Status a') = podPhaseToAgentPhase (pod_Phase p)))"
proof -
  have safe: "safe (kube w)" using reached_safe [OF assms(2,1)] .
  then obtain p0 where p0: "live_pods (pods (kube w)) a \<subseteq> {p0}"
    using live_pods_single [OF _ named] unfolding safe_def by blast
  have "owners_kept (agents (kube w))" using safe by (simp add: safe_def)
  then have "keeps_owner (agent_Spec a)" using a(1) by (rule owners_keptD)
  then have plain: "plain_pod a" using a(3) by (rule plain_pod_own_marks)
  show ?thesis
  proof (cases "spec_Paused (agent_Spec a)")
    case True
    then have "halted n a (reconcile_times (j + 1) r n w)" for j by (rule halted_times [OF a(1) p0 a(2)])
    with True show ?thesis unfolding halted_def by simp
  next
    case False
    from converges [OF a(1,2) False plain p0] False show ?thesis by simp
  qed
qed

end

lemma ref_stabilising: "stabilising ref_reconciler ref_agents ref_pods ref_services"
  using ref_reconciled_cluster ref_reconciler_env by (simp add: stabilising_def)

interpretation ref_stabilising: stabilising ref_reconciler ref_agents ref_pods ref_services
  by (rule ref_stabilising)

section \<open>Properties\<close>


text \<open>Somebody pauses an agent whose pod is there.\<close>

definition ref_just_paused :: cluster where
  "ref_just_paused = after_call ref_kube (PatchAgent ref_agent ref_paused) (ref_cluster ref_agent [ref_pod])"

lemma ref_just_paused:
  "reached ref_reconciler ref_agents ref_pods (ref_cluster ref_agent [ref_pod]) ref_just_paused"
  "ref_agents ref_just_paused (''default'', ''a'') = Some (patched_agent ref_agent ref_paused ref_agent)"
  "ref_pods ref_just_paused = {ref_pod}"
proof -
  have "benign (PatchAgent ref_agent ref_paused)" by (simp add: ref_paused_def)
  then show "reached ref_reconciler ref_agents ref_pods (ref_cluster ref_agent [ref_pod]) ref_just_paused"
    unfolding ref_just_paused_def
    by (intro reached.other [OF reached.start]) (simp add: other_step.request del: after_call.simps)
  show "ref_agents ref_just_paused (''default'', ''a'') = Some (patched_agent ref_agent ref_paused ref_agent)"
    "ref_pods ref_just_paused = {ref_pod}"
    using ref_cluster_simps(1) [of ref_agent "[ref_pod]"]
    by (simp_all add: ref_just_paused_def ref_kube_def ref_pods_def)
qed


end
