(* ===== verification/Retry_Discipline.thy ===== *)
theory Retry_Discipline
  imports Agent_Controller Run_Logic
begin

text \<open>
  Which failures of the API server the reconciler lets controller-runtime try again. A reconciliation is run again if it
  returns an error, asks to be requeued or asks to be requeued after a time; a failed request is lost for good only if it
  does none of these. The API server may do anything here.
\<close>

section \<open>Answers and failures\<close>

definition tries_again :: "answer \<Rightarrow> bool" where
  "tries_again x \<longleftrightarrow> snd x \<noteq> None \<or> Requeue (fst x) \<or> 0 < RequeueAfter (fst x)"

text \<open>A request that need not be tried again: it went well, or there was nothing left to do.\<close>

fun settled_request :: "kcall \<times> outcome \<Rightarrow> bool" where
  "settled_request (q, Done) = True"
| "settled_request (GetAgent n, Refused e) = IsNotFound e"
| "settled_request (UpdateAgent a, Refused e) = IsNotFound e"
| "settled_request (DeletePod p, Refused e) = IsNotFound e"
| "settled_request (q, Refused e) = False"

text \<open>
  \<open>fails_over Q A m\<close>: whenever \<open>m\<close> runs, its result is \<open>Q\<close> or all of its requests are \<open>A\<close>. It composes: after
  a result that is \<open>Q\<close> the rest has to bring its own result about, whatever it sends.
\<close>

definition fails_over :: "('a \<Rightarrow> bool) \<Rightarrow> (kcall \<times> outcome \<Rightarrow> bool) \<Rightarrow> ('k, 'h, 'c, 'a) prog \<Rightarrow> bool" where
  "fails_over Q A m \<longleftrightarrow> (\<forall>w. \<exists>l. calls (snd (run_state m w)) = calls w @ l \<and>
     (Q (fst (run_state m w)) \<or> (\<forall>x \<in> set l. A x)))"

named_theorems fails_intros "rules for the failures of a program"

lemma fails_ret [fails_intros]: "fails_over Q A (State_Monad.return x)"
  by (simp add: fails_over_def)

lemma fails_bind:
  assumes m: "fails_over R A m" and again: "\<And>a. R a \<Longrightarrow> yields Q (f a)" and f: "\<And>a. fails_over Q A (f a)"
  shows "fails_over Q A (State_Monad.bind m f)"
  unfolding fails_over_def
proof
  fix w
  obtain a w1 where r: "run_state m w = (a, w1)" by fastforce
  obtain l1 where l1: "calls w1 = calls w @ l1" "R a \<or> (\<forall>x \<in> set l1. A x)"
    using m r unfolding fails_over_def by (metis fst_conv snd_conv)
  obtain l2 where l2: "calls (snd (run_state (f a) w1)) = calls w1 @ l2"
    "Q (fst (run_state (f a) w1)) \<or> (\<forall>x \<in> set l2. A x)"
    using f unfolding fails_over_def by blast
  have "Q (fst (run_state (f a) w1)) \<or> (\<forall>x \<in> set (l1 @ l2). A x)"
    using l1(2) l2(2) yieldsD [OF again [of a], of w1] by auto
  with l1(1) l2(1) r show "\<exists>l. calls (snd (run_state (State_Monad.bind m f) w)) = calls w @ l \<and>
      (Q (fst (run_state (State_Monad.bind m f) w)) \<or> (\<forall>x \<in> set l. A x))"
    by (intro exI [of _ "l1 @ l2"]) auto
qed

lemma fails_request:
  "(\<And>x. Q x \<or> A (q, outcome_of x)) \<Longrightarrow> fails_over Q A (request q f)"
  by (auto simp: fails_over_def monad_simps)

lemma fails_yields: "yields Q m \<Longrightarrow> emits (\<lambda>_. True) m \<Longrightarrow> fails_over Q A m"
  unfolding fails_over_def yields_def emits_def by blast

text \<open>Programs that send nothing.\<close>

lemma fails_quiet: "emits (\<lambda>_. False) m \<Longrightarrow> fails_over Q A m"
  unfolding fails_over_def emits_def by (metis (full_types))

lemma fails_cases [fails_intros]:
  "(b \<Longrightarrow> fails_over Q A m) \<Longrightarrow> (\<not> b \<Longrightarrow> fails_over Q A m') \<Longrightarrow> fails_over Q A (if b then m else m')"
  "(\<And>e. x = Inl e \<Longrightarrow> fails_over Q A (f e)) \<Longrightarrow> (\<And>a. x = Inr a \<Longrightarrow> fails_over Q A (g a)) \<Longrightarrow>
   fails_over Q A (case x of Inl e \<Rightarrow> f e | Inr a \<Rightarrow> g a)"
  "(y = None \<Longrightarrow> fails_over Q A m) \<Longrightarrow> (\<And>a. y = Some a \<Longrightarrow> fails_over Q A (h a)) \<Longrightarrow>
   fails_over Q A (case y of None \<Rightarrow> m | Some a \<Rightarrow> h a)"
  by (auto split: sum.split option.split)

lemma fails_client:
  "fails_over (\<lambda>x. \<exists>e. x = Inl e \<and> \<not> IsNotFound e) settled_request (Get_agent c n)"
  "fails_over (\<lambda>x. \<exists>e. x = Inl e \<and> \<not> IsNotFound e) settled_request (Update_agent c a)"
  "fails_over (\<lambda>x. \<exists>e. x = Inl e \<and> \<not> IsNotFound e) settled_request (Delete_pod c p)"
  "fails_over (\<lambda>x. \<exists>e. x = Inl e) settled_request (List_pods c ns sel)"
  unfolding client_defs by (rule fails_request, case_tac x, simp, simp)+

text \<open>The one request whose failure nobody notices.\<close>

definition overlooked :: "kcall \<Rightarrow> bool" where
  "overlooked q \<longleftrightarrow> (\<exists>b a. q = PatchAgentStatus b a \<and> spec_Paused (agent_Spec b) \<and>
     status_Phase (agent_Status a) = AgentPhaseStopped)"

abbreviation excused :: "kcall \<times> outcome \<Rightarrow> bool" where
  "excused x \<equiv> settled_request x \<or> overlooked (fst x)"

lemma fails_mono: "fails_over Q A m \<Longrightarrow> (\<And>x. A x \<Longrightarrow> B x) \<Longrightarrow> fails_over Q B m"
  unfolding fails_over_def by blast

section \<open>The branches of a reconciliation\<close>

lemma tries_again_simps [simp]:
  "tries_again (res, Some e)" "tries_again (res, None) \<longleftrightarrow> Requeue res \<or> 0 < RequeueAfter res"
  by (simp_all add: tries_again_def)

lemma always_again:
  "yields tries_again (add_finalizer r a)" "yields tries_again (reconcile_missing r a)"
  "yields tries_again (reconcile_drift r a p)" "yields tries_again (reconcile_sync r a p)"
  unfolding add_finalizer_def reconcile_missing_def report_creation_def reconcile_drift_def reconcile_sync_def Let_def
  by (intro yields_intros; simp split: sum.split option.split)+

lemma fails_find: "fails_over (\<lambda>x. \<exists>e. x = Inl e) excused (findAgentPod r a)"
  unfolding findAgentPod_def
  by (rule fails_bind [OF fails_mono [OF fails_client(4)]])
    (auto intro!: fails_intros yields_intros)

lemma fails_delete: "fails_over (\<lambda>x. x \<noteq> None) excused (delete_pod_if_there r p)"
  unfolding delete_pod_if_there_def
  by (rule fails_bind [OF fails_mono [OF fails_client(3)]])
    (auto intro!: fails_intros yields_intros)

lemma fails_remove: "fails_over tries_again excused (remove_finalizer_and_resurrect r a)"
  unfolding remove_finalizer_and_resurrect_def
  by (rule fails_bind [OF fails_mono [OF fails_client(2)]])
    (auto intro!: fails_intros yields_intros fails_quiet emits_intros)

lemma fails_deletion: "fails_over tries_again excused (handleDeletion r a)"
  unfolding handleDeletion_def
  by (rule fails_bind [OF fails_find])
    (auto intro!: fails_intros yields_intros fails_remove fails_bind [OF fails_delete])

lemma fails_stopped:
  "spec_Paused (agent_Spec a) \<Longrightarrow> fails_over (\<lambda>_. False) excused (updateStatus r a AgentPhaseStopped n msg)"
  unfolding updateStatus_def patch_status_of_def client_defs
  by (intro fails_bind [where R = "\<lambda>_. False"] fails_quiet fails_request fails_ret)
    (auto intro!: emits_intros simp: overlooked_def)

lemma fails_paused:
  assumes "spec_Paused (agent_Spec a)"
  shows "fails_over tries_again excused (reconcile_paused r a found)"
  unfolding reconcile_paused_def
proof (rule fails_bind [where R = "\<lambda>x. x \<noteq> None"])
  show "fails_over (\<lambda>x. x \<noteq> None) excused (case found of
        None \<Rightarrow> ret None
      | Some pod \<Rightarrow> do {
          failed \<leftarrow> delete_pod_if_there r pod;
          (case failed of Some e \<Rightarrow> ret (Some e)
           | None \<Rightarrow> do {
               announce r a EventTypeNormal ''Paused''
                 ''Agent paused: Pod deleted and reconciliation halted'';
               ret None }) })"
    by (intro fails_cases fails_ret fails_bind [OF fails_delete] fails_quiet)
      (auto intro!: emits_intros yields_intros)
qed (auto intro!: fails_intros yields_intros fails_bind [OF fails_stopped [OF assms]])

lemma emits_anything: "emits (\<lambda>_. True) (add_finalizer r a)" "emits (\<lambda>_. True) (reconcile_found r a found)"
  unfolding add_finalizer_def reconcile_found_def reconcile_paused_def reconcile_missing_def report_creation_def
    reconcile_drift_def reconcile_sync_def createPod_def delete_pod_if_there_def updateStatus_def patch_status_of_def
    reconcileService_def drop_service_of_def create_service_for_def update_service_for_def set_ServiceName_def Let_def
  by (intro emits_intros; simp)+

lemma found_again: "\<not> spec_Paused (agent_Spec a) \<Longrightarrow> yields tries_again (reconcile_found r a found)"
  by (auto simp: reconcile_found_def always_again split: option.split)

lemma fails_found: "fails_over tries_again excused (reconcile_found r a found)"
proof (cases "spec_Paused (agent_Spec a)")
  case True
  then show ?thesis using fails_paused [OF True] by (simp add: reconcile_found_def)
next
  case False
  then show ?thesis using fails_yields [OF found_again emits_anything(2)] by blast
qed

lemma fails_agent: "fails_over tries_again excused (reconcile_agent r a)"
  unfolding reconcile_agent_def
  by (auto intro!: fails_intros yields_intros fails_deletion fails_found fails_bind [OF fails_find]
      fails_yields [OF always_again(1) emits_anything(1)])

lemma fails_Reconcile: "fails_over tries_again excused (Reconcile r n)"
  unfolding Reconcile_def
  by (rule fails_bind [OF fails_mono [OF fails_client(1)]]) (auto intro!: fails_intros yields_intros fails_agent)

section \<open>Properties\<close>

text \<open>
  C4. Whatever the API server does, a reconciliation in which a request fails is tried again, with the exception of answers that
  say that the agent or the pod is gone already, and of one failure that is overlooked: that the phase \<open>Stopped\<close> of
  a paused agent could not be written. And an agent that was read, is not deleted and is not paused is always
  looked at again, whatever else happened.
\<close>

theorem failures_retried:
  fixes w :: "('k, 'h, 'c) world" and r :: "('k, 'h) AgentReconciler"
  shows "(\<exists>l. calls (snd (run_state (Reconcile r n) w)) = calls w @ l \<and>
      (tries_again (fst (run_state (Reconcile r n) w)) \<or>
        (\<forall>x \<in> set l. settled_request x \<or> overlooked (fst x)))) \<and>
    (\<forall>a. fst (get_agent (r_Client r) n (kube w)) = Inr a \<longrightarrow> IsZero (meta_DeletionTimestamp (agent_Meta a)) \<longrightarrow>
      \<not> spec_Paused (agent_Spec a) \<longrightarrow> tries_again (fst (run_state (Reconcile r n) w)))"
proof (intro conjI allI impI)
  show "\<exists>l. calls (snd (run_state (Reconcile r n) w)) = calls w @ l \<and>
      (tries_again (fst (run_state (Reconcile r n) w)) \<or> (\<forall>x \<in> set l. excused x))"
    using fails_Reconcile [of r n] unfolding fails_over_def by blast
next
  fix a assume a: "fst (get_agent (r_Client r) n (kube w)) = Inr a" "IsZero (meta_DeletionTimestamp (agent_Meta a))"
    "\<not> spec_Paused (agent_Spec a)"
  have "yields tries_again (do {
      found \<leftarrow> findAgentPod r a;
      case found of Inl e \<Rightarrow> ret (no_result, Some e) | Inr found \<Rightarrow> reconcile_found r a found }
    :: ('k, 'h, 'c, answer) prog)"
    by (intro yields_intros found_again [OF a(3)]) simp
  then have "yields tries_again (reconcile_agent r a :: ('k, 'h, 'c, answer) prog)"
    using a(2) by (simp add: reconcile_agent_def always_again(1))
  moreover obtain s where "get_agent (r_Client r) n (kube w) = (Inr a, s)" using a(1) by (metis prod.collapse)
  ultimately show "tries_again (fst (run_state (Reconcile r n) w))"
    using run_Reconcile by (metis yieldsD)
qed

text \<open>The exception is real: here the patch is refused, and nobody asks for another try.\<close>

definition status_refusing :: "(cluster, InMemoryHistory) AgentReconciler" where
  "status_refusing = ref_reconciler\<lparr>r_Client :=
     ref_kube\<lparr>patch_agent_status := \<lambda>b m k. (Inl (KErr OtherReason ''etcd''), k)\<rparr>\<rparr>"

lemma overlooked_run:
  "\<exists>a. calls (snd (run_state (Reconcile status_refusing (''default'', ''a'')) (ref_world (ref_cluster ref_paused [])))) =
      [(GetAgent (''default'', ''a''), Done), (ListPods ''default'' (pod_selector ref_paused), Done),
       (PatchAgentStatus ref_paused a, Refused (KErr OtherReason ''etcd''))] \<and>
    \<not> tries_again (fst (run_state (Reconcile status_refusing (''default'', ''a'')) (ref_world (ref_cluster ref_paused []))))"
  using ref_cluster_simps(1) [of ref_paused]
  by (simp add: status_refusing_def reconcile_defs monad_simps ref_kube_reads)

theorem failures_retried_witness:
  "\<exists>a. (PatchAgentStatus ref_paused a, Refused (KErr OtherReason ''etcd'')) \<in>
      set (calls (snd (run_state (Reconcile status_refusing (''default'', ''a'')) (ref_world (ref_cluster ref_paused []))))) \<and>
    \<not> tries_again (fst (run_state (Reconcile status_refusing (''default'', ''a'')) (ref_world (ref_cluster ref_paused [])))) \<and>
    overlooked (PatchAgentStatus ref_paused a)"
proof -
  obtain a where a: "calls (snd (run_state (Reconcile status_refusing (''default'', ''a'')) (ref_world (ref_cluster ref_paused [])))) =
      [(GetAgent (''default'', ''a''), Done), (ListPods ''default'' (pod_selector ref_paused), Done),
       (PatchAgentStatus ref_paused a, Refused (KErr OtherReason ''etcd''))]"
    "\<not> tries_again (fst (run_state (Reconcile status_refusing (''default'', ''a'')) (ref_world (ref_cluster ref_paused []))))"
    using overlooked_run by blast
  with failures_retried [of status_refusing "(''default'', ''a'')" "ref_world (ref_cluster ref_paused [])"]
  have "overlooked (PatchAgentStatus ref_paused a)" by (auto simp: ref_world_def)
  with a show ?thesis by auto
qed

end
