(* ===== verification/Rest_Failures.thy ===== *)
theory Rest_Failures
  imports Rest_Routes
begin

text \<open>
  What a REST handler does when the API server refuses a request: it stops there and answers with an error. The API
  server may do anything here.
\<close>

section \<open>Programs that stop at a failure\<close>

text \<open>
  \<open>aborts A Q m\<close>: either all requests of \<open>m\<close> are \<open>A\<close>, or only the last one is not and the result is \<open>Q\<close>. In a
  composition, the rest after such a result sends nothing more and has a result of the kind.
\<close>

definition aborts :: "(kcall \<times> outcome \<Rightarrow> bool) \<Rightarrow> ('a \<Rightarrow> bool) \<Rightarrow> ('k, 'h, 'c, 'a) prog \<Rightarrow> bool" where
  "aborts A Q m \<longleftrightarrow> (\<forall>w. \<exists>l. calls (snd (run_state m w)) = calls w @ l \<and>
     ((\<forall>x \<in> set l. A x) \<or> (Q (fst (run_state m w)) \<and> (\<forall>x \<in> set (butlast l). A x))))"

named_theorems aborts_intros "rules for programs that stop at a failure"

definition gives_up :: "('a \<Rightarrow> bool) \<Rightarrow> ('k, 'h, 'c, 'a) prog \<Rightarrow> bool" where
  "gives_up Q m \<longleftrightarrow> emits (\<lambda>_. False) m \<and> yields Q m"

lemma gives_up_ret [simp]: "gives_up Q (State_Monad.return x) \<longleftrightarrow> Q x"
  by (auto simp: gives_up_def yields_def emits_ret)

lemma silent_calls: "emits (\<lambda>_. False) m \<Longrightarrow> calls (snd (run_state m w)) = calls w"
  unfolding emits_def by (metis append_Nil2 list.set_intros(1) list.exhaust)

lemma aborts_ret [aborts_intros]: "aborts A Q (State_Monad.return x)"
  by (simp add: aborts_def)

lemma aborts_silent: "emits (\<lambda>_. False) m \<Longrightarrow> aborts A Q m"
  by (simp add: aborts_def silent_calls)

lemma aborts_bind:
  assumes m: "aborts A R m" and up: "\<And>a. R a \<Longrightarrow> gives_up Q (f a)" and f: "\<And>a. aborts A Q (f a)"
  shows "aborts A Q (State_Monad.bind m f)"
  unfolding aborts_def
proof
  fix w
  obtain a w1 where r: "run_state m w = (a, w1)" by fastforce
  obtain l1 where l1: "calls w1 = calls w @ l1" "(\<forall>x \<in> set l1. A x) \<or> (R a \<and> (\<forall>x \<in> set (butlast l1). A x))"
    using m r unfolding aborts_def by (metis fst_conv snd_conv)
  let ?P = "\<lambda>l. calls (snd (run_state (State_Monad.bind m f) w)) = calls w @ l \<and>
      ((\<forall>x \<in> set l. A x) \<or> (Q (fst (run_state (State_Monad.bind m f) w)) \<and> (\<forall>x \<in> set (butlast l). A x)))"
  show "\<exists>l. ?P l"
  proof (cases "\<forall>x \<in> set l1. A x")
    case True
    obtain l2 where l2: "calls (snd (run_state (f a) w1)) = calls w1 @ l2"
      "(\<forall>x \<in> set l2. A x) \<or> (Q (fst (run_state (f a) w1)) \<and> (\<forall>x \<in> set (butlast l2). A x))"
      using f unfolding aborts_def by blast
    have "set (butlast (l1 @ l2)) \<subseteq> set l1 \<union> set (butlast l2)"
      by (auto simp: butlast_append dest: in_set_butlastD)
    with True l1(1) l2 r have "?P (l1 @ l2)" by auto
    then show ?thesis by blast
  next
    case False
    with l1(2) have a: "gives_up Q (f a)" "\<forall>x \<in> set (butlast l1). A x" using up by auto
    then have "calls (snd (run_state (f a) w1)) = calls w1" "Q (fst (run_state (f a) w1))"
      unfolding gives_up_def by (auto simp: silent_calls yieldsD)
    with a(2) l1(1) r have "?P l1" by simp
    then show ?thesis by blast
  qed
qed

lemma aborts_request:
  assumes "\<And>q. A (q, Done)"
  shows "aborts A (\<lambda>x. \<exists>e. x = Inl e) (request q f)"
  unfolding aborts_def
proof
  fix w
  show "\<exists>l. calls (snd (run_state (request q f) w)) = calls w @ l \<and>
      ((\<forall>x \<in> set l. A x) \<or> ((\<exists>e. fst (run_state (request q f) w) = Inl e) \<and> (\<forall>x \<in> set (butlast l). A x)))"
    using assms by (cases "fst (f (kube w))") (simp_all add: monad_simps)
qed

lemma aborts_client:
  assumes "\<And>q. A (q, Done)"
  shows "aborts A (\<lambda>x. \<exists>e. x = Inl e) (Get_agent cl n)" "aborts A (\<lambda>x. \<exists>e. x = Inl e) (List_agents cl ns few)"
    "aborts A (\<lambda>x. \<exists>e. x = Inl e) (Create_agent cl a)" "aborts A (\<lambda>x. \<exists>e. x = Inl e) (Update_agent cl a)"
    "aborts A (\<lambda>x. \<exists>e. x = Inl e) (Patch_agent cl b a)" "aborts A (\<lambda>x. \<exists>e. x = Inl e) (Delete_agent cl a)"
  unfolding client_defs by (rule aborts_request, rule assms)+

lemma aborts_cases [aborts_intros]:
  "(b \<Longrightarrow> aborts A Q m) \<Longrightarrow> (\<not> b \<Longrightarrow> aborts A Q m') \<Longrightarrow> aborts A Q (if b then m else m')"
  "(\<And>e. x = Inl e \<Longrightarrow> aborts A Q (f e)) \<Longrightarrow> (\<And>a. x = Inr a \<Longrightarrow> aborts A Q (g a)) \<Longrightarrow>
   aborts A Q (case x of Inl e \<Rightarrow> f e | Inr a \<Rightarrow> g a)"
  "(y = None \<Longrightarrow> aborts A Q m) \<Longrightarrow> (\<And>a. y = Some a \<Longrightarrow> aborts A Q (h a)) \<Longrightarrow>
   aborts A Q (case y of None \<Rightarrow> m | Some a \<Rightarrow> h a)"
  "(\<And>a b. z = (a, b) \<Longrightarrow> aborts A Q (i a b)) \<Longrightarrow> aborts A Q (case z of (a, b) \<Rightarrow> i a b)"
  by (auto split: sum.split option.split prod.split)

section \<open>The handlers\<close>

abbreviation reports :: "Response \<Rightarrow> bool" where "reports r \<equiv> 400 \<le> resp_Code r"

abbreviation succeeded :: "kcall \<times> outcome \<Rightarrow> bool" where "succeeded x \<equiv> snd x = Done"

lemma aborts_with_agent [aborts_intros]:
  "(\<And>a. aborts succeeded reports (f a)) \<Longrightarrow> aborts succeeded reports (with_agent s n f)"
  unfolding with_agent_def by (rule aborts_bind [OF aborts_client(1)]) (auto intro!: aborts_intros)

lemma aborts_with_patch [aborts_intros]:
  "(\<And>a. aborts succeeded reports (f a)) \<Longrightarrow> aborts succeeded reports (with_patch s b m f)"
  unfolding with_patch_def by (rule aborts_bind [OF aborts_client(5)]) (auto intro!: aborts_intros)

lemma aborts_publish [aborts_intros]:
  "aborts A Q (State_Monad.bind (publish s a n re m) (\<lambda>_. ret x))"
  by (intro aborts_silent emits_intros)

lemma aborts_after_clock [aborts_intros]:
  "(\<And>t. aborts A Q (f t)) \<Longrightarrow> aborts A Q (State_Monad.bind rfc3339_now f)"
  by (rule aborts_bind [OF aborts_silent [OF emits_rfc3339_now], where R = "\<lambda>_. False"]) auto

lemma aborts_delete_now: "aborts succeeded reports (delete_now s n a)"
  unfolding delete_now_def
  by (rule aborts_bind [OF aborts_silent [OF emits_publish(2)], where R = "\<lambda>_. False"],
      simp, rule aborts_bind [OF aborts_client(6)])
    (auto intro!: aborts_intros aborts_silent emits_intros)

lemma aborts_reading:
  "aborts succeeded reports (handleGetAgent s c)" "aborts succeeded reports (handleGetAgentHistory s c)"
  "aborts succeeded reports (handleGetEnv s c)" "aborts succeeded reports (handleGetLogs logs s c)"
  "aborts succeeded reports (handleInfo s c)" "aborts succeeded reports (handleHealthz s c)"
  unfolding handleGetAgent_def handleGetAgentHistory_def handleGetEnv_def handleGetLogs_def handleInfo_def
    handleHealthz_def Let_def
  by (intro aborts_intros aborts_silent emits_intros)+

lemma aborts_listing:
  "aborts succeeded reports (handleListAgents s c)" "aborts succeeded reports (handleListAgentServices s c)"
  "aborts succeeded reports (handleReadyz s c)"
  unfolding handleListAgents_def handleListAgentServices_def handleReadyz_def Let_def
  by (rule aborts_bind [OF aborts_client(2)]; auto intro!: aborts_intros)+

lemma aborts_patching:
  "aborts succeeded reports (handleRestartAgent s c)" "aborts succeeded reports (handleStopAgent s c)"
  "aborts succeeded reports (handleStartAgent s c)" "aborts succeeded reports (handleDisableSelfHealing s c)"
  "aborts succeeded reports (handleEnableSelfHealing s c)"
  "aborts succeeded reports (handleSetEnv s c eb)" "aborts succeeded reports (handleMergeEnv s c eb)"
  "aborts succeeded reports (handleDeleteEnvKey s c)"
  unfolding handleRestartAgent_def handleStopAgent_def handleStartAgent_def handleDisableSelfHealing_def
    handleEnableSelfHealing_def handleSetEnv_def handleMergeEnv_def handleDeleteEnvKey_def Let_def
  by (intro aborts_intros)+

lemma aborts_writing:
  "aborts succeeded reports (handleCreateAgent s c cb)" "aborts succeeded reports (handleUpdateAgent s c ub)"
  "aborts succeeded reports (handleDeleteAgent s c)"
  unfolding handleCreateAgent_def handleUpdateAgent_def handleDeleteAgent_def
  by (intro aborts_intros aborts_delete_now aborts_bind [OF aborts_client(3)] aborts_bind [OF aborts_client(4)]
      aborts_bind [OF aborts_client(5)]; force)+

lemma aborts_caching:
  "aborts A Q (handleListCache s c)" "aborts A Q (handleGetCacheField s c)" "aborts A Q (handleSetCacheField s c body)"
  "aborts A Q (handleDeleteCacheField s c)" "aborts A Q (handleClearCache s c)"
  by (intro aborts_silent emits_cache_handlers)+

section \<open>Keepalive\<close>

text \<open>While it waits for the agent to run, a keepalive goes on when it cannot read the agent.\<close>

fun succeeded_or_read :: "kcall \<times> outcome \<Rightarrow> bool" where
  "succeeded_or_read (GetAgent n, oc) = True"
| "succeeded_or_read (q, oc) \<longleftrightarrow> oc = Done"

lemma succeeded_or_read_done [simp]: "succeeded_or_read (q, Done)"
  by (cases q) simp_all

lemma aborts_read: "aborts succeeded_or_read R (Get_agent cl n)" "aborts succeeded_or_read R' (Sleep d)"
  by (auto simp: aborts_def monad_simps)

lemma aborts_poll: "aborts succeeded_or_read Q (poll fuel s n deadline phase)"
proof (induction fuel arbitrary: phase)
  case (Suc fuel)
  note rec = aborts_bind [OF aborts_read(2), where R = "\<lambda>_. False", OF _ Suc.IH]
  show ?case
    unfolding poll.simps
    by (rule aborts_bind [OF aborts_silent, where R = "\<lambda>_. False"])
      (auto intro!: aborts_intros rec aborts_bind [OF aborts_read(1), where R = "\<lambda>_. False"] emits_intros)
qed (simp add: aborts_intros)

abbreviation wake_failed :: "(kerr + string \<times> string) option \<Rightarrow> bool" where
  "wake_failed r \<equiv> \<exists>e. r = Some (Inl e)"

lemma aborts_await: "aborts succeeded_or_read wake_failed (await fuel s n t url)"
  unfolding await_def
  by (rule aborts_bind [OF aborts_silent, where R = "\<lambda>_. False"])
    (auto intro!: aborts_intros aborts_bind [OF aborts_poll, where R = "\<lambda>_. False"] emits_intros)

lemma aborts_unpause: "aborts succeeded_or_read (\<lambda>x. x \<noteq> None) (unpause s n a)"
  unfolding unpause_def
  by (intro aborts_after_clock, rule aborts_bind [OF aborts_client(5)])
    (auto intro!: aborts_intros aborts_silent emits_intros)

lemma aborts_wake: "aborts succeeded_or_read wake_failed (wakeAgent fuel s n t)"
  unfolding wakeAgent_def Let_def
  by (rule aborts_bind [OF aborts_client(1)])
    (auto intro!: aborts_intros aborts_await aborts_bind [OF aborts_unpause])

lemma aborts_keepalive:
  "aborts succeeded_or_read (\<lambda>x. \<exists>r. x = Some r \<and> reports r) (handleKeepalive fuel s c)"
  unfolding handleKeepalive_def Let_def
  by (rule aborts_bind [OF aborts_silent, where R = "\<lambda>_. False"], intro emits_intros, simp,
      rule aborts_bind [OF aborts_wake])
    (auto intro!: aborts_intros aborts_silent emits_intros)

section \<open>The routes\<close>

abbreviation wakes :: "string \<Rightarrow> bool" where
  "wakes p \<equiv> take 10 (rev p) = rev ''/keepalive''"

definition stops_at_failure :: "string \<Rightarrow> ('k, 'h, 'c) handler \<Rightarrow> bool" where
  "stops_at_failure p h \<longleftrightarrow> (\<forall>c b. aborts (if wakes p then succeeded_or_read else succeeded)
     (\<lambda>x. \<exists>r. x = Some r \<and> reports r) (h c b))"

lemma aborts_some: "aborts A reports m \<Longrightarrow> aborts A (\<lambda>x. \<exists>r. x = Some r \<and> reports r) (do { r \<leftarrow> m; ret (Some r) })"
  by (rule aborts_bind) (auto intro: aborts_intros)

lemma stops_handlers:
  "(\<And>c. aborts succeeded reports (h c)) \<Longrightarrow> \<not> wakes p \<Longrightarrow> stops_at_failure p (returns h)"
  "(\<And>c b. aborts succeeded reports (h' c b)) \<Longrightarrow> \<not> wakes p \<Longrightarrow> stops_at_failure p (with_body f h')"
  "wakes p \<Longrightarrow> stops_at_failure p (\<lambda>c b. handleKeepalive fuel s c)"
  by (simp_all add: stops_at_failure_def returns_def with_body_def aborts_some aborts_keepalive)

lemma stops_touching: "stops_at_failure p h \<Longrightarrow> stops_at_failure p (touching s h)"
  unfolding stops_at_failure_def touching_def activityMiddleware_def TouchActivity_def Let_def
  by (intro allI aborts_bind [OF aborts_silent, where R = "\<lambda>_. False"] emits_intros) auto

lemma routes_stop: "list_all (\<lambda>r. stops_at_failure (rt_Path r) (rt_Handler r)) (registerRoutes d s)"
  by (simp add: registerRoutes_def registerAgentRoutes_def named_routes_def group_def stops_touching stops_handlers
      aborts_reading aborts_listing aborts_patching aborts_writing aborts_caching)

section \<open>Properties\<close>



end
