(* ===== verification/Rest_Round_Trip.thy ===== *)
theory Rest_Round_Trip
  imports Rest_Bodies Rest_Lifecycle
begin

text \<open>
  What is written through the REST API comes back: an agent that was created or updated is read as requested, and the
  environment that a client has read can be sent back as it is.
\<close>

section \<open>Documents of answers\<close>

text \<open>
  The environment in an answer, by the tags of \<open>EnvVar\<close>: an empty value and a nil source are left out. \<open>enc\<close> encodes
  the sources.
\<close>

definition env_var_json :: "(k8s_value \<Rightarrow> json) \<Rightarrow> EnvVar \<Rightarrow> json" where
  "env_var_json enc e = JObject ([(''name'', JString (env_Name e))]
     @ (if env_Value e = '''' then [] else [(''value'', JString (env_Value e))])
     @ (case env_ValueFrom e of None \<Rightarrow> [] | Some src \<Rightarrow> [(''valueFrom'', enc src)]))"

definition env_json :: "(k8s_value \<Rightarrow> json) \<Rightarrow> EnvVar slice \<Rightarrow> json" where
  "env_json enc env = (case env of None \<Rightarrow> JNull | Some es \<Rightarrow> JArray (map (env_var_json enc) es))"

text \<open>The body of \<open>PUT /env\<close> with an environment as it was answered.\<close>

definition env_doc :: "(k8s_value \<Rightarrow> json) \<Rightarrow> EnvVar slice \<Rightarrow> json" where
  "env_doc enc env = JObject [(''env'', env_json enc env)]"

lemma same_names:
  "same_name ''name'' ''name''" "same_name ''value'' ''value''" "same_name ''valueFrom'' ''valueFrom''"
  "same_name ''env'' ''env''" "\<not> same_name ''name'' ''value''" "\<not> same_name ''name'' ''valueFrom''"
  "\<not> same_name ''value'' ''valueFrom''" "\<not> same_name ''valueFrom'' ''value''"
  by code_simp+

lemma as_ptr_enc: "d (enc v) = Some v \<Longrightarrow> enc v \<noteq> JNull \<Longrightarrow> as_ptr d (enc v) = Some (Some v)"
  by (cases "enc v") auto

lemma decode_env_var:
  assumes "\<And>v. kt_EnvVarSource K (enc v) = Some v" and "\<And>v. enc v \<noteq> JNull"
  shows "as_env K (env_var_json enc e) = Some e"
  using as_ptr_enc [of "kt_EnvVarSource K" enc] assms
  by (simp add: as_env_def env_var_json_def same_names split: option.split)

lemma those_map: "(\<And>x. d (e x) = Some x) \<Longrightarrow> those (map d (map e xs)) = Some xs"
  by (induction xs) simp_all

lemma decode_env:
  assumes "\<And>v. kt_EnvVarSource K (enc v) = Some v" and "\<And>v. enc v \<noteq> JNull"
  shows "bind_SetEnv K (env_doc enc env) = (if env = None then None else Some env)"
  using those_map [of "as_env K" "env_var_json enc"] decode_env_var [OF assms]
  by (simp add: bind_SetEnv_def env_doc_def env_json_def same_names split: option.split)

section \<open>Creating and updating against the API\<close>

text \<open>
  JSON does not distinguish an empty slice or map of the spec from a nil one: both are left out, and come back as nil.
\<close>

definition nil_if_empty :: "'a slice \<Rightarrow> 'a slice" where
  "nil_if_empty s = (if elems s = [] then None else s)"

definition nil_map_if_empty :: "gomap \<Rightarrow> gomap" where
  "nil_map_if_empty m = (if entries m = Map.empty then None else m)"

definition stored_spec :: "AgentSpec \<Rightarrow> AgentSpec" where
  "stored_spec sp = sp
     \<lparr>spec_ImagePullSecrets := nil_if_empty (spec_ImagePullSecrets sp), spec_Env := nil_if_empty (spec_Env sp),
      spec_EnvFrom := nil_if_empty (spec_EnvFrom sp), spec_Command := nil_if_empty (spec_Command sp),
      spec_Args := nil_if_empty (spec_Args sp), spec_Volumes := nil_if_empty (spec_Volumes sp),
      spec_VolumeMounts := nil_if_empty (spec_VolumeMounts sp), spec_PodLabels := nil_map_if_empty (spec_PodLabels sp),
      spec_PodAnnotations := nil_map_if_empty (spec_PodAnnotations sp)\<rparr>"

definition same_stored :: "AgentSpec \<Rightarrow> AgentSpec \<Rightarrow> bool" where
  "same_stored sp sp' \<longleftrightarrow> stored_spec sp = stored_spec sp'"

lemma nil_if_empty_inj: "nil_if_empty s = nil_if_empty s' \<Longrightarrow> elems s = elems s'"
  by (auto simp: nil_if_empty_def split: if_splits)

lemma nil_map_if_empty_inj: "nil_map_if_empty m = nil_map_if_empty m' \<Longrightarrow> entries m = entries m'"
  by (auto simp: nil_map_if_empty_def split: if_splits)

lemma same_storedD:
  assumes "same_stored sp sp'"
  shows "spec_Image sp = spec_Image sp'" "spec_ImagePullPolicy sp = spec_ImagePullPolicy sp'"
    "spec_Resources sp = spec_Resources sp'" "spec_ServiceAccountName sp = spec_ServiceAccountName sp'"
    "spec_RestartPolicy sp = spec_RestartPolicy sp'" "spec_Paused sp = spec_Paused sp'"
    "spec_SelfHealingDisabled sp = spec_SelfHealingDisabled sp'" "spec_ServicePort sp = spec_ServicePort sp'"
    "spec_ServiceProtocol sp = spec_ServiceProtocol sp'" "spec_IdleTimeout sp = spec_IdleTimeout sp'"
    "elems (spec_ImagePullSecrets sp) = elems (spec_ImagePullSecrets sp')" "elems (spec_Env sp) = elems (spec_Env sp')"
    "elems (spec_EnvFrom sp) = elems (spec_EnvFrom sp')" "elems (spec_Command sp) = elems (spec_Command sp')"
    "elems (spec_Args sp) = elems (spec_Args sp')" "elems (spec_Volumes sp) = elems (spec_Volumes sp')"
    "elems (spec_VolumeMounts sp) = elems (spec_VolumeMounts sp')"
    "entries (spec_PodLabels sp) = entries (spec_PodLabels sp')"
    "entries (spec_PodAnnotations sp) = entries (spec_PodAnnotations sp')"
  using assms unfolding same_stored_def stored_spec_def
  by (cases sp; cases sp'; auto dest: nil_if_empty_inj nil_map_if_empty_inj)+

section \<open>Requests\<close>

text \<open>A spec that holds what the creation of an agent asks for, and one that an update has made of another.\<close>

definition as_requested :: "CreateAgentRequest \<Rightarrow> AgentSpec \<Rightarrow> bool" where
  "as_requested req sp \<longleftrightarrow>
     spec_Image sp = req_Image req \<and> spec_ImagePullPolicy sp = req_ImagePullPolicy req \<and>
     elems (spec_Env sp) = elems (req_Env req) \<and> elems (spec_EnvFrom sp) = elems (req_EnvFrom req) \<and>
     spec_Resources sp = req_Resources req \<and> elems (spec_Command sp) = elems (req_Command req) \<and>
     elems (spec_Args sp) = elems (req_Args req) \<and> spec_ServiceAccountName sp = req_ServiceAccount req \<and>
     spec_RestartPolicy sp = req_RestartPolicy req \<and> entries (spec_PodLabels sp) = entries (req_PodLabels req) \<and>
     entries (spec_PodAnnotations sp) = entries (req_PodAnnotations req) \<and>
     spec_SelfHealingDisabled sp = req_SelfHealingDisabled req \<and> spec_Paused sp = req_Paused req \<and>
     spec_ServicePort sp = req_ServicePort req \<and> spec_ServiceProtocol sp = req_ServiceProtocol req \<and>
     spec_IdleTimeout sp = req_IdleTimeout req \<and>
     elems (spec_ImagePullSecrets sp) = [] \<and> elems (spec_Volumes sp) = [] \<and> elems (spec_VolumeMounts sp) = []"

definition given :: "string \<Rightarrow> string \<Rightarrow> string" where
  "given new old = (if new = '''' then old else new)"

definition as_updated :: "UpdateAgentRequest \<Rightarrow> AgentSpec \<Rightarrow> AgentSpec \<Rightarrow> bool" where
  "as_updated u old new \<longleftrightarrow>
     spec_Image new = given (upd_Image u) (spec_Image old) \<and>
     spec_ImagePullPolicy new = given (upd_ImagePullPolicy u) (spec_ImagePullPolicy old) \<and>
     spec_ServiceAccountName new = given (upd_ServiceAccount u) (spec_ServiceAccountName old) \<and>
     spec_RestartPolicy new = given (upd_RestartPolicy u) (spec_RestartPolicy old) \<and>
     elems (spec_Env new) = (case upd_Env u of None \<Rightarrow> elems (spec_Env old) | Some es \<Rightarrow> es) \<and>
     elems (spec_EnvFrom new) = (case upd_EnvFrom u of None \<Rightarrow> elems (spec_EnvFrom old) | Some es \<Rightarrow> es) \<and>
     elems (spec_Command new) = (case upd_Command u of None \<Rightarrow> elems (spec_Command old) | Some es \<Rightarrow> es) \<and>
     elems (spec_Args new) = (case upd_Args u of None \<Rightarrow> elems (spec_Args old) | Some es \<Rightarrow> es) \<and>
     entries (spec_PodLabels new) = (case upd_PodLabels u of None \<Rightarrow> entries (spec_PodLabels old) | Some m \<Rightarrow> m) \<and>
     entries (spec_PodAnnotations new) =
       (case upd_PodAnnotations u of None \<Rightarrow> entries (spec_PodAnnotations old) | Some m \<Rightarrow> m) \<and>
     spec_IdleTimeout new = (case upd_IdleTimeout u of None \<Rightarrow> spec_IdleTimeout old | Some n \<Rightarrow> n) \<and>
     spec_Resources new = spec_Resources old \<and> spec_Paused new = spec_Paused old \<and>
     spec_SelfHealingDisabled new = spec_SelfHealingDisabled old \<and> spec_ServicePort new = spec_ServicePort old \<and>
     spec_ServiceProtocol new = spec_ServiceProtocol old \<and>
     elems (spec_ImagePullSecrets new) = elems (spec_ImagePullSecrets old) \<and>
     elems (spec_Volumes new) = elems (spec_Volumes old) \<and> elems (spec_VolumeMounts new) = elems (spec_VolumeMounts old)"

lemma requested_as_requested: "same_stored sp (agent_Spec (requested_agent ns req)) \<Longrightarrow> as_requested req sp"
  by (simp add: as_requested_def same_storedD) (simp add: requested_agent_def empty_spec_def)

lemma updated_as_updated: "same_stored sp (apply_update u old) \<Longrightarrow> as_updated u old sp"
  by (simp add: as_updated_def same_storedD) (auto simp: apply_update_def given_def split: option.split)

text \<open>
  The server of \<open>kube_api\<close>, with its documented answers to the creation and the update of an agent. \<open>valid\<close> says which agents it
  admits; an update is of an agent as it was last read, so that there is no conflict.
\<close>

locale crud_api = kube_api C agents pods services
  for C :: "'k Client" and agents pods services +
  fixes valid :: "Agent \<Rightarrow> bool"
  assumes create_agent_new: "agents k (agent_key a) = None \<Longrightarrow> valid a \<Longrightarrow> meta_DeletionTimestamp (agent_Meta a) = None \<Longrightarrow>
      \<exists>a' k'. create_agent C a k = (Inr a', k') \<and> agents k' = (agents k)(agent_key a \<mapsto> a') \<and>
        same_stored (agent_Spec a') (agent_Spec a) \<and> agent_key a' = agent_key a \<and>
        entries (meta_Labels (agent_Meta a')) = entries (meta_Labels (agent_Meta a)) \<and>
        entries (agent_Annotations a') = entries (agent_Annotations a) \<and> meta_DeletionTimestamp (agent_Meta a') = None"
    and create_agent_taken: "agents k (agent_key a) = Some b \<Longrightarrow> \<exists>m. create_agent C a k = (Inl (KErr AlreadyExists m), k)"
    and update_agent_read: "agents k (agent_key a) = Some b \<Longrightarrow> agent_Meta a = agent_Meta b \<Longrightarrow> agent_Status a = agent_Status b \<Longrightarrow>
      meta_DeletionTimestamp (agent_Meta b) = None \<Longrightarrow> valid a \<Longrightarrow>
      \<exists>a' k'. update_agent C a k = (Inr a', k') \<and> agents k' = (agents k)(agent_key a \<mapsto> a') \<and>
        same_stored (agent_Spec a') (agent_Spec a) \<and> agent_key a' = agent_key a \<and> agent_Status a' = agent_Status b"
begin

lemma run_publish:
  "\<exists>w'. run_state (State_Monad.bind (publish s a n re m) (\<lambda>_. ret x)) w = (x, w') \<and> kube w' = kube w"
  by (rule answersD [OF publish_answers])

lemma create_run:
  fixes w :: "('k, 'h, 'c) world"
  assumes "s_Client s = C" and "agents (kube w) (fst (nsName s c), req_Name req) = None"
    and "valid (requested_agent (fst (nsName s c)) req)"
  shows "\<exists>a w'. run_state (handleCreateAgent s c (Inr req)) w = (respondCreated (PAgent a), w') \<and>
    agents (kube w') = (agents (kube w))((fst (nsName s c), req_Name req) \<mapsto> a) \<and>
    same_stored (agent_Spec a) (agent_Spec (requested_agent (fst (nsName s c)) req)) \<and>
    agent_key a = (fst (nsName s c), req_Name req) \<and>
    entries (meta_Labels (agent_Meta a)) = entries (req_Labels req) \<and>
    entries (agent_Annotations a) = entries (req_Annotations req) \<and> meta_DeletionTimestamp (agent_Meta a) = None"
proof -
  let ?a = "requested_agent (fst (nsName s c)) req"
  have a: "agent_key ?a = (fst (nsName s c), req_Name req)" "meta_DeletionTimestamp (agent_Meta ?a) = None"
    "meta_Labels (agent_Meta ?a) = req_Labels req" "agent_Annotations ?a = req_Annotations req"
    by (simp_all add: requested_agent_def agent_key_def empty_meta_def)
  obtain b k where b: "create_agent C ?a (kube w) = (Inr b, k)" "agents k = (agents (kube w))(agent_key ?a \<mapsto> b)"
    "same_stored (agent_Spec b) (agent_Spec ?a)" "agent_key b = agent_key ?a"
    "entries (meta_Labels (agent_Meta b)) = entries (req_Labels req)"
    "entries (agent_Annotations b) = entries (req_Annotations req)" "meta_DeletionTimestamp (agent_Meta b) = None"
    using create_agent_new [of "kube w" ?a] assms(2,3) a by auto
  let ?w = "w\<lparr>kube := k, calls := calls w @ [(CreateAgent ?a, Done)]\<rparr>"
  obtain w' where "run_state (State_Monad.bind (publish s b (agent_Namespace b, agent_Name b) ''Created''
      (''Agent created via REST API (image: '' @ spec_Image (agent_Spec b) @ '')''))
      (\<lambda>_. ret (respondCreated (PAgent b)))) ?w = (respondCreated (PAgent b), w')" "kube w' = kube ?w"
    using run_publish [of s b] by metis
  with b a(1) assms(1) show ?thesis
    by (intro exI [of _ b] exI [of _ w']) (simp add: handleCreateAgent_def monad_simps)
qed

lemma create_again:
  assumes "s_Client s = C" and "agents (kube w) (fst (nsName s c), req_Name req) = Some b"
  shows "fst (run_state (handleCreateAgent s c (Inr req)) w) = respondError 409 ''agent already exists''"
proof -
  have "agent_key (requested_agent (fst (nsName s c)) req) = (fst (nsName s c), req_Name req)"
    by (simp add: requested_agent_def agent_key_def)
  with create_agent_taken [of "kube w" "requested_agent (fst (nsName s c)) req" b] assms show ?thesis
    by (auto simp: handleCreateAgent_def monad_simps)
qed

lemma read_back:
  "s_Client s = C \<Longrightarrow> agents (kube w) (nsName s c) = Some a \<Longrightarrow>
   fst (run_state (handleGetAgent s c) w) = respondOK (PAgent a)"
  by (simp add: handleGetAgent_def run_with_agent)

lemma update_run:
  fixes w :: "('k, 'h, 'c) world"
  assumes "s_Client s = C" and a: "agents (kube w) (nsName s c) = Some a"
    and "meta_DeletionTimestamp (agent_Meta a) = None" and "valid (update_spec (apply_update u) a)"
  shows "\<exists>b w'. run_state (handleUpdateAgent s c (Inr u)) w = (respondOK (PAgent b), w') \<and>
    agents (kube w') (nsName s c) = Some b \<and> same_stored (agent_Spec b) (apply_update u (agent_Spec a))"
proof -
  let ?u = "update_spec (apply_update u) a" and ?w1 = "w\<lparr>calls := calls w @ [(GetAgent (nsName s c), Done)]\<rparr>"
  have key: "agent_key ?u = nsName s c" using agents_key [OF a] by (simp add: agent_key_def)
  obtain b k where b: "update_agent C ?u (kube w) = (Inr b, k)" "agents k = (agents (kube w))(nsName s c \<mapsto> b)"
    "same_stored (agent_Spec b) (apply_update u (agent_Spec a))"
    using update_agent_read [of "kube w" ?u a] assms(3,4) a key by auto
  let ?w = "?w1\<lparr>kube := k, calls := calls ?w1 @ [(UpdateAgent ?u, Done)]\<rparr>"
  obtain w' where "run_state (State_Monad.bind (publish s b (nsName s c) ''SpecUpdated'' ''Agent spec updated via REST API'')
      (\<lambda>_. ret (respondOK (PAgent b)))) ?w = (respondOK (PAgent b), w')" "kube w' = kube ?w"
    using run_publish [of s b] by metis
  with b assms(1) show ?thesis
    by (intro exI [of _ b] exI [of _ w']) (simp add: handleUpdateAgent_def run_with_agent [OF assms(1) a] monad_simps)
qed

lemma round_trip:
  fixes w :: "('k, 'h, 'c) world"
  assumes C: "s_Client s = C" and c': "nsName s c' = (fst (nsName s c), req_Name req)"
    and "agents (kube w) (nsName s c') = None" and "valid (requested_agent (fst (nsName s c)) req)"
  shows "\<exists>a w1. run_state (handleCreateAgent s c (Inr req)) w = (respondCreated (PAgent a), w1) \<and>
    as_requested req (agent_Spec a) \<and>
    entries (meta_Labels (agent_Meta a)) = entries (req_Labels req) \<and>
    entries (agent_Annotations a) = entries (req_Annotations req) \<and>
    fst (run_state (handleGetAgent s c') w1) = respondOK (PAgent a) \<and>
    fst (run_state (handleCreateAgent s c (Inr req)) w1) = respondError 409 ''agent already exists'' \<and>
    (\<forall>u. valid (update_spec (apply_update u) a) \<longrightarrow>
      (\<exists>b w2. run_state (handleUpdateAgent s c' (Inr u)) w1 = (respondOK (PAgent b), w2) \<and>
        as_updated u (agent_Spec a) (agent_Spec b) \<and>
        fst (run_state (handleGetAgent s c') w2) = respondOK (PAgent b)))"
proof -
  obtain a w1 where run: "run_state (handleCreateAgent s c (Inr req)) w = (respondCreated (PAgent a), w1)"
    and w1: "agents (kube w1) = (agents (kube w))(nsName s c' \<mapsto> a)"
    and a: "same_stored (agent_Spec a) (agent_Spec (requested_agent (fst (nsName s c)) req))"
      "entries (meta_Labels (agent_Meta a)) = entries (req_Labels req)"
      "entries (agent_Annotations a) = entries (req_Annotations req)" "meta_DeletionTimestamp (agent_Meta a) = None"
    using create_run [OF C, of w c req] assms(3,4) unfolding c' by auto
  have there: "agents (kube w1) (nsName s c') = Some a" using w1 by simp
  have "\<exists>b w2. run_state (handleUpdateAgent s c' (Inr u)) w1 = (respondOK (PAgent b), w2) \<and>
      as_updated u (agent_Spec a) (agent_Spec b) \<and>
      fst (run_state (handleGetAgent s c') w2) = respondOK (PAgent b)"
    if "valid (update_spec (apply_update u) a)" for u
    using update_run [OF C there a(4) that] read_back [OF C] updated_as_updated by blast
  with run requested_as_requested [OF a(1)] a(2,3) read_back [OF C there] create_again [OF C there [unfolded c']] show ?thesis by blast
qed

end

lemma stored_agent_simps:
  "agent_key (created_agent t a) = agent_key a" "agent_Spec (created_agent t a) = agent_Spec a"
  "meta_Labels (agent_Meta (created_agent t a)) = meta_Labels (agent_Meta a)"
  "agent_Annotations (created_agent t a) = agent_Annotations a"
  "meta_DeletionTimestamp (agent_Meta (created_agent t a)) = meta_DeletionTimestamp (agent_Meta a)"
  "agent_key (updated_agent a b) = agent_key a" "agent_Spec (updated_agent a b) = agent_Spec a"
  "agent_Status (updated_agent a b) = agent_Status b"
  "meta_DeletionTimestamp (agent_Meta (updated_agent a b)) = meta_DeletionTimestamp (agent_Meta b)"
  by (simp_all add: created_agent_def updated_agent_def agent_key_def)

lemma ref_crud: "crud_api ref_kube ref_agents ref_pods ref_services (\<lambda>_. True)"
proof (intro crud_api.intro ref_kube.kube_api_axioms, unfold_locales, goal_cases)
  case (1 k a)
  then show ?case
    by (simp add: ref_kube_def Let_def same_stored_def stored_agent_simps)
next
  case (2 k a b)
  then show ?case by (simp add: ref_kube_def exists_already_def)
next
  case (3 k a b)
  then show ?case
    by (simp add: ref_kube_def Let_def same_stored_def stored_agent_simps)
qed

interpretation ref_crud: crud_api ref_kube ref_agents ref_pods ref_services "\<lambda>_. True"
  by (rule ref_crud)

section \<open>Properties\<close>

text \<open>
  C17. A created agent is read as it was requested. If no agent has the name and the server admits the requested one, the request
  is answered with 201 and the stored agent, whose spec, labels and annotations are the requested ones (JSON does not distinguish an
  empty list or map from none); reading the agent gives the same; creating it again is answered with 409; and an
  admitted update is answered, and from then on read, as the stored spec with the given fields replaced.
\<close>

theorem created_agent_reads_back:
  fixes w :: "('k, 'h, 'c) world"
  assumes "crud_api (s_Client s) agents pods services valid"
    and "nsName s c' = (fst (nsName s c), req_Name req)"
    and "agents (kube w) (nsName s c') = None" and "valid (requested_agent (fst (nsName s c)) req)"
  shows "\<exists>a w1. run_state (handleCreateAgent s c (Inr req)) w = (respondCreated (PAgent a), w1) \<and>
    as_requested req (agent_Spec a) \<and>
    entries (meta_Labels (agent_Meta a)) = entries (req_Labels req) \<and>
    entries (agent_Annotations a) = entries (req_Annotations req) \<and>
    fst (run_state (handleGetAgent s c') w1) = respondOK (PAgent a) \<and>
    fst (run_state (handleCreateAgent s c (Inr req)) w1) = respondError 409 ''agent already exists'' \<and>
    (\<forall>u. valid (update_spec (apply_update u) a) \<longrightarrow>
      (\<exists>b w2. run_state (handleUpdateAgent s c' (Inr u)) w1 = (respondOK (PAgent b), w2) \<and>
        as_updated u (agent_Spec a) (agent_Spec b) \<and>
        fst (run_state (handleGetAgent s c') w2) = respondOK (PAgent b)))"
  using crud_api.round_trip [OF assms(1) refl assms(2-4)] .

text \<open>
  C18. The environment of an agent can be sent back as it was answered. The document \<open>{"env": ...}\<close> around the answer of
  \<open>GET /env\<close> is understood by \<open>PUT /env\<close> unless the environment is nil, and then is answered with 400; if it is understood,
  the answer is the same environment, and the spec and its generation stay, so that the pod is kept.
\<close>

theorem env_round_trip:
  fixes w :: "('k, 'h, 'c) world"
  assumes "kube_api (s_Client s) agents pods services" and a: "agents (kube w) (nsName s c) = Some a"
    and "\<And>v. kt_EnvVarSource K (enc v) = Some v" and "\<And>v. enc v \<noteq> JNull"
  shows "fst (run_state (handleGetEnv s c) w) = respondOK (PEnv (spec_Env (agent_Spec a))) \<and>
    (let body = body_SetEnv (read_body K why (Some (env_doc enc (spec_Env (agent_Spec a)))));
         (resp, w') = run_state (handleSetEnv s c body) w
     in if spec_Env (agent_Spec a) = None then resp_Code resp = 400 \<and> kube w' = kube w
        else resp = respondOK (PEnv (spec_Env (agent_Spec a))) \<and>
          spec_becomes agents pods services (nsName s c) a (agent_Spec a) (kube w) (kube w'))"
proof (rule conjI)
  show "fst (run_state (handleGetEnv s c) w) = respondOK (PEnv (spec_Env (agent_Spec a)))"
    by (simp add: handleGetEnv_def kube_api.run_with_agent [OF assms(1) refl a])
  have body: "body_SetEnv (read_body K why (Some (env_doc enc env))) =
      (if env = None then Inl (why (Some (env_doc enc env))) else Inr env)" for env
    by (simp add: read_body_def bound_def decode_env [OF assms(3,4)])
  show "let body = body_SetEnv (read_body K why (Some (env_doc enc (spec_Env (agent_Spec a)))));
         (resp, w') = run_state (handleSetEnv s c body) w
     in if spec_Env (agent_Spec a) = None then resp_Code resp = 400 \<and> kube w' = kube w
        else resp = respondOK (PEnv (spec_Env (agent_Spec a))) \<and>
          spec_becomes agents pods services (nsName s c) a (agent_Spec a) (kube w) (kube w')"
  proof (cases "spec_Env (agent_Spec a) = None")
    case True
    then show ?thesis by (simp add: body handleSetEnv_def)
  next
    case False
    have "(agent_Spec a)\<lparr>spec_Env := spec_Env (agent_Spec a)\<rparr> = agent_Spec a" by simp
    with kube_api.effectD [OF assms(1) kube_api.set_env_effect [OF assms(1) refl, of c "spec_Env (agent_Spec a)" a] a] False
    show ?thesis by (auto simp: body)
  qed
qed

definition ref_create :: CreateAgentRequest where
  "ref_create = \<lparr>req_Name = ''b'', req_Image = ''nginx'', req_ImagePullPolicy = '''', req_Env = Some [], req_EnvFrom = None,
     req_Resources = K8sValue '''', req_Command = None, req_Args = None, req_ServiceAccount = '''', req_RestartPolicy = '''',
     req_PodLabels = None, req_PodAnnotations = None, req_Labels = None, req_Annotations = None,
     req_SelfHealingDisabled = False, req_Paused = False, req_ServicePort = 80, req_ServiceProtocol = '''', req_IdleTimeout = 0\<rparr>"

theorem created_agent_reads_back_witness:
  "\<exists>a w1. run_state (handleCreateAgent ref_server (ref_request '''' '''') (Inr ref_create)) (mem_world empty_cluster) =
      (respondCreated (PAgent a), w1) \<and> spec_Image (agent_Spec a) = ''nginx'' \<and>
    fst (run_state (handleGetAgent ref_server (ref_request ''b'' '''')) w1) = respondOK (PAgent a)"
proof -
  have "ref_agents (kube (mem_world empty_cluster)) (''default'', ''b'') = None"
    by (simp add: mem_world_def ref_agents_def empty_cluster_def)
  then obtain a w1 where "run_state (handleCreateAgent ref_server (ref_request '''' '''') (Inr ref_create)) (mem_world empty_cluster) =
      (respondCreated (PAgent a), w1)"
    "as_requested ref_create (agent_Spec a)"
    "fst (run_state (handleGetAgent ref_server (ref_request ''b'' '''')) w1) = respondOK (PAgent a)"
    using created_agent_reads_back [of ref_server ref_agents ref_pods ref_services "\<lambda>_. True" "ref_request ''b'' ''''"
        "ref_request '''' ''''" ref_create "mem_world empty_cluster"] ref_crud
    by (auto simp: ref_create_def)
  moreover from this(2) have "spec_Image (agent_Spec a) = ''nginx''" by (simp add: as_requested_def ref_create_def)
  ultimately show ?thesis by blast
qed

text \<open>Sources that are encoded as strings.\<close>

fun text_source :: "json \<Rightarrow> k8s_value option" where
  "text_source (JString s) = Some (K8sValue s)"
| "text_source _ = None"

fun source_text :: "k8s_value \<Rightarrow> json" where
  "source_text (K8sValue s) = JString s"

definition env_agent :: Agent where
  "env_agent = update_spec (\<lambda>sp. sp\<lparr>spec_Env := Some [\<lparr>env_Name = ''X'', env_Value = ''1'', env_ValueFrom = None\<rparr>]\<rparr>) idle_agent"

theorem env_round_trip_witness:
  "fst (run_state (handleSetEnv ref_server (ref_request ''a'' '''') (body_SetEnv (read_body
      \<lparr>kt_EnvVarSource = text_source, kt_EnvFromSource = text_source, kt_ResourceRequirements = text_source\<rparr> (\<lambda>_. ''EOF'')
      (Some (env_doc source_text (spec_Env (agent_Spec env_agent))))))) (mem_world (ref_cluster env_agent []))) =
    respondOK (PEnv (Some [\<lparr>env_Name = ''X'', env_Value = ''1'', env_ValueFrom = None\<rparr>]))"
proof -
  have key: "agent_key env_agent = (''default'', ''a'')" by (simp add: env_agent_def agent_key_def)
  have src: "text_source (source_text v) = Some v" "source_text v \<noteq> JNull" for v by (cases v; simp)+
  have env: "spec_Env (agent_Spec env_agent) = Some [\<lparr>env_Name = ''X'', env_Value = ''1'', env_ValueFrom = None\<rparr>]"
    by (simp add: env_agent_def)
  show ?thesis
    using env_round_trip [of ref_server ref_agents ref_pods ref_services "mem_world (ref_cluster env_agent [])"
        "ref_request ''a'' ''''" env_agent
        "\<lparr>kt_EnvVarSource = text_source, kt_EnvFromSource = text_source, kt_ResourceRequirements = text_source\<rparr>"
        source_text "\<lambda>_. ''EOF''"] ref_kube.kube_api_axioms ref_cluster_simps(1) [of env_agent "[]"] src
    by (simp add: key env Let_def split: prod.splits)
qed

end
